(* ===== verification/Duct_Prelude.thy ===== *)
theory Duct_Prelude
  imports Main "HOL-Library.Word" "HOL-Library.Sublist"
begin

text \<open>
  Shared vocabulary of the development: the machine integer types the C++ sources use, the
  collection of rewrite rules for byte orders, and generic facts about byte
  lists, prefixes and option-valued computations that several components need.
\<close>

unbundle bit_operations_syntax

type_synonym u8 = "8 word"
type_synonym u16 = "16 word"
type_synonym u32 = "32 word"
type_synonym u64 = "64 word"
type_synonym byte_seq = "u8 list"

text \<open>Milliseconds (\<open>std::chrono::milliseconds\<close>) and time points are signed counts.\<close>

type_synonym millis = int
type_synonym time_point = int

named_theorems wire_simps

section \<open>Overwriting a region of a fixed array: \<open>memcpy(out + off, src, n)\<close>\<close>

definition memcpy_at :: "'a list \<Rightarrow> nat \<Rightarrow> 'a list \<Rightarrow> 'a list" where
  "memcpy_at out off src = take off out @ src @ drop (off + length src) out"

definition sub_array :: "'a list \<Rightarrow> nat \<Rightarrow> nat \<Rightarrow> 'a list" where
  "sub_array xs off n = take n (drop off xs)"

lemma length_memcpy_at [simp]:
  "off + length src \<le> length out \<Longrightarrow> length (memcpy_at out off src) = length out"
  by (simp add: memcpy_at_def)

lemma length_sub_array [simp]: "off + n \<le> length xs \<Longrightarrow> length (sub_array xs off n) = n"
  by (simp add: sub_array_def)

section \<open>Small facts about lists\<close>

lemma length_filter_update:
  "i < length xs \<Longrightarrow>
   length (filter P (xs[i := y])) + (if P (xs ! i) then 1 else 0)
     = length (filter P xs) + (if P y then 1 else 0)"
  by (subst (3) id_take_nth_drop [of i xs]) (simp_all add: upd_conv_take_nth_drop)

lemma map_option_apsnd_apfst:
  "map_option (apsnd f) (map_option (apfst g) x) = map_option (apfst g) (map_option (apsnd f) x)"
  by (cases x) auto

section \<open>Modular arithmetic on machine words\<close>

lemma bit_u8_high [simp]: "8 \<le> n \<Longrightarrow> \<not> bit (b :: u8) n"
  using bit_imp_le_length [of b n] by auto

lemma unat_u16: "unat (w :: u16) < 65536"
  using unsigned_less [of w] by simp

lemma unat_of_nat_small:
  "n < 2 ^ LENGTH('w) \<Longrightarrow> unat (of_nat n :: 'w::len word) = n"
  by (simp add: unat_of_nat take_bit_nat_eq_self)

end
