(* ===== verification/Duct_Status.thy ===== *)
theory Duct_Status
  imports Duct_Prelude
begin

text \<open>
  The error model of \<^verbatim>\<open>include/duct/status.h\<close>: status codes, statuses, the exception they
  convert to, and \<open>Result<T>\<close>. \<open>Result<void>\<close> holds a status and nothing else, so it is
  modelled by \<open>Status\<close> itself. \<open>Result<T>\<close> has two constructors, one from a value and one
  from a status; a result built from a status carries a value-initialised \<open>T{}\<close>, which is
  an argument (\<open>dflt\<close>) of the accessors that can expose it.
\<close>

datatype StatusCode =
    kOk
  | kInvalidArgument
  | kNotSupported
  | kIoError
  | kTimeout
  | kClosed
  | kProtocolError

fun StatusCode_to_string :: "StatusCode \<Rightarrow> string" where
  "StatusCode_to_string kOk = ''Ok''"
| "StatusCode_to_string kInvalidArgument = ''Invalid argument''"
| "StatusCode_to_string kNotSupported = ''Not supported''"
| "StatusCode_to_string kIoError = ''I/O error''"
| "StatusCode_to_string kTimeout = ''Timeout''"
| "StatusCode_to_string kClosed = ''Closed''"
| "StatusCode_to_string kProtocolError = ''Protocol error''"

record Status =
  code :: StatusCode
  message :: string

definition Status_Ok :: Status where
  "Status_Ok = \<lparr>code = kOk, message = ''''\<rparr>"

definition invalid_argument :: "string \<Rightarrow> Status" where
  "invalid_argument m = \<lparr>code = kInvalidArgument, message = m\<rparr>"

definition not_supported :: "string \<Rightarrow> Status" where
  "not_supported m = \<lparr>code = kNotSupported, message = m\<rparr>"

definition io_error :: "string \<Rightarrow> Status" where
  "io_error m = \<lparr>code = kIoError, message = m\<rparr>"

definition timeout_status :: "string \<Rightarrow> Status" where
  "timeout_status m = \<lparr>code = kTimeout, message = m\<rparr>"

definition closed_status :: "string \<Rightarrow> Status" where
  "closed_status m = \<lparr>code = kClosed, message = m\<rparr>"

definition protocol_error :: "string \<Rightarrow> Status" where
  "protocol_error m = \<lparr>code = kProtocolError, message = m\<rparr>"

definition status_ok :: "Status \<Rightarrow> bool" where
  "status_ok s \<longleftrightarrow> code s = kOk"

definition Status_to_string :: "Status \<Rightarrow> string" where
  "Status_to_string s =
     (if status_ok s then ''Ok''
      else ''['' @ StatusCode_to_string (code s) @ ''] '' @ message s)"

record Exception =
  exn_code :: StatusCode
  exn_message :: string
  full_message :: string

definition mk_Exception :: "StatusCode \<Rightarrow> string \<Rightarrow> Exception" where
  "mk_Exception c m =
     \<lparr>exn_code = c, exn_message = m,
      full_message = ''['' @ StatusCode_to_string c @ ''] '' @ m\<rparr>"

definition Exception_of_Status :: "Status \<Rightarrow> Exception" where
  "Exception_of_Status s = mk_Exception (code s) (message s)"

text \<open>A call that may throw returns \<open>Inl\<close> of the exception.\<close>

definition throw_if_error :: "Status \<Rightarrow> Exception + unit" where
  "throw_if_error s = (if \<not> status_ok s then Inl (Exception_of_Status s) else Inr ())"

datatype 'a Result = ResVal 'a | ResErr Status

fun result_ok :: "'a Result \<Rightarrow> bool" where
  "result_ok (ResVal v) = True"
| "result_ok (ResErr s) = False"

fun result_status :: "'a Result \<Rightarrow> Status" where
  "result_status (ResVal v) = Status_Ok"
| "result_status (ResErr s) = s"

fun result_value :: "'a \<Rightarrow> 'a Result \<Rightarrow> 'a" where
  "result_value dflt (ResVal v) = v"
| "result_value dflt (ResErr s) = dflt"

text \<open>\<open>Result<void>\<close> is its status: without a status it is \<open>Ok\<close>.\<close>

definition void_default :: Status where
  "void_default = Status_Ok"

definition void_ok :: "Status \<Rightarrow> bool" where
  "void_ok r \<longleftrightarrow> status_ok r"

definition void_throw_if_error :: "Status \<Rightarrow> Exception + unit" where
  "void_throw_if_error r = throw_if_error r"

definition value_or_throw :: "'a \<Rightarrow> 'a Result \<Rightarrow> Exception + 'a" where
  "value_or_throw dflt r =
     (case throw_if_error (result_status r) of
        Inl e \<Rightarrow> Inl e
      | Inr _ \<Rightarrow> Inr (result_value dflt r))"

fun value_or :: "'a Result \<Rightarrow> 'a \<Rightarrow> 'a" where
  "value_or (ResVal v) u = v"
| "value_or (ResErr s) u = u"

lemmas status_ctor_defs =
  Status_Ok_def invalid_argument_def not_supported_def io_error_def timeout_status_def
  closed_status_def protocol_error_def

lemma code_ctors [simp]:
  "code Status_Ok = kOk"
  "code (invalid_argument m) = kInvalidArgument"
  "code (not_supported m) = kNotSupported"
  "code (io_error m) = kIoError"
  "code (timeout_status m) = kTimeout"
  "code (closed_status m) = kClosed"
  "code (protocol_error m) = kProtocolError"
  by (simp_all add: status_ctor_defs)

lemma status_ok_ctors [simp]:
  "status_ok Status_Ok"
  "\<not> status_ok (invalid_argument m)"
  "\<not> status_ok (not_supported m)"
  "\<not> status_ok (io_error m)"
  "\<not> status_ok (timeout_status m)"
  "\<not> status_ok (closed_status m)"
  "\<not> status_ok (protocol_error m)"
  by (simp_all add: status_ok_def)

lemma status_ok_code: "status_ok s \<Longrightarrow> code s = kOk"
  by (simp add: status_ok_def)

lemma throw_if_error_code:
  "throw_if_error s = Inl e \<Longrightarrow> exn_code e = code s \<and> exn_message e = message s"
  by (auto simp: throw_if_error_def Exception_of_Status_def mk_Exception_def split: if_splits)

lemma throw_if_error_iff: "(\<exists>e. throw_if_error s = Inl e) \<longleftrightarrow> code s \<noteq> kOk"
  by (auto simp: throw_if_error_def status_ok_def)

end
