(* ===== verification/Duct_Message.thy ===== *)
theory Duct_Message
  imports Duct_Status
begin

text \<open>
  \<^verbatim>\<open>include/duct/message.h\<close> and \<^verbatim>\<open>src/message.cc\<close>. A message owns a shared byte vector
  (\<open>backing\<close>, absent in a default-constructed message) and a length. The pointer \<open>data\<close> is
  the start of the backing vector in every constructor, so it carries no further state. No
  component of the library writes through \<open>data()\<close>, so sharing the vector between copies is
  not observable and a message is a value.
\<close>

record Message =
  backing :: "byte_seq option"
  msg_size :: nat

definition Message_default :: Message where
  "Message_default = \<lparr>backing = None, msg_size = 0\<rparr>"

text \<open>\<open>from_bytes data n\<close> allocates \<open>n\<close> zero bytes and copies \<open>n\<close> bytes over them.\<close>

definition from_bytes :: "byte_seq \<Rightarrow> nat \<Rightarrow> Message" where
  "from_bytes data n =
     (let vec = replicate n 0;
          vec' = (if n \<noteq> 0 then memcpy_at vec 0 (take n data) else vec)
      in \<lparr>backing = Some vec', msg_size = n\<rparr>)"

definition from_span :: "byte_seq \<Rightarrow> Message" where
  "from_span bytes = from_bytes bytes (length bytes)"

definition bytes_of_string :: "string \<Rightarrow> byte_seq" where
  "bytes_of_string s = map of_char s"

definition string_of_bytes :: "byte_seq \<Rightarrow> string" where
  "string_of_bytes bs = map (\<lambda>b. char_of (unat b)) bs"

definition from_string :: "string \<Rightarrow> Message" where
  "from_string s = from_bytes (bytes_of_string s) (length s)"

definition with_capacity :: "nat \<Rightarrow> Message" where
  "with_capacity capacity = \<lparr>backing = Some [], msg_size = 0\<rparr>"

definition msg_empty :: "Message \<Rightarrow> bool" where
  "msg_empty m \<longleftrightarrow> msg_size m = 0"

definition view :: "Message \<Rightarrow> byte_seq" where
  "view m = (case backing m of None \<Rightarrow> [] | Some v \<Rightarrow> take (msg_size m) v)"

definition as_string_view :: "Message \<Rightarrow> string" where
  "as_string_view m = string_of_bytes (view m)"

text \<open>\<open>copy_to\<close> returns the number of bytes copied and the destination buffer after the copy.\<close>

definition copy_to :: "Message \<Rightarrow> byte_seq \<Rightarrow> nat \<Rightarrow> nat \<times> byte_seq" where
  "copy_to m dest max_size =
     (let copy_size = min (msg_size m) max_size
      in (copy_size,
          if copy_size > 0 then memcpy_at dest 0 (take copy_size (view m)) else dest))"

definition msg_equals :: "Message \<Rightarrow> Message \<Rightarrow> bool" where
  "msg_equals a b \<longleftrightarrow> msg_size a = msg_size b \<and> (msg_size a = 0 \<or> view a = view b)"

text \<open>The invariant every constructor establishes: the length fits the backing vector.\<close>

definition wf_Message :: "Message \<Rightarrow> bool" where
  "wf_Message m \<longleftrightarrow>
     (case backing m of None \<Rightarrow> msg_size m = 0 | Some v \<Rightarrow> msg_size m \<le> length v)"

lemma length_view [simp]: "wf_Message m \<Longrightarrow> length (view m) = msg_size m"
  by (simp add: wf_Message_def view_def split: option.splits)

lemma from_bytes_simp:
  "n \<le> length data \<Longrightarrow>
   from_bytes data n = \<lparr>backing = Some (take n data), msg_size = n\<rparr>"
  by (auto simp: from_bytes_def memcpy_at_def Let_def)

lemma view_from_bytes [simp]: "n \<le> length data \<Longrightarrow> view (from_bytes data n) = take n data"
  by (simp add: from_bytes_simp view_def)

lemma msg_size_from_bytes [simp]: "msg_size (from_bytes data n) = n"
  by (simp add: from_bytes_def Let_def)

lemma wf_from_bytes [simp, intro]: "n \<le> length data \<Longrightarrow> wf_Message (from_bytes data n)"
  by (simp add: from_bytes_simp wf_Message_def)

lemma view_from_span [simp]: "view (from_span bs) = bs"
  by (simp add: from_span_def)

lemma msg_size_from_span [simp]: "msg_size (from_span bs) = length bs"
  by (simp add: from_span_def)

lemma wf_from_span [simp, intro]: "wf_Message (from_span bs)"
  by (simp add: from_span_def)

lemma length_bytes_of_string [simp]: "length (bytes_of_string s) = length s"
  by (simp add: bytes_of_string_def)

lemma unat_of_char [simp]: "unat (of_char c :: u8) = of_char c"
  by (subst of_nat_of_char [symmetric]) (simp add: unat_of_nat take_bit_eq_mod)

lemma bytes_of_string_Nil [simp]: "bytes_of_string [] = []"
  by (simp add: bytes_of_string_def)

lemma string_of_bytes_of_string [simp]: "string_of_bytes (bytes_of_string s) = s"
  by (induction s) (simp_all add: string_of_bytes_def bytes_of_string_def)

lemma wf_from_string [simp, intro]: "wf_Message (from_string s)"
  by (simp add: from_string_def)

lemma wf_with_capacity [simp, intro]: "wf_Message (with_capacity c)"
  by (simp add: with_capacity_def wf_Message_def)

lemma wf_Message_default [simp, intro]: "wf_Message Message_default"
  by (simp add: Message_default_def wf_Message_def)

lemma msg_equals_view:
  "wf_Message a \<Longrightarrow> wf_Message b \<Longrightarrow> msg_equals a b \<longleftrightarrow> view a = view b"
  by (metis length_0_conv length_view msg_equals_def)

text \<open>a message built from a string shows exactly that string again, for every string.\<close>

theorem message_string_roundtrip:
  "as_string_view (from_string s) = s \<and> msg_size (from_string s) = length s
   \<and> copy_to (from_string s) dest (length s) =
       (length s, bytes_of_string s @ drop (length s) dest)"
  by (auto simp: as_string_view_def from_string_def copy_to_def memcpy_at_def Let_def)

end
