(* ===== verification/Duct_Address.thy ===== *)
theory Duct_Address
  imports Duct_Status
begin

text \<open>
  Addresses: \<^verbatim>\<open>include/duct/protocol.h\<close> (schemes and protocol constants),
  \<^verbatim>\<open>include/duct/address.h\<close> and \<^verbatim>\<open>src/address.cc\<close> (the parser). The standard library
  functions the parser uses (\<open>find\<close>, \<open>rfind\<close>, \<open>from_chars\<close>, \<open>to_string\<close>) are modelled on
  strings; \<open>unsigned\<close> is 32 bits wide.
\<close>

section \<open>Standard library: searching and decimal numbers\<close>

fun find_sub :: "'a list \<Rightarrow> 'a list \<Rightarrow> nat option" where
  "find_sub pat [] = (if pat = [] then Some 0 else None)"
| "find_sub pat (c # s) =
     (if prefix pat (c # s) then Some 0 else map_option Suc (find_sub pat s))"

fun rfind_char :: "'a \<Rightarrow> 'a list \<Rightarrow> nat option" where
  "rfind_char c [] = None"
| "rfind_char c (x # xs) =
     (case rfind_char c xs of
        Some i \<Rightarrow> Some (Suc i)
      | None \<Rightarrow> if x = c then Some 0 else None)"

definition is_digit :: "char \<Rightarrow> bool" where
  "is_digit c \<longleftrightarrow> 48 \<le> (of_char c :: nat) \<and> (of_char c :: nat) \<le> 57"

definition digit_value :: "char \<Rightarrow> nat" where
  "digit_value c = of_char c - 48"

definition digits_value :: "string \<Rightarrow> nat" where
  "digits_value ds = foldl (\<lambda>acc c. 10 * acc + digit_value c) 0 ds"

text \<open>
  \<open>std::from_chars\<close> into an \<open>unsigned\<close>: the longest run of decimal digits at the front is
  consumed (no sign, no white space); the unconsumed rest is returned with the value.
\<close>

datatype from_chars_result = FcOk nat string | FcInvalid | FcOutOfRange string

definition from_chars_unsigned :: "string \<Rightarrow> from_chars_result" where
  "from_chars_unsigned s =
     (let ds = takeWhile is_digit s; rest = dropWhile is_digit s; v = digits_value ds
      in if ds = [] then FcInvalid
         else if v \<ge> 2 ^ 32 then FcOutOfRange rest
         else FcOk v rest)"

fun to_string_nat :: "nat \<Rightarrow> string" where
  "to_string_nat n =
     (if n < 10 then [char_of (48 + n)]
      else to_string_nat (n div 10) @ [char_of (48 + n mod 10)])"

declare to_string_nat.simps [simp del]

section \<open>\<^verbatim>\<open>protocol.h\<close>\<close>

definition kProtocolMagic :: u32 where
  "kProtocolMagic = 0x44554354"

definition kProtocolVersion :: u16 where
  "kProtocolVersion = 1"

datatype Scheme = Scheme_kUnknown | Scheme_kTcp | Scheme_kUds | Scheme_kShm | Scheme_kPipe

definition FrameFlags_kNone :: u32 where
  "FrameFlags_kNone = 0"

definition FrameFlags_kReliable :: u32 where
  "FrameFlags_kReliable = push_bit 0 1"

definition FrameFlags_kFrag :: u32 where
  "FrameFlags_kFrag = push_bit 4 1"

definition FrameFlags_or :: "u32 \<Rightarrow> u32 \<Rightarrow> u32" where
  "FrameFlags_or a b = a OR b"

section \<open>\<^verbatim>\<open>address.cc\<close>\<close>

record TcpAddress =
  host :: string
  port :: u16

record Address =
  scheme :: Scheme
  scheme_text :: string
  raw :: string
  tcp :: TcpAddress
  name :: string

definition Address_default :: Address where
  "Address_default =
     \<lparr>scheme = Scheme_kUnknown, scheme_text = '''', raw = '''',
      tcp = \<lparr>host = '''', port = 0\<rparr>, name = ''''\<rparr>"

definition parse_u16 :: "string \<Rightarrow> u16 option" where
  "parse_u16 s =
     (case from_chars_unsigned s of
        FcInvalid \<Rightarrow> None
      | FcOutOfRange rest \<Rightarrow> None
      | FcOk v rest \<Rightarrow> if rest \<noteq> [] \<or> v > 65535 then None else Some (of_nat v))"

definition scheme_of_text :: "string \<Rightarrow> Scheme" where
  "scheme_of_text t =
     (if t = ''tcp'' then Scheme_kTcp
      else if t = ''uds'' then Scheme_kUds
      else if t = ''shm'' then Scheme_kShm
      else if t = ''pipe'' then Scheme_kPipe
      else Scheme_kUnknown)"

definition parse :: "string \<Rightarrow> Address Result" where
  "parse s =
     (let a = Address_default\<lparr>raw := s\<rparr>;
          (a, sv) =
            (case find_sub ''://'' s of
               None \<Rightarrow> (a\<lparr>scheme := Scheme_kTcp, scheme_text := ''tcp''\<rparr>, s)
             | Some scheme_pos \<Rightarrow>
                 let t = take scheme_pos s
                 in (a\<lparr>scheme_text := t, scheme := scheme_of_text t\<rparr>, drop (scheme_pos + 3) s))
      in if scheme a = Scheme_kTcp then
           (case rfind_char CHR '':'' sv of
              None \<Rightarrow> ResErr (invalid_argument ''tcp address must be host:port'')
            | Some colon \<Rightarrow>
                let h = take colon sv;
                    h = (if h = [] then ''127.0.0.1'' else h)
                in (case parse_u16 (drop (colon + 1) sv) of
                      None \<Rightarrow> ResErr (invalid_argument ''invalid tcp port'')
                    | Some p \<Rightarrow> ResVal (a\<lparr>tcp := \<lparr>host = h, port = p\<rparr>\<rparr>)))
         else if scheme a = Scheme_kShm \<or> scheme a = Scheme_kPipe then
           (if sv = [] then
              ResErr (invalid_argument (scheme_text a @ '' address must be non-empty name''))
            else ResVal (a\<lparr>name := sv\<rparr>))
         else if scheme a = Scheme_kUds then
           (if sv = [] then ResErr (invalid_argument ''uds address must be non-empty path'')
            else ResVal (a\<lparr>name := sv\<rparr>))
         else ResErr (invalid_argument (''unknown scheme: '' @ scheme_text a)))"

section \<open>Facts about the library functions\<close>

lemma find_sub_append:
  assumes "\<And>i. i < length pre \<Longrightarrow> \<not> prefix pat (drop i (pre @ pat @ rest))"
  shows "find_sub pat (pre @ pat @ rest) = Some (length pre)"
  using assms
proof (induction pre)
  case Nil
  have "prefix pat (pat @ rest)" by simp
  then show ?case by (cases "pat @ rest") auto
next
  case (Cons c pre)
  have "\<not> prefix pat (c # pre @ pat @ rest)"
    using Cons.prems [of 0] by simp
  moreover have "find_sub pat (pre @ pat @ rest) = Some (length pre)"
    using Cons.prems [of "Suc _"] by (intro Cons.IH) simp
  ultimately show ?case by simp
qed

lemma find_sub_Some:
  "find_sub pat s = Some i \<Longrightarrow> i + length pat \<le> length s \<and> s = take i s @ pat @ drop (i + length pat) s"
proof (induction s arbitrary: i)
  case Nil
  then show ?case by (simp split: if_splits)
next
  case (Cons c s)
  show ?case
  proof (cases "prefix pat (c # s)")
    case True
    with Cons.prems have "i = 0" by simp
    with True show ?thesis by (auto simp: prefix_def dest: arg_cong [where f = length])
  next
    case False
    with Cons.prems obtain j where "i = Suc j" and "find_sub pat s = Some j" by auto
    with Cons.IH [of j] show ?thesis by simp
  qed
qed

lemma rfind_char_none [simp]: "rfind_char c xs = None \<longleftrightarrow> c \<notin> set xs"
  by (induction xs) (auto split: option.splits)

lemma rfind_char_last: "c \<notin> set ys \<Longrightarrow> rfind_char c (xs @ c # ys) = Some (length xs)"
  by (induction xs) (simp_all split: option.split)

lemma rfind_char_Some:
  "rfind_char c xs = Some i \<Longrightarrow>
   xs = take i xs @ c # drop (i + 1) xs \<and> c \<notin> set (drop (i + 1) xs)"
proof (induction xs arbitrary: i)
  case Nil
  then show ?case by simp
next
  case (Cons x xs)
  then show ?case by (cases "rfind_char c xs") (auto split: if_splits)
qed

lemma is_digit_char_of: "(n::nat) < 10 \<Longrightarrow> is_digit (char_of (48 + n))"
  by (simp add: is_digit_def)

lemma digit_value_char_of: "n < 10 \<Longrightarrow> digit_value (char_of (48 + n)) = n"
  by (simp add: digit_value_def)

lemma digits_value_snoc: "digits_value (ds @ [c]) = 10 * digits_value ds + digit_value c"
  by (simp add: digits_value_def)

lemma to_string_nat_props:
  "to_string_nat n \<noteq> [] \<and> (\<forall>c\<in>set (to_string_nat n). is_digit c)
   \<and> digits_value (to_string_nat n) = n"
proof (induction n rule: to_string_nat.induct)
  case (1 n)
  show ?case
  proof (cases "n < 10")
    case True
    then show ?thesis
      by (simp add: to_string_nat.simps [of n] is_digit_char_of digit_value_char_of digits_value_def)
  next
    case False
    with 1 have IH: "to_string_nat (n div 10) \<noteq> []"
      "\<forall>c\<in>set (to_string_nat (n div 10)). is_digit c"
      "digits_value (to_string_nat (n div 10)) = n div 10" by simp_all
    have "is_digit (char_of (48 + n mod 10))" "digit_value (char_of (48 + n mod 10)) = n mod 10"
      by (rule is_digit_char_of digit_value_char_of, simp)+
    with IH False show ?thesis
      by (simp add: to_string_nat.simps [of n] digits_value_snoc)
  qed
qed

lemma from_chars_digits:
  assumes "ds \<noteq> []" and "\<forall>c\<in>set ds. is_digit c" and "digits_value ds < 2 ^ 32"
  shows "from_chars_unsigned ds = FcOk (digits_value ds) []"
  using assms by (simp add: from_chars_unsigned_def Let_def takeWhile_eq_all_conv [THEN iffD2]
      dropWhile_eq_Nil_conv [THEN iffD2])

lemma parse_u16_to_string: "parse_u16 (to_string_nat (unat p)) = Some p"
proof -
  have "unat p < 65536" using unat_u16 [of p] by simp
  then show ?thesis
    using to_string_nat_props [of "unat p"]
    by (simp add: parse_u16_def from_chars_digits)
qed

lemma parse_u16_Some:
  "parse_u16 s = Some p \<longleftrightarrow>
   s \<noteq> [] \<and> (\<forall>c\<in>set s. is_digit c) \<and> digits_value s \<le> 65535 \<and> p = of_nat (digits_value s)"
proof
  assume *: "parse_u16 s = Some p"
  then have "dropWhile is_digit s = []"
    by (auto simp: parse_u16_def from_chars_unsigned_def Let_def split: if_splits)
  then have "\<forall>c\<in>set s. is_digit c" and "takeWhile is_digit s = s"
    by (simp_all add: takeWhile_eq_all_conv)
  with * show "s \<noteq> [] \<and> (\<forall>c\<in>set s. is_digit c) \<and> digits_value s \<le> 65535 \<and> p = of_nat (digits_value s)"
    by (auto simp: parse_u16_def from_chars_unsigned_def Let_def split: if_splits)
next
  assume "s \<noteq> [] \<and> (\<forall>c\<in>set s. is_digit c) \<and> digits_value s \<le> 65535 \<and> p = of_nat (digits_value s)"
  then show "parse_u16 s = Some p" by (simp add: parse_u16_def from_chars_digits)
qed

lemma colon_not_digit [simp]: "\<not> is_digit CHR '':''"
  by (simp add: is_digit_def)

lemma colon_notin_digits: "\<forall>c\<in>set ds. is_digit c \<Longrightarrow> CHR '':'' \<notin> set ds"
  by (meson colon_not_digit)

lemma find_sub_scheme:
  "t \<in> {''tcp'', ''uds'', ''shm'', ''pipe''} \<Longrightarrow>
   find_sub ''://'' (t @ ''://'' @ rest) = Some (length t)"
  by auto

section \<open>What a successful parse returns\<close>

lemma parse_tcp_text:
  assumes "ds \<noteq> []" and "\<forall>c\<in>set ds. is_digit c" and "digits_value ds \<le> 65535"
  shows "parse (''tcp://'' @ h @ '':'' @ ds) =
    ResVal \<lparr>scheme = Scheme_kTcp, scheme_text = ''tcp'', raw = ''tcp://'' @ h @ '':'' @ ds,
            tcp = \<lparr>host = (if h = [] then ''127.0.0.1'' else h),
                   port = of_nat (digits_value ds)\<rparr>,
            name = ''''\<rparr>"
proof -
  have "find_sub ''://'' (''tcp://'' @ h @ '':'' @ ds) = Some 3"
    using find_sub_scheme [of "''tcp''" "h @ '':'' @ ds"] by simp
  moreover have "rfind_char CHR '':'' (h @ CHR '':'' # ds) = Some (length h)"
    using assms(2) by (intro rfind_char_last colon_notin_digits)
  moreover have "parse_u16 ds = Some (of_nat (digits_value ds))"
    using assms by (simp add: parse_u16_Some)
  ultimately show ?thesis
    by (simp add: parse_def Let_def scheme_of_text_def Address_default_def)
qed

lemma parse_named_text:
  assumes "t = ''shm'' \<or> t = ''pipe'' \<or> t = ''uds''" and "nm \<noteq> []"
  shows "parse (t @ ''://'' @ nm) =
    ResVal \<lparr>scheme = scheme_of_text t, scheme_text = t, raw = t @ ''://'' @ nm,
            tcp = \<lparr>host = '''', port = 0\<rparr>, name = nm\<rparr>"
proof -
  have "find_sub ''://'' (t @ ''://'' @ nm) = Some (length t)"
    using assms(1) by (intro find_sub_scheme) auto
  with assms show ?thesis
    by (auto simp: parse_def Let_def scheme_of_text_def Address_default_def)
qed

definition valid_Address :: "Address \<Rightarrow> bool" where
  "valid_Address a \<longleftrightarrow>
     (case scheme a of
        Scheme_kUnknown \<Rightarrow> False
      | Scheme_kTcp \<Rightarrow> host (tcp a) \<noteq> [] \<and> name a = [] \<and> scheme_text a = ''tcp''
      | _ \<Rightarrow> name a \<noteq> [] \<and> scheme_of_text (scheme_text a) = scheme a
             \<and> raw a = scheme_text a @ ''://'' @ name a)"

text \<open>rendering a TCP host and port as the library's builders do and parsing the text
  gives the same host (the loopback address for an empty host) and the same port back.\<close>

theorem parse_tcp_roundtrip:
  "\<exists>a. parse (''tcp://'' @ h @ '':'' @ to_string_nat (unat p)) = ResVal a
     \<and> scheme a = Scheme_kTcp \<and> port (tcp a) = p
     \<and> host (tcp a) = (if h = [] then ''127.0.0.1'' else h)"
proof -
  have "digits_value (to_string_nat (unat p)) \<le> 65535"
    using to_string_nat_props [of "unat p"] unat_u16 [of p] by simp
  then show ?thesis
    using parse_tcp_text [of "to_string_nat (unat p)" h] to_string_nat_props [of "unat p"] by simp
qed

lemma tcp_part_sound:
  assumes "rfind_char CHR '':'' sv = Some i" and "parse_u16 (drop (i + 1) sv) = Some p"
  obtains h ds where "take i sv = h" and "sv = h @ '':'' @ ds" and "ds \<noteq> []"
    and "\<forall>c\<in>set ds. is_digit c" and "unat p = digits_value ds"
proof
  show "sv = take i sv @ '':'' @ drop (i + 1) sv"
    using rfind_char_Some [OF assms(1)] by simp
  show "unat p = digits_value (drop (i + 1) sv)"
    using assms(2) by (simp add: parse_u16_Some unat_of_nat_small)
qed (use assms(2) in \<open>simp_all add: parse_u16_Some\<close>)

text \<open>C15: every address the parser accepts is well formed: its scheme is known, a TCP
  address has a host and a port that is the decimal text after the last colon, any other has a
  non-empty name, and the input was \<open>scheme://name\<close> (or \<open>host:port\<close> for TCP).\<close>

theorem parse_sound:
  assumes "parse s = ResVal a"
  shows "valid_Address a \<and> raw a = s \<and>
    (scheme a = Scheme_kTcp \<longrightarrow>
      (\<exists>h ds. (s = ''tcp://'' @ h @ '':'' @ ds \<or> find_sub ''://'' s = None \<and> s = h @ '':'' @ ds)
            \<and> ds \<noteq> [] \<and> (\<forall>c\<in>set ds. is_digit c) \<and> unat (port (tcp a)) = digits_value ds
            \<and> host (tcp a) = (if h = [] then ''127.0.0.1'' else h)))"
proof (cases "find_sub ''://'' s")
  case None
  with assms obtain i p where i: "rfind_char CHR '':'' s = Some i"
    and p: "parse_u16 (drop (i + 1) s) = Some p"
    and a: "a = Address_default\<lparr>raw := s, scheme := Scheme_kTcp, scheme_text := ''tcp'',
      tcp := \<lparr>host = (if take i s = [] then ''127.0.0.1'' else take i s), port = p\<rparr>\<rparr>"
    by (auto simp: parse_def Let_def Address_default_def split: option.splits)
  from i p obtain h ds where "take i s = h" "s = h @ '':'' @ ds" "ds \<noteq> []"
    "\<forall>c\<in>set ds. is_digit c" "unat p = digits_value ds"
    by (rule tcp_part_sound)
  with None show ?thesis unfolding a
    by (auto simp: valid_Address_def Address_default_def)
next
  case (Some k)
  define sv where "sv = drop (k + 3) s"
  have s: "s = take k s @ ''://'' @ sv"
    using find_sub_Some [OF Some] by (simp add: sv_def eval_nat_numeral)
  show ?thesis
  proof (cases "take k s = ''tcp''")
    case True
    with assms Some obtain i p where i: "rfind_char CHR '':'' sv = Some i"
      and p: "parse_u16 (drop (i + 1) sv) = Some p"
      and a: "a = Address_default\<lparr>raw := s, scheme := Scheme_kTcp, scheme_text := ''tcp'',
        tcp := \<lparr>host = (if take i sv = [] then ''127.0.0.1'' else take i sv), port = p\<rparr>\<rparr>"
      by (auto simp: parse_def Let_def Address_default_def scheme_of_text_def sv_def
          split: option.splits)
    from i p obtain h ds where "take i sv = h" "sv = h @ '':'' @ ds" "ds \<noteq> []"
      "\<forall>c\<in>set ds. is_digit c" "unat p = digits_value ds"
      by (rule tcp_part_sound)
    moreover have "s = ''tcp://'' @ sv" using s True by simp
    ultimately show ?thesis unfolding a
      by (auto simp: valid_Address_def Address_default_def)
  next
    case False
    with Some assms have "sv \<noteq> []" and "scheme a \<noteq> Scheme_kUnknown" "scheme a \<noteq> Scheme_kTcp"
      and "a = Address_default\<lparr>raw := s, scheme_text := take k s,
             scheme := scheme_of_text (take k s), name := sv\<rparr>"
      by (auto simp: parse_def Let_def Address_default_def scheme_of_text_def sv_def
          split: if_splits)
    with s show ?thesis
      by (auto simp: valid_Address_def Address_default_def split: Scheme.splits)
  qed
qed

theorem parse_sound_witness:
  "parse ''tcp://h:80'' =
     ResVal \<lparr>scheme = Scheme_kTcp, scheme_text = ''tcp'', raw = ''tcp://h:80'',
             tcp = \<lparr>host = ''h'', port = 80\<rparr>, name = ''''\<rparr>
   \<and> raw \<lparr>scheme = Scheme_kTcp, scheme_text = ''tcp'', raw = ''tcp://h:80'',
           tcp = \<lparr>host = ''h'', port = 80\<rparr>, name = ''''\<rparr> = ''tcp://h:80''"
proof -
  have "parse ''tcp://h:80'' =
     ResVal \<lparr>scheme = Scheme_kTcp, scheme_text = ''tcp'', raw = ''tcp://h:80'',
             tcp = \<lparr>host = ''h'', port = 80\<rparr>, name = ''''\<rparr>"
    using parse_tcp_text [of "''80''" "''h''"]
    by (simp add: is_digit_def digits_value_def digit_value_def)
  then show ?thesis using parse_sound by blast
qed

end
