(* ===== verification/Duct_Options.thy ===== *)
theory Duct_Options
  imports Complex_Main Duct_Message Duct_Address
begin

text \<open>
  The public option structures of \<^verbatim>\<open>include/duct/duct.h\<close> with their default values. Sizes are
  \<open>std::size_t\<close> (64 bits), durations are counts of milliseconds.
\<close>

datatype BackpressurePolicy = kBlock | kDropNew | kDropOld | kFailFast

datatype Reliability = kAtMostOnce | kAtLeastOnce

record ReconnectPolicy =
  enabled :: bool
  initial_delay :: millis
  max_delay :: millis
  backoff_multiplier :: rat
  max_attempts :: int
  heartbeat_interval :: millis

definition ReconnectPolicy_default :: ReconnectPolicy where
  "ReconnectPolicy_default =
     \<lparr>enabled = False, initial_delay = 100, max_delay = 30000, backoff_multiplier = 2,
      max_attempts = 0, heartbeat_interval = 5000\<rparr>"

datatype ConnectionState =
    kConnecting
  | kConnected
  | kDisconnected
  | kReconnecting
  | kStateClosed

record QosOptions =
  snd_hwm_bytes :: u64
  rcv_hwm_bytes :: u64
  backpressure :: BackpressurePolicy
  qos_ttl :: millis
  linger :: millis
  reliability :: Reliability

definition QosOptions_default :: QosOptions where
  "QosOptions_default =
     \<lparr>snd_hwm_bytes = 4 * 1024 * 1024, rcv_hwm_bytes = 4 * 1024 * 1024,
      backpressure = kBlock, qos_ttl = 0, linger = 0, reliability = kAtMostOnce\<rparr>"

record SendOptions =
  snd_timeout :: millis

record RecvOptions =
  rcv_timeout :: millis

definition SendOptions_default :: SendOptions where
  "SendOptions_default = \<lparr>snd_timeout = 0\<rparr>"

definition RecvOptions_default :: RecvOptions where
  "RecvOptions_default = \<lparr>rcv_timeout = 0\<rparr>"

text \<open>The state callback is a \<open>std::function\<close>; only whether it is set matters to the model.\<close>

record DialOptions =
  dial_timeout :: millis
  dial_qos :: QosOptions
  reconnect :: ReconnectPolicy
  on_state_change :: bool

definition DialOptions_default :: DialOptions where
  "DialOptions_default =
     \<lparr>dial_timeout = 0, dial_qos = QosOptions_default, reconnect = ReconnectPolicy_default,
      on_state_change = False\<rparr>"

record ListenOptions =
  listen_qos :: QosOptions
  backlog :: int

definition ListenOptions_default :: ListenOptions where
  "ListenOptions_default = \<lparr>listen_qos = QosOptions_default, backlog = 128\<rparr>"

text \<open>\<open>std::chrono\<close> converts milliseconds to the nanoseconds of \<open>steady_clock\<close>.\<close>

definition ms_to_ns :: "millis \<Rightarrow> int" where
  "ms_to_ns d = d * 1000000"

text \<open>Sizes as the code computes them: \<open>msg.size()\<close> in a \<open>size_t\<close>.\<close>

definition size_u64 :: "Message \<Rightarrow> u64" where
  "size_u64 m = of_nat (msg_size m)"

text \<open>
  The exact number of bytes in a list of messages, and what the modular counters of the queues
  say about it as long as it is representable.
\<close>

definition msg_bytes :: "Message list \<Rightarrow> nat" where
  "msg_bytes ms = sum_list (map msg_size ms)"

lemma msg_bytes_simps [simp]:
  "msg_bytes [] = 0" "msg_bytes (m # ms) = msg_size m + msg_bytes ms"
  "msg_bytes (ms @ ms') = msg_bytes ms + msg_bytes ms'"
  by (simp_all add: msg_bytes_def)

lemma unat_of_nat_msg_bytes:
  "msg_bytes ms < 2 ^ 64 \<Longrightarrow> unat (of_nat (msg_bytes ms) :: u64) = msg_bytes ms"
  by (simp add: unat_of_nat_small)

lemma msg_bytes_subseq: "subseq ms ms' \<Longrightarrow> msg_bytes ms \<le> msg_bytes ms'"
  by (induction rule: list_emb.induct) auto

end
