(* ===== verification/Duct_Fifo.thy ===== *)
theory Duct_Fifo
  imports Duct_Prelude
begin

text \<open>
  The contract the library's queues share (the message queue, the shared-memory rings, the
  channel of the asynchronous API): an accepted element goes to the back, a removal takes the
  front. What a client may rely on, for any interleaving of insertions and removals, is proved
  once from the contract.
\<close>

locale fifo =
  fixes invar :: "'q \<Rightarrow> bool"
    and contents :: "'q \<Rightarrow> 'a list"
    and enq :: "'a \<Rightarrow> 'q \<Rightarrow> 'q option"
    and deq :: "'q \<Rightarrow> ('a \<times> 'q) option"
  assumes enq_back: "invar q \<Longrightarrow> enq x q = Some q' \<Longrightarrow> contents q' = contents q @ [x]"
    and enq_invar: "invar q \<Longrightarrow> enq x q = Some q' \<Longrightarrow> invar q'"
    and deq_front: "invar q \<Longrightarrow> deq q = Some (x, q') \<Longrightarrow> contents q = x # contents q'"
    and deq_invar: "invar q \<Longrightarrow> deq q = Some (x, q') \<Longrightarrow> invar q'"
    and deq_none: "invar q \<Longrightarrow> deq q = None \<longleftrightarrow> contents q = []"

datatype 'a fifo_op = Enq 'a | Deq

text \<open>
  A run: what was accepted, what was delivered, and the queue at the end. A refused insertion
  and a removal from the empty queue leave the queue as it is.
\<close>

fun fifo_run ::
  "('a \<Rightarrow> 'q \<Rightarrow> 'q option) \<Rightarrow> ('q \<Rightarrow> ('a \<times> 'q) option) \<Rightarrow> 'a fifo_op list \<Rightarrow> 'q
     \<Rightarrow> 'a list \<times> 'a list \<times> 'q" where
  "fifo_run enq deq [] q = ([], [], q)"
| "fifo_run enq deq (Enq x # ops) q =
     (case enq x q of
        None \<Rightarrow> fifo_run enq deq ops q
      | Some q' \<Rightarrow> (case fifo_run enq deq ops q' of (acc, del, q'') \<Rightarrow> (x # acc, del, q'')))"
| "fifo_run enq deq (Deq # ops) q =
     (case deq q of
        None \<Rightarrow> fifo_run enq deq ops q
      | Some (x, q') \<Rightarrow> (case fifo_run enq deq ops q' of (acc, del, q'') \<Rightarrow> (acc, x # del, q'')))"

context fifo
begin

text \<open>Nothing is lost, duplicated or reordered.\<close>

lemma run_conserves:
  "invar q \<Longrightarrow> fifo_run enq deq ops q = (acc, del, q') \<Longrightarrow>
   invar q' \<and> del @ contents q' = contents q @ acc"
proof (induction ops arbitrary: q acc del)
  case Nil
  then show ?case by simp
next
  case (Cons x ops)
  show ?case
  proof (cases x)
    case (Enq a)
    show ?thesis
    proof (cases "enq a q")
      case None
      with Enq Cons show ?thesis by simp
    next
      case (Some q1)
      with Enq Cons.prems obtain acc' where "acc = a # acc'"
        "fifo_run enq deq ops q1 = (acc', del, q')" by (auto split: prod.splits)
      with Cons.IH [of q1 acc' del] Cons.prems(1) Some enq_back enq_invar show ?thesis by simp
    qed
  next
    case Deq
    show ?thesis
    proof (cases "deq q")
      case None
      with Deq Cons show ?thesis by simp
    next
      case (Some p)
      then obtain a q1 where d: "deq q = Some (a, q1)" by (cases p) simp
      with Deq Cons.prems obtain del' where "del = a # del'"
        "fifo_run enq deq ops q1 = (acc, del', q')" by (auto split: prod.splits)
      with Cons.IH [of q1 acc del'] Cons.prems(1) d deq_front deq_invar show ?thesis by simp
    qed
  qed
qed

end

end
