(* ===== verification/Duct_Queue.thy ===== *)
theory Duct_Queue
  imports Duct_Options Duct_Fifo
begin

text \<open>
  \<^verbatim>\<open>include/duct/queue.h\<close> and \<^verbatim>\<open>src/queue.cc\<close>: the message queue with a high water mark, a
  backpressure policy and a message lifetime. Every method runs under one mutex, so a method
  (or, for the two that wait on a condition variable, each part between waits) is one atomic
  function of the queue. It returns its result, the new queue and the notifications it issued;
  the result \<open>None\<close> means the caller is now waiting. The current time is an argument.
\<close>

record QueuedMessage =
  qm_msg :: Message
  enqueue_time :: time_point
  deadline :: time_point

record MessageQueue =
  queue :: "QueuedMessage list"
  total_bytes :: u64
  queue_closed :: bool
  hwm_bytes :: u64
  policy :: BackpressurePolicy
  ttl :: millis

datatype notify = NotifyOneFull | NotifyAllFull | NotifyOneEmpty | NotifyAllEmpty

type_synonym 'r queue_op = "'r option \<times> MessageQueue \<times> notify list"

definition mk_MessageQueue :: "u64 \<Rightarrow> BackpressurePolicy \<Rightarrow> millis \<Rightarrow> MessageQueue" where
  "mk_MessageQueue hwm pol t =
     \<lparr>queue = [], total_bytes = 0, queue_closed = False, hwm_bytes = hwm, policy = pol, ttl = t\<rparr>"

definition has_space_unlocked :: "MessageQueue \<Rightarrow> bool" where
  "has_space_unlocked q = (if hwm_bytes q = 0 then True else total_bytes q < hwm_bytes q)"

definition drop_oldest_unlocked :: "MessageQueue \<Rightarrow> MessageQueue" where
  "drop_oldest_unlocked q =
     (case queue q of
        [] \<Rightarrow> q
      | m # rest \<Rightarrow> q\<lparr>total_bytes := total_bytes q - size_u64 (qm_msg m), queue := rest\<rparr>)"

text \<open>\<^verbatim>\<open>while (!has_space_unlocked() && !queue_.empty()) drop_oldest_unlocked();\<close>\<close>

function drop_while_full :: "MessageQueue \<Rightarrow> MessageQueue" where
  "drop_while_full q =
     (if \<not> has_space_unlocked q \<and> queue q \<noteq> [] then drop_while_full (drop_oldest_unlocked q)
      else q)"
  by pat_completeness auto
termination
  by (relation "measure (\<lambda>q. length (queue q))")
    (auto simp: drop_oldest_unlocked_def split: list.splits)

declare drop_while_full.simps [simp del]

text \<open>The tail of \<open>push\<close>: append the message and wake one consumer.\<close>

definition enqueue :: "time_point \<Rightarrow> Message \<Rightarrow> MessageQueue \<Rightarrow> Status queue_op" where
  "enqueue now msg q =
     (let qm = \<lparr>qm_msg = msg, enqueue_time = now,
                deadline = (if ttl q > 0 then now + ms_to_ns (ttl q) else 0)\<rparr>
      in (Some Status_Ok,
          q\<lparr>queue := queue q @ [qm], total_bytes := total_bytes q + size_u64 msg\<rparr>,
          [NotifyOneEmpty]))"

text \<open>The predicate of the \<open>kBlock\<close> wait, and what \<open>push\<close> does once it holds.\<close>

definition push_pred :: "Message \<Rightarrow> MessageQueue \<Rightarrow> bool" where
  "push_pred msg q \<longleftrightarrow> queue_closed q \<or> has_space_unlocked q \<or> hwm_bytes q = 0
     \<or> total_bytes q + size_u64 msg \<le> hwm_bytes q"

definition push_after_wait :: "time_point \<Rightarrow> Message \<Rightarrow> MessageQueue \<Rightarrow> Status queue_op" where
  "push_after_wait now msg q =
     (if queue_closed q then (Some (closed_status ''queue closed''), q, []) else enqueue now msg q)"

definition push :: "time_point \<Rightarrow> Message \<Rightarrow> MessageQueue \<Rightarrow> Status queue_op" where
  "push now msg q =
     (if queue_closed q then (Some (closed_status ''queue closed''), q, [])
      else if \<not> has_space_unlocked q
              \<or> (total_bytes q + size_u64 msg > hwm_bytes q \<and> hwm_bytes q > 0)
      then (case policy q of
              kBlock \<Rightarrow>
                if push_pred msg q then push_after_wait now msg q else (None, q, [])
            | kDropNew \<Rightarrow> (Some Status_Ok, q, [])
            | kDropOld \<Rightarrow> enqueue now msg (drop_while_full q)
            | kFailFast \<Rightarrow> (Some (io_error ''queue at high water mark (EAGAIN)''), q, []))
      else enqueue now msg q)"

text \<open>A waiting \<open>push\<close> that wakes up, and one whose timeout has passed.\<close>

definition push_wake :: "time_point \<Rightarrow> Message \<Rightarrow> MessageQueue \<Rightarrow> Status queue_op" where
  "push_wake now msg q =
     (if push_pred msg q then push_after_wait now msg q else (None, q, []))"

definition push_expire :: "time_point \<Rightarrow> Message \<Rightarrow> MessageQueue \<Rightarrow> Status queue_op" where
  "push_expire now msg q =
     (if push_pred msg q then push_after_wait now msg q
      else (Some (timeout_status ''push timed out waiting for queue space''), q, []))"

definition expired :: "time_point \<Rightarrow> QueuedMessage \<Rightarrow> bool" where
  "expired now m \<longleftrightarrow> deadline m \<noteq> 0 \<and> now > deadline m"

text \<open>
  The loop that skips expired messages at the front; \<open>notes\<close> is what it notifies per message
  (\<open>pop\<close> wakes a producer each time, \<open>try_pop\<close> does not).
\<close>

fun skip_expired ::
  "time_point \<Rightarrow> notify list \<Rightarrow> QueuedMessage list \<Rightarrow> u64 \<Rightarrow> QueuedMessage list \<times> u64 \<times> notify list"
where
  "skip_expired now notes [] tot = ([], tot, [])"
| "skip_expired now notes (m # ms) tot =
     (if expired now m then
        (let (ms', tot', ns) = skip_expired now notes ms (tot - size_u64 (qm_msg m))
         in (ms', tot', notes @ ns))
      else (m # ms, tot, []))"

text \<open>The part of \<open>pop\<close> after its wait returned true.\<close>

definition pop_after_wait :: "time_point \<Rightarrow> MessageQueue \<Rightarrow> Message Result queue_op" where
  "pop_after_wait now q =
     (if queue q = [] then
        (if queue_closed q then (Some (ResErr (closed_status ''queue closed'')), q, [])
         else (Some (ResErr (timeout_status ''queue empty'')), q, []))
      else
        (case skip_expired now [NotifyOneFull] (queue q) (total_bytes q) of
           (ms, tot, ns) \<Rightarrow>
             (case ms of
                [] \<Rightarrow>
                  (Some (ResErr (if queue_closed q then closed_status ''queue closed''
                                 else timeout_status ''all messages expired'')),
                   q\<lparr>queue := [], total_bytes := tot\<rparr>, ns)
              | m # rest \<Rightarrow>
                  (Some (ResVal (qm_msg m)),
                   q\<lparr>queue := rest, total_bytes := tot - size_u64 (qm_msg m)\<rparr>,
                   ns @ [NotifyOneFull]))))"

definition pop_pred :: "MessageQueue \<Rightarrow> bool" where
  "pop_pred q \<longleftrightarrow> queue_closed q \<or> queue q \<noteq> []"

definition pop :: "time_point \<Rightarrow> MessageQueue \<Rightarrow> Message Result queue_op" where
  "pop now q = (if pop_pred q then pop_after_wait now q else (None, q, []))"

definition pop_expire :: "time_point \<Rightarrow> MessageQueue \<Rightarrow> Message Result queue_op" where
  "pop_expire now q =
     (if pop_pred q then pop_after_wait now q
      else (Some (ResErr (timeout_status ''pop timed out waiting for message'')), q, []))"

definition try_pop :: "time_point \<Rightarrow> MessageQueue \<Rightarrow> Message option \<times> MessageQueue \<times> notify list" where
  "try_pop now q =
     (if queue q = [] then (None, q, [])
      else case skip_expired now [] (queue q) (total_bytes q) of
        (ms, tot, ns) \<Rightarrow>
          (case ms of
             [] \<Rightarrow> (None, q\<lparr>queue := [], total_bytes := tot\<rparr>, ns)
           | m # rest \<Rightarrow>
               (Some (qm_msg m),
                q\<lparr>queue := rest, total_bytes := tot - size_u64 (qm_msg m)\<rparr>,
                ns @ [NotifyOneFull])))"

definition size_bytes :: "MessageQueue \<Rightarrow> u64" where
  "size_bytes q = total_bytes q"

definition size_msgs :: "MessageQueue \<Rightarrow> nat" where
  "size_msgs q = length (queue q)"

definition at_hwm :: "MessageQueue \<Rightarrow> bool" where
  "at_hwm q \<longleftrightarrow> hwm_bytes q > 0 \<and> total_bytes q \<ge> hwm_bytes q"

definition close :: "MessageQueue \<Rightarrow> MessageQueue \<times> notify list" where
  "close q = (q\<lparr>queue_closed := True\<rparr>, [NotifyAllFull, NotifyAllEmpty])"

definition is_closed :: "MessageQueue \<Rightarrow> bool" where
  "is_closed q = queue_closed q"

text \<open>\<open>purge_expired\<close> walks the whole deque and erases every expired message.\<close>

fun purge_loop ::
  "time_point \<Rightarrow> QueuedMessage list \<Rightarrow> u64 \<Rightarrow> nat \<Rightarrow> QueuedMessage list \<times> u64 \<times> nat" where
  "purge_loop now [] tot purged = ([], tot, purged)"
| "purge_loop now (m # ms) tot purged =
     (if expired now m then purge_loop now ms (tot - size_u64 (qm_msg m)) (Suc purged)
      else (case purge_loop now ms tot purged of
              (ms', tot', purged') \<Rightarrow> (m # ms', tot', purged')))"

definition purge_expired :: "time_point \<Rightarrow> MessageQueue \<Rightarrow> nat \<times> MessageQueue \<times> notify list" where
  "purge_expired now q =
     (if ttl q = 0 then (0, q, [])
      else case purge_loop now (queue q) (total_bytes q) 0 of
        (ms, tot, purged) \<Rightarrow>
          (purged, q\<lparr>queue := ms, total_bytes := tot\<rparr>,
           if purged > 0 then [NotifyAllFull] else []))"

section \<open>What the loops compute\<close>

definition queued :: "MessageQueue \<Rightarrow> Message list" where
  "queued q = map qm_msg (queue q)"

text \<open>The accounting invariant: the byte counter is the sum of the queued sizes, modulo \<open>2 ^ 64\<close>.\<close>

definition queue_inv :: "MessageQueue \<Rightarrow> bool" where
  "queue_inv q \<longleftrightarrow> total_bytes q = of_nat (msg_bytes (queued q))"

lemma queued_simps [simp]:
  "queued (q\<lparr>queue := ms\<rparr>) = map qm_msg ms" "queued (q\<lparr>total_bytes := t\<rparr>) = queued q"
  "queued (q\<lparr>queue_closed := c\<rparr>) = queued q"
  by (simp_all add: queued_def)

lemma skip_expired_eq:
  "skip_expired now notes ms tot =
     (dropWhile (expired now) ms,
      tot - of_nat (msg_bytes (map qm_msg (takeWhile (expired now) ms))),
      concat (map (\<lambda>_. notes) (takeWhile (expired now) ms)))"
  by (induction ms arbitrary: tot) (auto simp: size_u64_def algebra_simps split: prod.splits)

lemma purge_loop_eq:
  "purge_loop now ms tot n =
     (filter (\<lambda>m. \<not> expired now m) ms,
      tot - of_nat (msg_bytes (map qm_msg (filter (expired now) ms))),
      n + length (filter (expired now) ms))"
  by (induction ms arbitrary: tot n)
    (auto simp: size_u64_def algebra_simps split: prod.splits)

lemma drop_while_full_frame [simp]:
  "queue_closed (drop_while_full q) = queue_closed q" "hwm_bytes (drop_while_full q) = hwm_bytes q"
  "policy (drop_while_full q) = policy q" "ttl (drop_while_full q) = ttl q"
  by (induction q rule: drop_while_full.induct; subst drop_while_full.simps;
      simp add: drop_oldest_unlocked_def split: list.splits)+

lemma drop_while_full_suffix: "\<exists>k. queue (drop_while_full q) = drop k (queue q)"
proof (induction q rule: drop_while_full.induct)
  case (1 q)
  show ?case
  proof (cases "\<not> has_space_unlocked q \<and> queue q \<noteq> []")
    case True
    with 1 obtain k where "queue (drop_while_full (drop_oldest_unlocked q)) =
        drop k (queue (drop_oldest_unlocked q))" by auto
    with True show ?thesis
      by (intro exI [of _ "Suc k"])
        (auto simp: drop_while_full.simps [of q] drop_oldest_unlocked_def split: list.splits)
  next
    case False
    then show ?thesis
      by (intro exI [of _ 0]) (auto simp: drop_while_full.simps [of q])
  qed
qed

lemma drop_oldest_inv: "queue_inv q \<Longrightarrow> queue_inv (drop_oldest_unlocked q)"
  by (auto simp: queue_inv_def queued_def drop_oldest_unlocked_def size_u64_def split: list.splits)

lemma drop_while_full_inv: "queue_inv q \<Longrightarrow> queue_inv (drop_while_full q)"
proof (induction q rule: drop_while_full.induct)
  case (1 q)
  then show ?case
    by (cases "\<not> has_space_unlocked q \<and> queue q \<noteq> []")
      (auto simp: drop_while_full.simps [of q] drop_oldest_inv)
qed

lemma drop_while_full_space:
  "queue_inv q \<Longrightarrow> has_space_unlocked (drop_while_full q)"
proof (induction q rule: drop_while_full.induct)
  case (1 q)
  show ?case
  proof (cases "\<not> has_space_unlocked q \<and> queue q \<noteq> []")
    case True
    with 1 show ?thesis by (simp add: drop_while_full.simps [of q] drop_oldest_inv)
  next
    case False
    with 1 show ?thesis
      by (auto simp: drop_while_full.simps [of q] queue_inv_def queued_def has_space_unlocked_def
          word_gt_0)
  qed
qed

section \<open>The effect of one operation\<close>

text \<open>
  \<open>queue_effect ins outs q q'\<close>: going from \<open>q\<close> to \<open>q'\<close> while accepting \<open>ins\<close> and handing out
  \<open>outs\<close> keeps the accounting and the configuration; what is handed out followed by what stays
  is, in order, part of what was there followed by what came in; and in a queue without
  expiry and without the dropping policy nothing is lost at all.
\<close>

definition lossless :: "MessageQueue \<Rightarrow> bool" where
  "lossless q \<longleftrightarrow> ttl q = 0 \<and> policy q \<noteq> kDropOld \<and> (\<forall>m\<in>set (queue q). deadline m = 0)"

definition queue_effect ::
  "Message list \<Rightarrow> Message list \<Rightarrow> MessageQueue \<Rightarrow> MessageQueue \<Rightarrow> bool" where
  "queue_effect ins outs q q' \<longleftrightarrow>
     (queue_inv q \<longrightarrow> queue_inv q')
     \<and> hwm_bytes q' = hwm_bytes q \<and> policy q' = policy q \<and> ttl q' = ttl q
     \<and> subseq (outs @ queued q') (queued q @ ins)
     \<and> (lossless q \<longrightarrow> lossless q' \<and> outs @ queued q' = queued q @ ins)"

text \<open>The message a \<open>push\<close> accepted, read off its notification of the consumers.\<close>

definition accepted_by :: "Message \<Rightarrow> notify list \<Rightarrow> Message list" where
  "accepted_by msg ns = (if NotifyOneEmpty \<in> set ns then [msg] else [])"

definition handed_out :: "Message Result option \<Rightarrow> Message list" where
  "handed_out r = (case r of Some (ResVal m) \<Rightarrow> [m] | _ \<Rightarrow> [])"

lemma queue_effect_refl [simp, intro]: "queue_effect [] [] q q"
  by (simp add: queue_effect_def)

lemma accepted_by_simps [simp]:
  "accepted_by m [] = []" "accepted_by m [NotifyOneEmpty] = [m]"
  by (simp_all add: accepted_by_def)

lemma enqueue_effect:
  "enqueue now msg q = (r, q', ns) \<Longrightarrow> r = Some Status_Ok \<and> ns = [NotifyOneEmpty]
     \<and> queue_effect [msg] [] q q'"
  by (auto simp: enqueue_def Let_def queue_effect_def queue_inv_def lossless_def size_u64_def
      queued_def)

lemma enqueue_after_drop_effect:
  assumes "enqueue now msg (drop_while_full q) = (r, q', ns)" and "policy q = kDropOld"
  shows "queue_effect (accepted_by msg ns) [] q q'"
proof -
  obtain k where k: "queue (drop_while_full q) = drop k (queue q)"
    using drop_while_full_suffix by blast
  have "subseq (map qm_msg (drop k (queue q)) @ [msg]) (map qm_msg (queue q) @ [msg])"
    by (intro list_emb_append_mono) (simp_all add: drop_map [symmetric] suffix_imp_subseq suffix_drop)
  with assms k show ?thesis
    using drop_while_full_inv [of q]
    by (auto simp: enqueue_def Let_def queue_effect_def queue_inv_def lossless_def
        size_u64_def queued_def)
qed

lemma push_after_wait_effect:
  "push_after_wait now msg q = (r, q', ns) \<Longrightarrow> queue_effect (accepted_by msg ns) [] q q'"
  by (auto simp: push_after_wait_def split: if_splits dest!: enqueue_effect)

lemma push_effect: "push now msg q = (r, q', ns) \<Longrightarrow> queue_effect (accepted_by msg ns) [] q q'"
  by (auto simp: push_def split: if_splits BackpressurePolicy.splits
      dest!: push_after_wait_effect
      dest: enqueue_effect enqueue_after_drop_effect)

lemma push_wake_effect:
  "push_wake now msg q = (r, q', ns) \<Longrightarrow> queue_effect (accepted_by msg ns) [] q q'"
  by (auto simp: push_wake_def split: if_splits dest!: push_after_wait_effect)

lemma push_expire_effect:
  "push_expire now msg q = (r, q', ns) \<Longrightarrow> queue_effect (accepted_by msg ns) [] q q'"
  by (auto simp: push_expire_def split: if_splits dest!: push_after_wait_effect)

lemma bytes_split_filter:
  "(of_nat (msg_bytes (map qm_msg ms)) :: u64) - of_nat (msg_bytes (map qm_msg (filter P ms)))
   = of_nat (msg_bytes (map qm_msg (filter (\<lambda>m. \<not> P m) ms)))"
proof -
  have "msg_bytes (map qm_msg ms) =
      msg_bytes (map qm_msg (filter P ms)) + msg_bytes (map qm_msg (filter (\<lambda>m. \<not> P m) ms))"
    by (induction ms) simp_all
  then show ?thesis by simp
qed

lemma lossless_not_expired: "lossless q \<Longrightarrow> m \<in> set (queue q) \<Longrightarrow> \<not> expired now m"
  by (simp add: lossless_def expired_def)

text \<open>Removing a front part \<open>pre\<close> and handing out the messages \<open>outs\<close> after it.\<close>

lemma front_removed_effect:
  assumes q: "queue q = pre @ outs @ rest" and pre: "lossless q \<Longrightarrow> pre = []"
    and t: "t = total_bytes q - of_nat (msg_bytes (map qm_msg pre))
                  - of_nat (msg_bytes (map qm_msg outs))"
  shows "queue_effect [] (map qm_msg outs) q (q\<lparr>queue := rest, total_bytes := t\<rparr>)"
  using pre unfolding t
  by (auto simp: queue_effect_def queue_inv_def queued_def q lossless_def)

lemma skipped_front:
  "queue q = takeWhile (expired now) (queue q) @ dropWhile (expired now) (queue q)"
  "lossless q \<Longrightarrow> takeWhile (expired now) (queue q) = []"
  by (simp, cases "queue q", auto simp: lossless_not_expired)

lemma pop_front_effect:
  "dropWhile (expired now) (queue q) = m # rest \<Longrightarrow>
   queue_effect [] [qm_msg m] q
     (q\<lparr>queue := rest, total_bytes := total_bytes q
        - of_nat (msg_bytes (map qm_msg (takeWhile (expired now) (queue q))))
        - size_u64 (qm_msg m)\<rparr>)"
  using front_removed_effect [of q "takeWhile (expired now) (queue q)" "[m]" rest, OF _ skipped_front(2)]
    skipped_front(1) [of q now]
  by (simp add: size_u64_def)

lemma pop_none_effect:
  "dropWhile (expired now) (queue q) = [] \<Longrightarrow>
   queue_effect [] [] q
     (q\<lparr>queue := [], total_bytes := total_bytes q
        - of_nat (msg_bytes (map qm_msg (takeWhile (expired now) (queue q))))\<rparr>)"
  using front_removed_effect [of q "takeWhile (expired now) (queue q)" "[]" "[]", OF _ skipped_front(2)]
    skipped_front(1) [of q now]
  by (simp del: dropWhile_eq_Nil_conv)

lemma pop_after_wait_effect:
  "pop_after_wait now q = (r, q', ns) \<Longrightarrow> queue_effect [] (handed_out r) q q'"
  by (auto simp: pop_after_wait_def skip_expired_eq handed_out_def
      simp del: dropWhile_eq_Nil_conv intro: pop_front_effect pop_none_effect
      split: if_splits list.splits)

lemma pop_effect: "pop now q = (r, q', ns) \<Longrightarrow> queue_effect [] (handed_out r) q q'"
  by (auto simp: pop_def handed_out_def split: if_splits dest!: pop_after_wait_effect)

lemma pop_expire_effect: "pop_expire now q = (r, q', ns) \<Longrightarrow> queue_effect [] (handed_out r) q q'"
  by (auto simp: pop_expire_def handed_out_def split: if_splits dest!: pop_after_wait_effect)

lemma try_pop_effect:
  "try_pop now q = (r, q', ns) \<Longrightarrow> queue_effect [] (case r of None \<Rightarrow> [] | Some m \<Rightarrow> [m]) q q'"
  by (auto simp: try_pop_def skip_expired_eq
      simp del: dropWhile_eq_Nil_conv intro: pop_front_effect pop_none_effect
      split: if_splits list.splits)

lemma purge_effect:
  assumes "purge_expired now q = (n, q', ns)"
  shows "queue_effect [] [] q q'"
proof (cases "ttl q = 0")
  case True
  with assms show ?thesis by (simp add: purge_expired_def)
next
  case False
  then have "\<not> lossless q" by (simp add: lossless_def)
  with False assms show ?thesis
    using bytes_split_filter [of "queue q" "expired now"]
    by (auto simp: purge_expired_def purge_loop_eq queue_effect_def queue_inv_def queued_def
        subseq_map)
qed

lemma close_effect: "close q = (q', ns) \<Longrightarrow> queue_effect [] [] q q'"
  by (auto simp: close_def queue_effect_def queue_inv_def lossless_def queued_def)

lemmas queue_effects =
  push_effect push_wake_effect push_expire_effect pop_effect pop_expire_effect try_pop_effect
  purge_effect close_effect

end
