(* ===== verification/Duct_Queue_Conc.thy ===== *)
theory Duct_Queue_Conc
  imports Duct_Queue
begin

text \<open>
  The message queue of \<^verbatim>\<open>src/queue.cc\<close> used by any number of threads. A thread is outside the
  queue or blocked in one of the two waits; every part of a method between two waits is one step
  (the mutex is held throughout), and a notification wakes sleepers of its condition variable.
  A sleeper may also wake without having been notified, as \<open>std::condition_variable\<close> allows,
  and a wait with a positive timeout may run out at any moment. Ghost lists record, in order,
  what the queue accepted and what it handed out.
\<close>

datatype qthread =
    Outside
  | PushWait (wait_msg: Message) (wait_timeout: millis) (woken: bool)
  | PopWait (wait_timeout: millis) (woken: bool)

datatype qevent =
    CallPush Message millis
  | CallPop millis
  | CallTryPop
  | CallClose
  | CallPurge
  | WakeUp
  | TimeOut

text \<open>Where \<open>push\<close> and \<open>pop\<close> leave the calling thread.\<close>

definition push_thread :: "Message \<Rightarrow> millis \<Rightarrow> Status option \<Rightarrow> qthread" where
  "push_thread m tmo r = (case r of None \<Rightarrow> PushWait m tmo False | Some _ \<Rightarrow> Outside)"

definition pop_thread :: "millis \<Rightarrow> Message Result option \<Rightarrow> qthread" where
  "pop_thread tmo r = (case r of None \<Rightarrow> PopWait tmo False | Some _ \<Rightarrow> Outside)"

text \<open>
  One step of one thread: its new position, the new queue, the notifications, and the messages
  accepted and handed out. \<open>None\<close> when the thread cannot do this here.
\<close>

fun qexec ::
  "qevent \<Rightarrow> time_point \<Rightarrow> qthread \<Rightarrow> MessageQueue
     \<Rightarrow> (qthread \<times> MessageQueue \<times> notify list \<times> Message list \<times> Message list) option" where
  "qexec (CallPush m tmo) now Outside q =
     (case push now m q of (r, q', ns) \<Rightarrow> Some (push_thread m tmo r, q', ns, accepted_by m ns, []))"
| "qexec (CallPop tmo) now Outside q =
     (case pop now q of (r, q', ns) \<Rightarrow> Some (pop_thread tmo r, q', ns, [], handed_out r))"
| "qexec CallTryPop now Outside q =
     (case try_pop now q of (r, q', ns) \<Rightarrow>
        Some (Outside, q', ns, [], case r of None \<Rightarrow> [] | Some m \<Rightarrow> [m]))"
| "qexec CallClose now Outside q =
     (case close q of (q', ns) \<Rightarrow> Some (Outside, q', ns, [], []))"
| "qexec CallPurge now Outside q =
     (case purge_expired now q of (n, q', ns) \<Rightarrow> Some (Outside, q', ns, [], []))"
| "qexec WakeUp now (PushWait m tmo w) q =
     (case push_wake now m q of (r, q', ns) \<Rightarrow>
        Some (push_thread m tmo r, q', ns, accepted_by m ns, []))"
| "qexec WakeUp now (PopWait tmo w) q =
     (case pop now q of (r, q', ns) \<Rightarrow> Some (pop_thread tmo r, q', ns, [], handed_out r))"
| "qexec TimeOut now (PushWait m tmo w) q =
     (if tmo > 0 then
        (case push_expire now m q of (r, q', ns) \<Rightarrow>
           Some (push_thread m tmo r, q', ns, accepted_by m ns, []))
      else None)"
| "qexec TimeOut now (PopWait tmo w) q =
     (if tmo > 0 then
        (case pop_expire now q of (r, q', ns) \<Rightarrow>
           Some (pop_thread tmo r, q', ns, [], handed_out r))
      else None)"
| "qexec _ _ _ _ = None"

fun wake :: "qthread \<Rightarrow> qthread" where
  "wake Outside = Outside"
| "wake (PushWait m tmo w) = PushWait m tmo True"
| "wake (PopWait tmo w) = PopWait tmo True"

fun push_sleeper :: "qthread \<Rightarrow> bool" where
  "push_sleeper (PushWait m tmo w) = (\<not> w)"
| "push_sleeper _ = False"

fun pop_sleeper :: "qthread \<Rightarrow> bool" where
  "pop_sleeper (PopWait tmo w) = (\<not> w)"
| "pop_sleeper _ = False"

text \<open>Who may be woken by a notification: sleepers on \<open>not_full_cv_\<close> or \<open>not_empty_cv_\<close>.\<close>

fun sleeper_of :: "notify \<Rightarrow> qthread \<Rightarrow> bool" where
  "sleeper_of NotifyOneFull t = push_sleeper t"
| "sleeper_of NotifyAllFull t = push_sleeper t"
| "sleeper_of NotifyOneEmpty t = pop_sleeper t"
| "sleeper_of NotifyAllEmpty t = pop_sleeper t"

fun notify_is_all :: "notify \<Rightarrow> bool" where
  "notify_is_all NotifyAllFull = True"
| "notify_is_all NotifyAllEmpty = True"
| "notify_is_all _ = False"

inductive notified :: "notify list \<Rightarrow> qthread list \<Rightarrow> qthread list \<Rightarrow> bool" where
  nobody_left: "notified [] ts ts"
| wake_all: "notify_is_all n \<Longrightarrow>
    notified ns (map (\<lambda>t. if sleeper_of n t then wake t else t) ts) ts' \<Longrightarrow>
    notified (n # ns) ts ts'"
| wake_one: "\<not> notify_is_all n \<Longrightarrow> i < length ts \<Longrightarrow> sleeper_of n (ts ! i) \<Longrightarrow>
    notified ns (ts[i := wake (ts ! i)]) ts' \<Longrightarrow> notified (n # ns) ts ts'"
| wake_none: "\<not> notify_is_all n \<Longrightarrow> \<forall>t\<in>set ts. \<not> sleeper_of n t \<Longrightarrow>
    notified ns ts ts' \<Longrightarrow> notified (n # ns) ts ts'"

record qsys =
  mq :: MessageQueue
  qthreads :: "qthread list"
  qclock :: time_point
  accepted :: "Message list"
  delivered :: "Message list"

inductive qstep :: "qsys \<Rightarrow> qsys \<Rightarrow> bool" where
  thread_step: "i < length (qthreads s) \<Longrightarrow>
    qexec ev (qclock s) (qthreads s ! i) (mq s) = Some (t', q', ns, acc, del) \<Longrightarrow>
    notified ns ((qthreads s)[i := t']) ts' \<Longrightarrow>
    qstep s \<lparr>mq = q', qthreads = ts', qclock = qclock s,
             accepted = accepted s @ acc, delivered = delivered s @ del\<rparr>"
| clock_step: "qclock s \<le> now \<Longrightarrow> qstep s (s\<lparr>qclock := now\<rparr>)"

text \<open>A fresh queue shared by \<open>n\<close> threads at some time after the clock's epoch.\<close>

definition qsys_init :: "u64 \<Rightarrow> BackpressurePolicy \<Rightarrow> millis \<Rightarrow> nat \<Rightarrow> time_point \<Rightarrow> qsys" where
  "qsys_init hwm pol t n now =
     \<lparr>mq = mk_MessageQueue hwm pol t, qthreads = replicate n Outside, qclock = now,
      accepted = [], delivered = []\<rparr>"

abbreviation queue_reach :: "qsys \<Rightarrow> qsys \<Rightarrow> bool" where
  "queue_reach \<equiv> qstep\<^sup>*\<^sup>*"

section \<open>Order and accounting under every interleaving\<close>

lemma qexec_effect:
  "qexec ev now t q = Some (t', q', ns, acc, del) \<Longrightarrow> queue_effect acc del q q'"
  by (induction ev now t q rule: qexec.induct)
    (auto split: prod.splits if_splits dest: queue_effects)

text \<open>Effects compose along a history.\<close>

lemma queue_effect_history:
  assumes "subseq (outs @ queued q) ins" "queue_effect i d q q'"
  shows "subseq ((outs @ d) @ queued q') (ins @ i)"
proof -
  have "subseq (outs @ (d @ queued q')) (outs @ (queued q @ i))"
    by (rule list_emb_append_mono) (use assms(2) in \<open>simp_all add: queue_effect_def\<close>)
  moreover have "subseq ((outs @ queued q) @ i) (ins @ i)"
    using assms(1) by (intro list_emb_append_mono) simp_all
  ultimately show ?thesis
    using subseq_order.order_trans by fastforce
qed

definition queue_history_inv :: "u64 \<Rightarrow> BackpressurePolicy \<Rightarrow> millis \<Rightarrow> qsys \<Rightarrow> bool" where
  "queue_history_inv hwm pol t s \<longleftrightarrow>
     queue_inv (mq s) \<and> hwm_bytes (mq s) = hwm \<and> policy (mq s) = pol \<and> ttl (mq s) = t
     \<and> subseq (delivered s @ queued (mq s)) (accepted s)
     \<and> (t = 0 \<longrightarrow> pol \<noteq> kDropOld \<longrightarrow>
          lossless (mq s) \<and> delivered s @ queued (mq s) = accepted s)"

lemma queue_history_inv_init: "queue_history_inv hwm pol t (qsys_init hwm pol t n now)"
  by (simp add: queue_history_inv_def qsys_init_def mk_MessageQueue_def queue_inv_def queued_def
      lossless_def)

lemma queue_history_inv_step:
  assumes "qstep s s'" "queue_history_inv hwm pol t s"
  shows "queue_history_inv hwm pol t s'"
  using assms
proof (cases rule: qstep.cases)
  case (thread_step i ev t' q' ns acc del ts')
  note e = qexec_effect [OF thread_step(3)]
  from assms(2) e have "subseq ((delivered s @ del) @ queued q') (accepted s @ acc)"
    by (intro queue_effect_history) (simp_all add: queue_history_inv_def)
  with assms(2) e thread_step(1) show ?thesis
    by (auto simp: queue_history_inv_def queue_effect_def)
next
  case (clock_step now)
  with assms(2) show ?thesis by (simp add: queue_history_inv_def)
qed

lemma queue_history_inv_reach:
  "queue_reach (qsys_init hwm pol t n now) s \<Longrightarrow> queue_history_inv hwm pol t s"
  by (induction rule: rtranclp_induct) (auto intro: queue_history_inv_init queue_history_inv_step)

section \<open>Wake-ups\<close>

fun woken_of :: "notify \<Rightarrow> qthread \<Rightarrow> bool" where
  "woken_of NotifyOneFull (PushWait m tmo w) = w"
| "woken_of NotifyOneEmpty (PopWait tmo w) = w"
| "woken_of _ _ = False"

fun all_of :: "notify \<Rightarrow> notify" where
  "all_of NotifyOneFull = NotifyAllFull"
| "all_of NotifyOneEmpty = NotifyAllEmpty"
| "all_of n = n"

definition n_woken :: "notify \<Rightarrow> qthread list \<Rightarrow> nat" where
  "n_woken n ts = length (filter (woken_of n) ts)"

lemma sleeper_not_woken: "\<not> notify_is_all n \<Longrightarrow> sleeper_of n t \<Longrightarrow> woken_of n (wake t) \<and> \<not> woken_of n t"
  by (cases n; cases t) auto

lemma other_kind_kept:
  "\<not> notify_is_all n0 \<Longrightarrow> n \<noteq> n0 \<Longrightarrow> n \<noteq> all_of n0 \<Longrightarrow> sleeper_of n t \<Longrightarrow>
   sleeper_of n0 (wake t) = sleeper_of n0 t \<and> woken_of n0 (wake t) = woken_of n0 t"
  by (cases n; cases n0; cases t) auto

lemma wake_not_sleeper [simp]: "\<not> sleeper_of n (wake t)"
  by (cases n; cases t) auto

lemma all_of_sleepers: "\<not> notify_is_all n \<Longrightarrow> sleeper_of (all_of n) t = sleeper_of n t"
  by (cases n) auto

lemma all_of_all: "\<not> notify_is_all n \<Longrightarrow> notify_is_all (all_of n)"
  by (cases n) auto

text \<open>
  As long as a sleeper of some kind is left, every notification of this kind woke one.
\<close>

lemma notified_sleepers:
  assumes "notified ns ts ts'" "\<not> notify_is_all n0" "\<exists>t\<in>set ts'. sleeper_of n0 t"
  shows "(\<exists>t\<in>set ts. sleeper_of n0 t) \<and> n_woken n0 ts + count_list ns n0 \<le> n_woken n0 ts'
     \<and> all_of n0 \<notin> set ns"
  using assms
proof (induction rule: notified.induct)
  case (nobody_left ts)
  then show ?case by simp
next
  case (wake_all n ns ts ts')
  let ?ts = "map (\<lambda>t. if sleeper_of n t then wake t else t) ts"
  from wake_all have IH: "\<exists>t\<in>set ?ts. sleeper_of n0 t" "n_woken n0 ?ts + count_list ns n0 \<le> n_woken n0 ts'"
    "all_of n0 \<notin> set ns" by auto
  from IH(1) obtain t where t: "t \<in> set ts" "sleeper_of n0 (if sleeper_of n t then wake t else t)" by auto
  then have ne: "n \<noteq> all_of n0" "sleeper_of n0 t"
    using all_of_sleepers wake_all.prems(1) by (auto split: if_splits)
  have "woken_of n0 (if sleeper_of n t then wake t else t) = woken_of n0 t" for t
    using other_kind_kept [of n0 n t] wake_all ne by auto
  then have "n_woken n0 ?ts = n_woken n0 ts" by (simp add: n_woken_def filter_map comp_def)
  with IH ne t wake_all show ?case by auto
next
  case (wake_one n i ts ns ts')
  let ?ts = "ts[i := wake (ts ! i)]"
  from wake_one have IH: "\<exists>t\<in>set ?ts. sleeper_of n0 t" "n_woken n0 ?ts + count_list ns n0 \<le> n_woken n0 ts'"
    "all_of n0 \<notin> set ns" by auto
  from IH(1) have s: "\<exists>t\<in>set ts. sleeper_of n0 t"
    by (metis in_set_conv_nth length_list_update nth_list_update_eq nth_list_update_neq wake_not_sleeper)
  have "n_woken n0 ts + (if n = n0 then 1 else 0) \<le> n_woken n0 ?ts"
    using length_filter_update [of i ts "woken_of n0" "wake (ts ! i)"] wake_one
      sleeper_not_woken [of n "ts ! i"] other_kind_kept [of n0 n "ts ! i"] all_of_all [of n0]
    by (auto simp: n_woken_def split: if_splits)
  with IH s wake_one all_of_all [of n0] show ?case by auto
next
  case (wake_none n ts ns ts')
  with all_of_all [of n0] show ?case by auto
qed

text \<open>What one step does to the consumers' side, whatever the configuration.\<close>

lemma pop_after_wait_queue:
  "pop_after_wait now q = (r, q', ns) \<Longrightarrow>
   r \<noteq> None \<and> queue_closed q' = queue_closed q \<and> length (queue q') \<le> length (queue q) - 1
   \<and> (queue q' = [] \<longrightarrow> queue q = [] \<or> NotifyOneFull \<in> set ns)"
  using length_dropWhile_le [of "expired now" "queue q"]
  by (cases "queue q")
    (auto simp: pop_after_wait_def skip_expired_eq split: if_splits list.splits)

lemma drop_while_full_length: "length (queue (drop_while_full q)) \<le> length (queue q)"
  using drop_while_full_suffix [of q] by auto

lemma push_queue:
  "push now m q = (r, q', ns) \<Longrightarrow>
   queue_closed q' = queue_closed q \<and>
   length (queue q') \<le> length (queue q) + count_list ns NotifyOneEmpty"
  using drop_while_full_length [of q]
  by (auto simp: push_def push_after_wait_def enqueue_def Let_def
      split: if_splits BackpressurePolicy.splits)

lemma push_wake_queue:
  "push_wake now m q = (r, q', ns) \<Longrightarrow>
   queue_closed q' = queue_closed q \<and>
   length (queue q') \<le> length (queue q) + count_list ns NotifyOneEmpty"
  "push_expire now m q = (r, q', ns) \<Longrightarrow>
   queue_closed q' = queue_closed q \<and>
   length (queue q') \<le> length (queue q) + count_list ns NotifyOneEmpty"
  by (auto simp: push_wake_def push_expire_def push_after_wait_def enqueue_def Let_def
      split: if_splits)

lemma pop_queue:
  "pop now q = (r, q', ns) \<Longrightarrow>
   queue_closed q' = queue_closed q \<and> length (queue q') \<le> length (queue q) - 1
   \<and> (r = None \<longrightarrow> queue q' = [] \<and> \<not> queue_closed q')"
  "pop_expire now q = (r, q', ns) \<Longrightarrow>
   queue_closed q' = queue_closed q \<and> length (queue q') \<le> length (queue q) - 1 \<and> r \<noteq> None"
  by (auto simp: pop_def pop_expire_def pop_pred_def dest: pop_after_wait_queue split: if_splits)

lemma try_pop_queue:
  "try_pop now q = (r, q', ns) \<Longrightarrow>
   queue_closed q' = queue_closed q \<and> length (queue q') \<le> length (queue q)"
  using length_dropWhile_le [of "expired now" "queue q"]
  by (auto simp: try_pop_def skip_expired_eq split: if_splits list.splits)

lemma purge_queue:
  "purge_expired now q = (n, q', ns) \<Longrightarrow>
   queue_closed q' = queue_closed q \<and> length (queue q') \<le> length (queue q)"
  by (auto simp: purge_expired_def purge_loop_eq split: if_splits)

definition pop_progress ::
  "qthread \<Rightarrow> MessageQueue \<Rightarrow> qthread \<Rightarrow> MessageQueue \<Rightarrow> notify list \<Rightarrow> bool" where
  "pop_progress t q t' q' ns \<longleftrightarrow>
     \<not> woken_of NotifyOneEmpty t'
     \<and> (pop_sleeper t' \<longrightarrow> queue q' = [] \<and> \<not> queue_closed q')
     \<and> length (queue q')
         \<le> length (queue q) - (if woken_of NotifyOneEmpty t then 1 else 0) + count_list ns NotifyOneEmpty
     \<and> (queue_closed q' \<longrightarrow> queue_closed q \<or> NotifyAllEmpty \<in> set ns)"

lemma qexec_pop_progress:
  "qexec ev now t q = Some (t', q', ns, acc, del) \<Longrightarrow> pop_progress t q t' q' ns"
  by (induction ev now t q rule: qexec.induct)
    (auto simp: pop_progress_def push_thread_def pop_thread_def close_def
      split: prod.splits if_splits option.splits
      dest: push_queue push_wake_queue try_pop_queue purge_queue dest!: pop_queue)

definition consumers_awake :: "qsys \<Rightarrow> bool" where
  "consumers_awake s \<longleftrightarrow>
     ((\<exists>t\<in>set (qthreads s). pop_sleeper t) \<longrightarrow>
        \<not> queue_closed (mq s) \<and> length (queue (mq s)) \<le> n_woken NotifyOneEmpty (qthreads s))"

lemma consumers_awake_step:
  assumes "qstep s s'" "consumers_awake s" shows "consumers_awake s'"
  using assms
proof (cases rule: qstep.cases)
  case (thread_step i ev t' q' ns acc del ts')
  let ?ts = "(qthreads s)[i := t']"
  note p = qexec_pop_progress [OF thread_step(3)]
  have c: "n_woken NotifyOneEmpty ?ts + (if woken_of NotifyOneEmpty (qthreads s ! i) then 1 else 0)
      = n_woken NotifyOneEmpty (qthreads s)"
    using length_filter_update [OF thread_step(2), of "woken_of NotifyOneEmpty" t'] p
    by (simp add: n_woken_def pop_progress_def)
  have "\<not> queue_closed q' \<and> length (queue q') \<le> n_woken NotifyOneEmpty ts'"
    if sl: "\<exists>t\<in>set ts'. pop_sleeper t"
  proof -
    from notified_sleepers [OF thread_step(4), of NotifyOneEmpty] sl
    have n: "\<exists>t\<in>set ?ts. pop_sleeper t" "NotifyAllEmpty \<notin> set ns"
      "n_woken NotifyOneEmpty ?ts + count_list ns NotifyOneEmpty \<le> n_woken NotifyOneEmpty ts'" by auto
    show ?thesis
    proof (cases "pop_sleeper t'")
      case True
      with p show ?thesis by (simp add: pop_progress_def)
    next
      case False
      with n(1) have "\<exists>t\<in>set (qthreads s). pop_sleeper t"
        using set_update_subset_insert by fastforce
      with assms(2) p n c show ?thesis by (auto simp: consumers_awake_def pop_progress_def)
    qed
  qed
  with thread_step(1) show ?thesis by (simp add: consumers_awake_def)
next
  case (clock_step now)
  with assms(2) show ?thesis by (simp add: consumers_awake_def)
qed

lemma consumers_awake_init: "consumers_awake (qsys_init hwm pol t n now)"
  by (simp add: consumers_awake_def qsys_init_def)

lemma consumers_awake_reach:
  "queue_reach (qsys_init hwm pol t n now) s \<Longrightarrow> consumers_awake s"
  by (induction rule: rtranclp_induct) (auto intro: consumers_awake_init consumers_awake_step)

section \<open>Producers\<close>

text \<open>The producers' side of one step, in a queue of the blocking policy without expiry.\<close>

definition push_progress ::
  "qthread \<Rightarrow> MessageQueue \<Rightarrow> qthread \<Rightarrow> MessageQueue \<Rightarrow> notify list \<Rightarrow> bool" where
  "push_progress t q t' q' ns \<longleftrightarrow>
     \<not> woken_of NotifyOneFull t'
     \<and> (push_sleeper t' \<longrightarrow> queue q' \<noteq> [] \<and> \<not> queue_closed q')
     \<and> (woken_of NotifyOneFull t \<longrightarrow> queue q' \<noteq> [] \<or> queue_closed q')
     \<and> (queue q' = [] \<longrightarrow> queue q = [] \<or> NotifyOneFull \<in> set ns)
     \<and> (queue_closed q' \<longrightarrow> queue_closed q \<or> NotifyAllFull \<in> set ns)"

lemma push_pred_false: "queue_inv q \<Longrightarrow> \<not> push_pred m q \<Longrightarrow> queue q \<noteq> [] \<and> \<not> queue_closed q"
  by (auto simp: push_pred_def has_space_unlocked_def queue_inv_def queued_def word_gt_0)

lemma push_block_queue:
  "push now m q = (r, q', ns) \<Longrightarrow> queue_inv q \<Longrightarrow> policy q = kBlock \<Longrightarrow>
   queue_closed q' = queue_closed q \<and> (queue q' = [] \<longrightarrow> queue q = [])
   \<and> (r = None \<longrightarrow> queue q' \<noteq> [] \<and> \<not> queue_closed q')"
  using push_pred_false [of q m]
  by (auto simp: push_def push_after_wait_def enqueue_def Let_def split: if_splits)

lemma push_wait_queue:
  "push_wake now m q = (r, q', ns) \<Longrightarrow> queue_inv q \<Longrightarrow>
   queue_closed q' = queue_closed q \<and> (queue q' \<noteq> [] \<or> queue_closed q' \<and> queue q = [])
   \<and> (r = None \<longrightarrow> \<not> queue_closed q')"
  "push_expire now m q = (r, q', ns) \<Longrightarrow> queue_inv q \<Longrightarrow>
   queue_closed q' = queue_closed q \<and> (queue q' \<noteq> [] \<or> queue_closed q' \<and> queue q = []) \<and> r \<noteq> None"
  using push_pred_false [of q m]
  by (auto simp: push_wake_def push_expire_def push_after_wait_def enqueue_def Let_def
      split: if_splits)

lemma lossless_dropWhile: "lossless q \<Longrightarrow> dropWhile (expired now) (queue q) = queue q"
  by (cases "queue q") (simp_all add: lossless_not_expired)

lemma pop_full_note:
  "pop now q = (r, q', ns) \<Longrightarrow> queue q' = [] \<Longrightarrow> queue q = [] \<or> NotifyOneFull \<in> set ns"
  "pop_expire now q = (r, q', ns) \<Longrightarrow> queue q' = [] \<Longrightarrow> queue q = [] \<or> NotifyOneFull \<in> set ns"
  by (auto simp: pop_def pop_expire_def dest: pop_after_wait_queue split: if_splits)

lemma try_pop_full_note:
  "try_pop now q = (r, q', ns) \<Longrightarrow> lossless q \<Longrightarrow> queue q' = [] \<Longrightarrow>
   queue q = [] \<or> NotifyOneFull \<in> set ns"
  by (auto simp: try_pop_def skip_expired_eq lossless_dropWhile
      simp del: dropWhile_eq_Nil_conv split: if_splits list.splits)

lemma qexec_push_progress:
  "qexec ev now t q = Some (t', q', ns, acc, del) \<Longrightarrow>
   queue_inv q \<Longrightarrow> policy q = kBlock \<Longrightarrow> lossless q \<Longrightarrow> push_progress t q t' q' ns"
  by (induction ev now t q rule: qexec.induct)
    (auto simp: push_progress_def push_thread_def pop_thread_def close_def purge_expired_def
      lossless_def
      split: prod.splits if_splits option.splits
      dest: push_block_queue push_wait_queue pop_full_note try_pop_full_note pop_queue try_pop_queue)

definition producers_awake :: "qsys \<Rightarrow> bool" where
  "producers_awake s \<longleftrightarrow>
     ((\<exists>t\<in>set (qthreads s). push_sleeper t) \<longrightarrow>
        \<not> queue_closed (mq s) \<and> (queue (mq s) \<noteq> [] \<or> 0 < n_woken NotifyOneFull (qthreads s)))"

lemma count_list_pos: "x \<in> set xs \<Longrightarrow> 0 < count_list xs x"
  by (simp add: count_list_0_iff gr0_conv_Suc not0_implies_Suc)

lemma producers_awake_step:
  assumes "qstep s s'" "producers_awake s" "queue_history_inv hwm kBlock 0 s"
  shows "producers_awake s'"
  using assms(1)
proof (cases rule: qstep.cases)
  case (thread_step i ev t' q' ns acc del ts')
  let ?ts = "(qthreads s)[i := t']"
  have p: "push_progress (qthreads s ! i) (mq s) t' q' ns"
    using qexec_push_progress [OF thread_step(3)] assms(3) by (simp add: queue_history_inv_def)
  have c: "n_woken NotifyOneFull ?ts + (if woken_of NotifyOneFull (qthreads s ! i) then 1 else 0)
      = n_woken NotifyOneFull (qthreads s)"
    using length_filter_update [OF thread_step(2), of "woken_of NotifyOneFull" t'] p
    by (simp add: n_woken_def push_progress_def)
  have "\<not> queue_closed q' \<and> (queue q' \<noteq> [] \<or> 0 < n_woken NotifyOneFull ts')"
    if sl: "\<exists>t\<in>set ts'. push_sleeper t"
  proof -
    from notified_sleepers [OF thread_step(4), of NotifyOneFull] sl
    have n: "\<exists>t\<in>set ?ts. push_sleeper t" "NotifyAllFull \<notin> set ns"
      "n_woken NotifyOneFull ?ts + count_list ns NotifyOneFull \<le> n_woken NotifyOneFull ts'" by auto
    show ?thesis
    proof (cases "push_sleeper t'")
      case True
      with p show ?thesis by (simp add: push_progress_def)
    next
      case False
      with n(1) have "\<exists>t\<in>set (qthreads s). push_sleeper t"
        using set_update_subset_insert by fastforce
      with assms(2) p n c count_list_pos [of NotifyOneFull ns] show ?thesis
        by (auto simp: producers_awake_def push_progress_def split: if_splits)
    qed
  qed
  with thread_step(1) show ?thesis by (simp add: producers_awake_def)
next
  case (clock_step now)
  with assms(2) show ?thesis by (simp add: producers_awake_def)
qed

lemma producers_awake_init: "producers_awake (qsys_init hwm pol t n now)"
  by (simp add: producers_awake_def qsys_init_def)

lemma producers_awake_reach:
  "queue_reach (qsys_init hwm kBlock 0 n now) s \<Longrightarrow> producers_awake s"
  by (induction rule: rtranclp_induct)
    (auto intro: producers_awake_init producers_awake_step queue_history_inv_reach)

section \<open>The high water mark\<close>

text \<open>
  How far the queued bytes can exceed the mark when no message is larger than \<open>M\<close>: not at all
  under the refusing policies, by less than one message under the other two, whose test for
  space looks only at what is queued already.
\<close>

definition hwm_slack :: "BackpressurePolicy \<Rightarrow> nat \<Rightarrow> nat" where
  "hwm_slack pol M = (case pol of kDropNew \<Rightarrow> 0 | kFailFast \<Rightarrow> 0 | _ \<Rightarrow> M - 1)"

definition room_for :: "MessageQueue \<Rightarrow> Message \<Rightarrow> bool" where
  "room_for q m \<longleftrightarrow> total_bytes q + size_u64 m \<le> hwm_bytes q
     \<or> policy q \<in> {kBlock, kDropOld} \<and> total_bytes q < hwm_bytes q"

lemma enqueue_queued: "enqueue now m q = (r, q', ns) \<Longrightarrow> queued q' = queued q @ [m]"
  by (auto simp: enqueue_def Let_def queued_def)

lemma drop_while_full_bytes: "msg_bytes (queued (drop_while_full q)) \<le> msg_bytes (queued q)"
proof -
  obtain k where "queue (drop_while_full q) = drop k (queue q)"
    using drop_while_full_suffix by blast
  then show ?thesis
    by (simp add: queued_def drop_map [symmetric] msg_bytes_subseq suffix_imp_subseq suffix_drop)
qed

text \<open>A message is only appended to a queue that has room for it.\<close>

definition appended_with_room :: "MessageQueue \<Rightarrow> Message \<Rightarrow> MessageQueue \<Rightarrow> bool" where
  "appended_with_room q m q' \<longleftrightarrow>
     (\<exists>q0. queued q' = queued q0 @ [m] \<and> queue_inv q0 \<and> room_for q0 m
        \<and> hwm_bytes q0 = hwm_bytes q \<and> policy q0 = policy q
        \<and> msg_bytes (queued q0) \<le> msg_bytes (queued q))"

lemma append_same:
  "enqueue now m q = (r, q', ns) \<Longrightarrow> queue_inv q \<Longrightarrow> room_for q m \<Longrightarrow> appended_with_room q m q'"
  unfolding appended_with_room_def by (auto dest: enqueue_queued)

lemma push_room:
  assumes "push now m q = (r, q', ns)" "NotifyOneEmpty \<in> set ns" "queue_inv q" "hwm_bytes q > 0"
  shows "appended_with_room q m q'"
proof (cases "\<not> has_space_unlocked q \<or> total_bytes q + size_u64 m > hwm_bytes q")
  case False
  with assms show ?thesis
    by (auto simp: push_def room_for_def not_less split: if_splits intro: append_same)
next
  case True
  show ?thesis
  proof (cases "policy q")
    case kBlock
    with True assms show ?thesis
      by (auto simp: push_def push_after_wait_def push_pred_def has_space_unlocked_def room_for_def
          split: if_splits intro: append_same)
  next
    case kDropOld
    let ?q0 = "drop_while_full q"
    have "room_for ?q0 m" "queue_inv ?q0"
      using drop_while_full_space [OF assms(3)] drop_while_full_inv [OF assms(3)] kDropOld assms(4)
      by (simp_all add: room_for_def has_space_unlocked_def split: if_splits)
    moreover from kDropOld True assms have "queued q' = queued ?q0 @ [m]"
      by (auto simp: push_def split: if_splits dest: enqueue_queued)
    ultimately show ?thesis
      unfolding appended_with_room_def
      using drop_while_full_bytes [of q] drop_while_full_frame [of q] by blast
  qed (use True assms in \<open>auto simp: push_def split: if_splits\<close>)
qed

lemma push_wait_room:
  assumes "policy q = kBlock" "queue_inv q" "hwm_bytes q > 0" "NotifyOneEmpty \<in> set ns"
  shows "push_wake now m q = (r, q', ns) \<Longrightarrow> appended_with_room q m q'"
    and "push_expire now m q = (r, q', ns) \<Longrightarrow> appended_with_room q m q'"
  using assms
  by (auto simp: push_wake_def push_expire_def push_after_wait_def push_pred_def
      has_space_unlocked_def room_for_def split: if_splits intro: append_same)

lemma appended_bound:
  assumes "appended_with_room q m q'" "msg_size m \<le> M" "unat (hwm_bytes q) + 2 * M < 2 ^ 64"
    and "msg_bytes (queued q) \<le> unat (hwm_bytes q) + hwm_slack (policy q) M"
  shows "msg_bytes (queued q') \<le> unat (hwm_bytes q) + hwm_slack (policy q) M"
proof -
  obtain q0 where q0: "queued q' = queued q0 @ [m]" "queue_inv q0" "room_for q0 m"
    "hwm_bytes q0 = hwm_bytes q" "policy q0 = policy q"
    "msg_bytes (queued q0) \<le> msg_bytes (queued q)"
    using assms(1) by (auto simp: appended_with_room_def)
  have "hwm_slack (policy q) M \<le> M" by (simp add: hwm_slack_def split: BackpressurePolicy.split)
  with q0 assms have lt: "msg_bytes (queued q0) + msg_size m < 2 ^ 64" by linarith
  then have "unat (total_bytes q0) = msg_bytes (queued q0)"
    "unat (total_bytes q0 + size_u64 m) = msg_bytes (queued q0) + msg_size m"
    using q0(2) by (simp_all add: queue_inv_def size_u64_def unat_of_nat_small flip: of_nat_add)
  with q0 assms(2) show ?thesis
    by (cases "policy q")
      (auto simp: room_for_def hwm_slack_def word_less_nat_alt word_le_nat_alt)
qed

definition is_push_wait :: "qthread \<Rightarrow> bool" where
  "is_push_wait t \<longleftrightarrow> (\<exists>m tmo w. t = PushWait m tmo w)"

lemma notified_push_wait:
  assumes "notified ns ts ts'" "\<exists>t\<in>set ts'. is_push_wait t"
  shows "\<exists>t\<in>set ts. is_push_wait t"
proof -
  have w: "is_push_wait (wake t) = is_push_wait t" for t by (cases t) (auto simp: is_push_wait_def)
  show ?thesis using assms
  proof (induction rule: notified.induct)
    case (wake_one n i ts ns ts')
    then obtain t where "t \<in> set (ts[i := wake (ts ! i)])" "is_push_wait t" by blast
    with wake_one w show ?case
      by (metis insertE nth_mem set_update_subset_insert subsetD)
  qed (auto simp: w split: if_splits)
qed

text \<open>Only the blocking policy ever waits in \<open>push\<close>.\<close>

lemma qexec_push_wait:
  "qexec ev now t q = Some (t', q', ns, acc, del) \<Longrightarrow> is_push_wait t' \<Longrightarrow>
   is_push_wait t \<or> policy q = kBlock"
  by (induction ev now t q rule: qexec.induct)
    (auto simp: is_push_wait_def push_thread_def pop_thread_def push_def enqueue_def Let_def
      split: prod.splits if_splits option.splits BackpressurePolicy.splits)

definition hwm_respected :: "nat \<Rightarrow> qsys \<Rightarrow> bool" where
  "hwm_respected M s \<longleftrightarrow>
     ((\<exists>t\<in>set (qthreads s). is_push_wait t) \<longrightarrow> policy (mq s) = kBlock)
     \<and> ((\<forall>m\<in>set (accepted s). msg_size m \<le> M) \<longrightarrow>
          msg_bytes (queued (mq s)) \<le> unat (hwm_bytes (mq s)) + hwm_slack (policy (mq s)) M)"

lemma qexec_room:
  "qexec ev now t q = Some (t', q', ns, acc, del) \<Longrightarrow> queue_inv q \<Longrightarrow> hwm_bytes q > 0 \<Longrightarrow>
   is_push_wait t \<longrightarrow> policy q = kBlock \<Longrightarrow>
   acc = [] \<or> (\<exists>m. acc = [m] \<and> appended_with_room q m q')"
  by (induction ev now t q rule: qexec.induct)
    (auto simp: accepted_by_def is_push_wait_def split: prod.splits if_splits
      intro: push_room push_wait_room)

lemma hwm_respected_step:
  assumes "qstep s s'" "hwm_respected M s" "queue_history_inv hwm pol t s"
    and hwm: "hwm > 0" "unat hwm + 2 * M < 2 ^ 64"
  shows "hwm_respected M s'"
  using assms(1)
proof (cases rule: qstep.cases)
  case (thread_step i ev t' q' ns acc del ts')
  note e = qexec_effect [OF thread_step(3)]
  have inv: "queue_inv (mq s)" "hwm_bytes (mq s) = hwm" "policy (mq s) = pol"
    using assms(3) by (simp_all add: queue_history_inv_def)
  have cfg: "hwm_bytes q' = hwm" "policy q' = pol" using e inv by (simp_all add: queue_effect_def)
  have old: "is_push_wait (qthreads s ! i) \<longrightarrow> policy (mq s) = kBlock"
    using assms(2) thread_step(2) by (auto simp: hwm_respected_def)
  have "pol = kBlock" if "\<exists>t\<in>set ts'. is_push_wait t"
    using notified_push_wait [OF thread_step(4) that] qexec_push_wait [OF thread_step(3)] old inv
      assms(2) set_update_subset_insert [of "qthreads s" i t']
    by (auto simp: hwm_respected_def)
  moreover have "msg_bytes (queued q') \<le> unat hwm + hwm_slack pol M"
    if M: "\<forall>m\<in>set (accepted s @ acc). msg_size m \<le> M"
  proof -
    have b: "msg_bytes (queued (mq s)) \<le> unat hwm + hwm_slack pol M"
      using assms(2) inv M by (simp add: hwm_respected_def)
    consider "acc = []" | m where "acc = [m]" "appended_with_room (mq s) m q'"
      using qexec_room [OF thread_step(3) inv(1) _ old] inv hwm(1) by auto
    then show ?thesis
    proof cases
      case 1
      with e have "msg_bytes (del @ queued q') \<le> msg_bytes (queued (mq s))"
        by (intro msg_bytes_subseq) (simp add: queue_effect_def)
      with b show ?thesis by simp
    next
      case 2
      with appended_bound [of "mq s" m q' M] b inv hwm(2) M show ?thesis by simp
    qed
  qed
  ultimately show ?thesis
    using thread_step(1) cfg by (simp add: hwm_respected_def)
next
  case (clock_step now)
  with assms(2) show ?thesis by (simp add: hwm_respected_def)
qed

lemma hwm_respected_init: "hwm_respected M (qsys_init hwm pol t n now)"
  by (simp add: hwm_respected_def qsys_init_def mk_MessageQueue_def queued_def is_push_wait_def)

lemma hwm_respected_reach:
  "queue_reach (qsys_init hwm pol t n now) s \<Longrightarrow> hwm > 0 \<Longrightarrow> unat hwm + 2 * M < 2 ^ 64 \<Longrightarrow>
   hwm_respected M s"
  by (induction rule: rtranclp_induct)
    (auto intro: hwm_respected_init hwm_respected_step queue_history_inv_reach)

section \<open>Message lifetime\<close>

definition deadline_for :: "millis \<Rightarrow> time_point \<Rightarrow> time_point" where
  "deadline_for t e = (if t > 0 then e + ms_to_ns t else 0)"

text \<open>The queue is ordered by insertion time and every deadline is the one \<open>push\<close> computed.\<close>

definition timed_inv :: "time_point \<Rightarrow> MessageQueue \<Rightarrow> bool" where
  "timed_inv now q \<longleftrightarrow>
     sorted (map enqueue_time (queue q))
     \<and> (\<forall>m\<in>set (queue q). 0 < enqueue_time m \<and> enqueue_time m \<le> now
          \<and> deadline m = deadline_for (ttl q) (enqueue_time m))"

lemma subseq_drop: "subseq (drop k xs) xs"
  by (simp add: suffix_imp_subseq suffix_drop)

lemma subseq_dropWhile: "subseq (dropWhile P xs) xs"
  by (simp add: suffix_imp_subseq suffix_dropWhile)

lemma subseq_dropWhile_tl: "dropWhile P xs = x # ys \<Longrightarrow> subseq ys xs"
  using subseq_dropWhile [of P xs] by (metis subseq_Cons')

lemma subseq_set: "subseq xs ys \<Longrightarrow> set xs \<subseteq> set ys"
  by (induction rule: list_emb.induct) auto

lemma subseq_sorted_map: "sorted (map f ys) \<Longrightarrow> subseq xs ys \<Longrightarrow> sorted (map f xs)"
  by (rotate_tac 1, induction rule: list_emb.induct) (auto dest!: subseq_set)

definition new_entries :: "time_point \<Rightarrow> millis \<Rightarrow> QueuedMessage list \<Rightarrow> bool" where
  "new_entries now t new \<longleftrightarrow> length new \<le> 1 \<and>
     (\<forall>m\<in>set new. enqueue_time m = now \<and> deadline m = deadline_for t now)"

definition grows_by_now :: "time_point \<Rightarrow> MessageQueue \<Rightarrow> MessageQueue \<Rightarrow> bool" where
  "grows_by_now now q q' \<longleftrightarrow>
     (\<exists>new. new_entries now (ttl q) new \<and> subseq (queue q') (queue q @ new))"

lemma grows_nothing: "subseq (queue q') (queue q) \<Longrightarrow> grows_by_now now q q'"
  unfolding grows_by_now_def by (intro exI [of _ "[]"]) (simp add: new_entries_def)

lemma grows_enqueue:
  assumes "enqueue now m q0 = (r, q', ns)" "subseq (queue q0) (queue q)" "ttl q0 = ttl q"
  shows "grows_by_now now q q'"
proof -
  obtain qm where "queue q' = queue q0 @ [qm]" "new_entries now (ttl q) [qm]"
    using assms by (auto simp: enqueue_def Let_def new_entries_def deadline_for_def)
  with assms(2) show ?thesis unfolding grows_by_now_def
    by (intro exI [of _ "[qm]"]) (simp add: list_emb_append_mono)
qed

lemma grows_push:
  "push now m q = (r, q', ns) \<Longrightarrow> grows_by_now now q q'"
  "push_wake now m q = (r, q', ns) \<Longrightarrow> grows_by_now now q q'"
  "push_expire now m q = (r, q', ns) \<Longrightarrow> grows_by_now now q q'"
proof -
  have d: "subseq (queue (drop_while_full q)) (queue q)"
    using drop_while_full_suffix [of q] subseq_drop by auto
  show "push now m q = (r, q', ns) \<Longrightarrow> grows_by_now now q q'"
    "push_wake now m q = (r, q', ns) \<Longrightarrow> grows_by_now now q q'"
    "push_expire now m q = (r, q', ns) \<Longrightarrow> grows_by_now now q q'"
    using d by (auto simp: push_def push_wake_def push_expire_def push_after_wait_def
        split: if_splits BackpressurePolicy.splits intro: grows_nothing grows_enqueue)
qed

lemma grows_pop:
  "pop now q = (r, q', ns) \<Longrightarrow> subseq (queue q') (queue q)"
  "pop_expire now q = (r, q', ns) \<Longrightarrow> subseq (queue q') (queue q)"
  "try_pop now q = (r', q', ns) \<Longrightarrow> subseq (queue q') (queue q)"
  "purge_expired now q = (n, q', ns) \<Longrightarrow> subseq (queue q') (queue q)"
  by (auto simp: pop_def pop_expire_def pop_after_wait_def try_pop_def purge_expired_def
      skip_expired_eq purge_loop_eq split: if_splits list.splits intro: subseq_dropWhile_tl)

lemma qexec_grows:
  "qexec ev now t q = Some (t', q', ns, acc, del) \<Longrightarrow> grows_by_now now q q'"
  by (induction ev now t q rule: qexec.induct)
    (auto simp: close_def split: prod.splits if_splits
      intro: grows_push grows_nothing dest: grows_pop)

lemma timed_inv_grows:
  assumes "timed_inv now q" "0 < now" "grows_by_now now q q'" "ttl q' = ttl q"
  shows "timed_inv now q'"
proof -
  from assms(3) obtain new where new: "new_entries now (ttl q) new" "subseq (queue q') (queue q @ new)"
    by (auto simp: grows_by_now_def)
  then have "sorted (map enqueue_time (queue q @ new))"
    using assms(1) by (cases new) (auto simp: timed_inv_def new_entries_def sorted_append)
  then have "sorted (map enqueue_time (queue q'))"
    using new(2) by (rule subseq_sorted_map)
  moreover have "set (queue q') \<subseteq> set (queue q) \<union> set new"
    using subseq_set [OF new(2)] by simp
  ultimately show ?thesis
    using assms new(1) by (auto simp: timed_inv_def new_entries_def)
qed

lemma timed_inv_step:
  assumes "qstep s s'" "timed_inv (qclock s) (mq s)" "0 < qclock s"
  shows "timed_inv (qclock s') (mq s') \<and> 0 < qclock s'"
  using assms(1)
proof (cases rule: qstep.cases)
  case (thread_step i ev t' q' ns acc del ts')
  with assms timed_inv_grows qexec_grows qexec_effect [OF thread_step(3)] show ?thesis
    by (auto simp: queue_effect_def)
next
  case (clock_step now)
  with assms show ?thesis by (fastforce simp: timed_inv_def)
qed

lemma timed_inv_reach:
  assumes "queue_reach (qsys_init hwm pol t n now) s" "0 < now"
  shows "timed_inv (qclock s) (mq s) \<and> 0 < qclock s"
  using assms(1)
proof (induction rule: rtranclp_induct)
  case base
  with assms(2) show ?case by (simp add: timed_inv_def qsys_init_def mk_MessageQueue_def)
next
  case (step y z)
  then show ?case using timed_inv_step by blast
qed

text \<open>With ordered insertion times the expired messages are a prefix of the queue.\<close>

lemma sorted_filter_dropWhile:
  assumes "sorted (map f xs)"
    and "\<And>x y. x \<in> set xs \<Longrightarrow> y \<in> set xs \<Longrightarrow> f x \<le> f y \<Longrightarrow> P y \<Longrightarrow> P x"
  shows "filter (\<lambda>x. \<not> P x) xs = dropWhile P xs"
  using assms
proof (induction xs)
  case (Cons a xs)
  have "P a" if "x \<in> set xs" "P x" for x
    using that Cons.prems(1) by (intro Cons.prems(2) [of a x]) simp_all
  then have "\<not> P a \<Longrightarrow> filter (\<lambda>x. \<not> P x) xs = xs" by (intro filter_True) blast
  moreover have "filter (\<lambda>x. \<not> P x) xs = dropWhile P xs"
  proof (rule Cons.IH)
    show "sorted (map f xs)" using Cons.prems(1) by simp
    show "P x" if "x \<in> set xs" "y \<in> set xs" "f x \<le> f y" "P y" for x y
      by (rule Cons.prems(2) [of x y]) (use that in simp_all)
  qed
  ultimately show ?case by simp
qed simp

lemma timed_inv_expired:
  assumes "timed_inv now q" "m \<in> set (queue q)"
  shows "expired now m \<longleftrightarrow> ttl q > 0 \<and> now > enqueue_time m + ms_to_ns (ttl q)"
proof -
  from assms have "0 < enqueue_time m" "deadline m = deadline_for (ttl q) (enqueue_time m)"
    by (auto simp: timed_inv_def)
  then show ?thesis by (auto simp: expired_def deadline_for_def ms_to_ns_def)
qed

lemma purge_is_prefix:
  assumes "timed_inv now q"
  shows "filter (\<lambda>m. \<not> expired now m) (queue q) = dropWhile (expired now) (queue q)"
  using assms by (intro sorted_filter_dropWhile [where f = enqueue_time])
    (auto simp: timed_inv_def timed_inv_expired [OF assms])

section \<open>Schedules\<close>

text \<open>
  An executable schedule: notifications go to the first sleeper of the list. Every schedule is
  one of the interleavings of the step relation.
\<close>

datatype qmove = Move nat qevent | SetClock time_point

fun wake_first :: "notify \<Rightarrow> qthread list \<Rightarrow> qthread list" where
  "wake_first n [] = []"
| "wake_first n (t # ts) = (if sleeper_of n t then wake t # ts else t # wake_first n ts)"

fun deliver :: "notify list \<Rightarrow> qthread list \<Rightarrow> qthread list" where
  "deliver [] ts = ts"
| "deliver (n # ns) ts =
     deliver ns (if notify_is_all n then map (\<lambda>t. if sleeper_of n t then wake t else t) ts
                 else wake_first n ts)"

fun run_schedule :: "qmove list \<Rightarrow> qsys \<Rightarrow> qsys option" where
  "run_schedule [] s = Some s"
| "run_schedule (SetClock now # ms) s =
     (if qclock s \<le> now then run_schedule ms (s\<lparr>qclock := now\<rparr>) else None)"
| "run_schedule (Move i ev # ms) s =
     (if i < length (qthreads s) then
        (case qexec ev (qclock s) (qthreads s ! i) (mq s) of
           None \<Rightarrow> None
         | Some (t', q', ns, acc, del) \<Rightarrow>
             run_schedule ms
               \<lparr>mq = q', qthreads = deliver ns ((qthreads s)[i := t']), qclock = qclock s,
                accepted = accepted s @ acc, delivered = delivered s @ del\<rparr>)
      else None)"

lemma wake_first_cases:
  "wake_first n ts = ts \<and> (\<forall>t\<in>set ts. \<not> sleeper_of n t)
   \<or> (\<exists>i<length ts. sleeper_of n (ts ! i) \<and> wake_first n ts = ts[i := wake (ts ! i)])"
proof (induction ts)
  case (Cons t ts)
  then consider "sleeper_of n t" | "\<not> sleeper_of n t" "wake_first n ts = ts" "\<forall>t\<in>set ts. \<not> sleeper_of n t"
    | i where "\<not> sleeper_of n t" "i < length ts" "sleeper_of n (ts ! i)" "wake_first n ts = ts[i := wake (ts ! i)]"
    by blast
  then show ?case
  proof cases
    case 1
    then show ?thesis by (intro disjI2 exI [of _ 0]) simp
  next
    case (3 i)
    then show ?thesis by (intro disjI2 exI [of _ "Suc i"]) simp
  qed simp
qed simp

lemma deliver_notified: "notified ns ts (deliver ns ts)"
proof (induction ns arbitrary: ts)
  case (Cons n ns)
  show ?case
    using wake_first_cases [of n ts] Cons.IH
    by (auto intro: notified.intros)
qed (simp add: nobody_left)

lemma run_schedule_reach: "run_schedule ms s = Some s' \<Longrightarrow> queue_reach s s'"
proof (induction ms s rule: run_schedule.induct)
  case (2 now ms s)
  then show ?case by (auto split: if_splits intro: converse_rtranclp_into_rtranclp clock_step)
next
  case (3 i ev ms s)
  then obtain t' q' ns acc del where
    "i < length (qthreads s)" "qexec ev (qclock s) (qthreads s ! i) (mq s) = Some (t', q', ns, acc, del)"
    by (auto split: if_splits option.splits)
  moreover from this 3 have "queue_reach \<lparr>mq = q', qthreads = deliver ns ((qthreads s)[i := t']),
      qclock = qclock s, accepted = accepted s @ acc, delivered = delivered s @ del\<rparr> s'" by simp
  ultimately show ?case
    using thread_step [OF _ _ deliver_notified] converse_rtranclp_into_rtranclp by metis
qed simp

lemma schedule_reaches:
  "(case run_schedule ms s of None \<Rightarrow> False | Some s' \<Rightarrow> P s') \<Longrightarrow> \<exists>s'. queue_reach s s' \<and> P s'"
  using run_schedule_reach by (cases "run_schedule ms s") auto

section \<open>The queue as a FIFO\<close>

text \<open>A queue together with the readings its calls take from the clock.\<close>

type_synonym timed_queue = "(nat \<Rightarrow> time_point) \<times> nat \<times> MessageQueue"

definition tq_push :: "Message \<Rightarrow> timed_queue \<Rightarrow> timed_queue option" where
  "tq_push m tq = (case tq of (c, i, q) \<Rightarrow>
     (case push (c i) m q of (r, q', ns) \<Rightarrow>
        if NotifyOneEmpty \<in> set ns then Some (c, Suc i, q') else None))"

definition tq_pop :: "timed_queue \<Rightarrow> (Message \<times> timed_queue) option" where
  "tq_pop tq = (case tq of (c, i, q) \<Rightarrow>
     (case try_pop (c i) q of (r, q', ns) \<Rightarrow> map_option (\<lambda>m. (m, c, Suc i, q')) r))"

definition tq_contents :: "timed_queue \<Rightarrow> Message list" where
  "tq_contents tq = queued (snd (snd tq))"

lemma try_pop_lossless_none: "lossless q \<Longrightarrow> fst (try_pop now q) = None \<longleftrightarrow> queued q = []"
  by (cases "queue q")
    (auto simp: try_pop_def skip_expired_eq lossless_dropWhile queued_def lossless_not_expired)

interpretation mq_fifo: fifo "\<lambda>tq. lossless (snd (snd tq))" tq_contents tq_push tq_pop
proof
  show "tq_contents tq' = tq_contents tq @ [m]" "lossless (snd (snd tq'))"
    if "lossless (snd (snd tq))" "tq_push m tq = Some tq'" for tq m tq'
    using that by (auto simp: tq_push_def tq_contents_def queue_effect_def accepted_by_def
        split: prod.splits if_splits dest!: push_effect)
  show "tq_contents tq = m # tq_contents tq'" "lossless (snd (snd tq'))"
    if "lossless (snd (snd tq))" "tq_pop tq = Some (m, tq')" for tq m tq'
    using that by (auto simp: tq_pop_def tq_contents_def queue_effect_def
        split: prod.splits if_splits dest!: try_pop_effect)
  show "(tq_pop tq = None) = (tq_contents tq = [])" if "lossless (snd (snd tq))" for tq
    using that try_pop_lossless_none
    by (auto simp: tq_pop_def tq_contents_def split: prod.splits) (metis fst_conv)+
qed

section \<open>Draining\<close>

fun pops :: "time_point list \<Rightarrow> MessageQueue \<Rightarrow> Message Result option list \<times> MessageQueue" where
  "pops [] q = ([], q)"
| "pops (now # nows) q =
     (case pop now q of (r, q', ns) \<Rightarrow> (case pops nows q' of (rs, q'') \<Rightarrow> (r # rs, q'')))"

lemma pop_closed_lossless:
  assumes "queue_closed q" "lossless q"
  shows "case pop now q of (r, q', ns) \<Rightarrow>
    r = Some (case queued q of [] \<Rightarrow> ResErr (closed_status ''queue closed'') | m # _ \<Rightarrow> ResVal m)
    \<and> queued q' = tl (queued q) \<and> queue_closed q' \<and> lossless q'"
  using assms lossless_not_expired [OF assms(2)]
  by (cases "queue q")
    (auto simp: pop_def pop_pred_def pop_after_wait_def skip_expired_eq queued_def lossless_def)

lemma pops_closed:
  "queue_closed q \<Longrightarrow> lossless q \<Longrightarrow>
   fst (pops nows q) = map (\<lambda>m. Some (ResVal m)) (take (length nows) (queued q))
     @ replicate (length nows - length (queued q)) (Some (ResErr (closed_status ''queue closed'')))"
proof (induction nows arbitrary: q)
  case (Cons now nows)
  obtain r q' ns where p: "pop now q = (r, q', ns)" by (metis surj_pair)
  with pop_closed_lossless [OF Cons.prems, of now]
  have q': "queued q' = tl (queued q)" "queue_closed q'" "lossless q'"
    "r = Some (case queued q of [] \<Rightarrow> ResErr (closed_status ''queue closed'') | m # _ \<Rightarrow> ResVal m)"
    by simp_all
  with Cons.IH [OF q'(2,3)] p show ?case
    by (cases "queued q") (auto split: prod.splits)
qed simp

section \<open>Properties\<close>

lemma queue_inv_dropWhile:
  assumes "queue_inv q"
  shows "total_bytes q - of_nat (msg_bytes (map qm_msg (takeWhile P (queue q))))
     = of_nat (msg_bytes (map qm_msg (dropWhile P (queue q))))"
proof -
  have "msg_bytes (queued q) = msg_bytes (map qm_msg (takeWhile P (queue q)))
      + msg_bytes (map qm_msg (dropWhile P (queue q)))"
    unfolding queued_def by (metis map_append msg_bytes_simps(3) takeWhile_dropWhile_id)
  with assms show ?thesis by (simp add: queue_inv_def)
qed

lemma pop_value:
  "pop now q = (Some (ResVal m), q', ns) \<Longrightarrow>
   \<exists>x rest. dropWhile (expired now) (queue q) = x # rest \<and> qm_msg x = m"
  by (cases "dropWhile (expired now) (queue q)")
    (auto simp: pop_def pop_after_wait_def skip_expired_eq simp del: dropWhile_eq_Nil_conv
      split: if_splits)

lemma takeWhile_dropWhile_length:
  "length (takeWhile P xs) + length (dropWhile P xs) = length xs"
  by (metis length_append takeWhile_dropWhile_id)

text \<open>
  C1: In every state that any number of threads can reach by any interleaving of \<open>push\<close>, \<open>pop\<close>,
  \<open>try_pop\<close>, \<open>close\<close> and \<open>purge_expired\<close>, the byte counter is the sum of the queued sizes, and
  what was delivered followed by what is queued is in order contained in what was accepted; with
  no lifetime and a policy other than \<open>kDropOld\<close> it is exactly what was accepted: no message is
  lost, duplicated or reordered.
\<close>

theorem queue_order_and_accounting:
  assumes "queue_reach (qsys_init hwm pol t n now) s"
  shows "total_bytes (mq s) = of_nat (msg_bytes (queued (mq s)))
     \<and> subseq (delivered s @ queued (mq s)) (accepted s)
     \<and> (t = 0 \<longrightarrow> pol \<noteq> kDropOld \<longrightarrow> delivered s @ queued (mq s) = accepted s)"
  using queue_history_inv_reach [OF assms] by (simp add: queue_history_inv_def queue_inv_def)

text \<open>
  C9: The high water mark: if no accepted message is larger than \<open>M\<close>, the queued bytes never
  exceed the mark under \<open>kDropNew\<close> and \<open>kFailFast\<close>, and exceed it by less than one message under
  \<open>kBlock\<close> and \<open>kDropOld\<close>, in every reachable state.
\<close>

theorem queue_hwm_bound:
  assumes "queue_reach (qsys_init hwm pol t n now) s" "hwm > 0" "unat hwm + 2 * M < 2 ^ 64"
    and "\<forall>m\<in>set (accepted s). msg_size m \<le> M"
  shows "msg_bytes (queued (mq s))
     \<le> unat hwm + (case pol of kDropNew \<Rightarrow> 0 | kFailFast \<Rightarrow> 0 | kBlock \<Rightarrow> M - 1 | kDropOld \<Rightarrow> M - 1)"
  using hwm_respected_reach [OF assms(1-3)] queue_history_inv_reach [OF assms(1)] assms(4)
  by (cases pol) (simp_all add: hwm_respected_def queue_history_inv_def hwm_slack_def)

text \<open>
  C10: No consumer is stranded: in a reachable state where a consumer sleeps in \<open>pop\<close> and no
  consumer has been woken, the queue is empty and open.
\<close>

theorem consumer_not_stranded:
  assumes "queue_reach (qsys_init hwm pol t n now) s"
    and "\<exists>x\<in>set (qthreads s). pop_sleeper x" "n_woken NotifyOneEmpty (qthreads s) = 0"
  shows "queue (mq s) = [] \<and> \<not> is_closed (mq s)"
  using consumers_awake_reach [OF assms(1)] assms(2,3) by (simp add: consumers_awake_def is_closed_def)

text \<open>
  C11: No producer is stranded in a blocking queue without a message lifetime: when a producer
  sleeps in \<open>push\<close> and no producer has been woken, the queue is open and not empty, so that the
  next \<open>pop\<close> wakes one.
\<close>

theorem producer_not_stranded:
  assumes "queue_reach (qsys_init hwm kBlock 0 n now) s"
    and "\<exists>x\<in>set (qthreads s). push_sleeper x" "n_woken NotifyOneFull (qthreads s) = 0"
  shows "queue (mq s) \<noteq> [] \<and> \<not> is_closed (mq s)"
  using producers_awake_reach [OF assms(1)] assms(2,3) by (simp add: producers_awake_def is_closed_def)

text \<open>
  With a message lifetime that fails: \<open>try_pop\<close> discards expired messages without notifying
  the producers. A state is reachable in which every thread sleeps without a timeout, none has
  been woken, and yet the queue is empty and the producer's wait condition holds.
\<close>

theorem try_pop_strands_producer:
  "\<exists>s. queue_reach (qsys_init 1 kBlock 1 2 1) s
     \<and> qthreads s = [PushWait (from_string ''x'') 0 False, PopWait 0 False]
     \<and> queue (mq s) = [] \<and> \<not> is_closed (mq s) \<and> push_pred (from_string ''x'') (mq s)"
proof -
  let ?m = "from_string ''x''"
  let ?moves = "[Move 0 (CallPush ?m 0), Move 0 (CallPush ?m 0), SetClock 2000000,
    Move 1 CallTryPop, Move 1 (CallPop 0)]"
  have "case run_schedule ?moves (qsys_init 1 kBlock 1 2 1) of
      None \<Rightarrow> False
    | Some s \<Rightarrow> qthreads s = [PushWait ?m 0 False, PopWait 0 False] \<and> queue (mq s) = []
        \<and> \<not> is_closed (mq s) \<and> push_pred ?m (mq s)"
    by code_simp
  then show ?thesis by (rule schedule_reaches)
qed

text \<open>
  \<open>pop\<close> hands out the first message that has not expired, discarding and accounting for the
  expired ones in front of it with one producer notification each; it waits exactly on an empty
  open queue, and reports \<open>kClosed\<close> or a timeout when nothing live is left.
\<close>

theorem pop_first_live:
  assumes "queue_inv q"
  shows "pop now q =
    (case dropWhile (expired now) (queue q) of
       m # rest \<Rightarrow>
         (Some (ResVal (qm_msg m)),
          q\<lparr>queue := rest, total_bytes := of_nat (msg_bytes (map qm_msg rest))\<rparr>,
          replicate (length (queue q) - length rest) NotifyOneFull)
     | [] \<Rightarrow>
         (if queue_closed q then Some (ResErr (closed_status ''queue closed''))
          else if queue q = [] then None
          else Some (ResErr (timeout_status ''all messages expired'')),
          q\<lparr>queue := [], total_bytes := 0\<rparr>, replicate (length (queue q)) NotifyOneFull))"
proof -
  note tot = queue_inv_dropWhile [OF assms, of "expired now"]
    and len = takeWhile_dropWhile_length [of "expired now" "queue q"]
  show ?thesis
  proof (cases "dropWhile (expired now) (queue q)")
    case Nil
    then have "q = q\<lparr>queue := [], total_bytes := 0\<rparr>" if "queue q = []"
      using that assms by (cases q) (simp add: queue_inv_def queued_def)
    with Nil tot len show ?thesis
      by (auto simp: pop_def pop_pred_def pop_after_wait_def skip_expired_eq map_replicate_const
          simp del: dropWhile_eq_Nil_conv)
  next
    case (Cons m rest)
    then have "queue q \<noteq> []" by auto
    with Cons tot len show ?thesis
      by (auto simp: pop_def pop_pred_def pop_after_wait_def skip_expired_eq map_replicate_const
          size_u64_def replicate_append_same simp flip: replicate_Suc)
  qed
qed

text \<open>
  Message lifetime: a message a \<open>pop\<close> hands out in a reachable state was enqueued at most
  \<open>ttl\<close> milliseconds before (when a lifetime is configured), and \<open>purge_expired\<close> removes
  exactly the front of the queue that \<open>pop\<close> would skip.
\<close>

theorem queue_lifetime:
  assumes "queue_reach (qsys_init hwm pol t n now) s" "0 < now" "0 < t"
  shows "(\<forall>m q' ns. pop (qclock s) (mq s) = (Some (ResVal m), q', ns) \<longrightarrow>
       (\<exists>e. \<lparr>qm_msg = m, enqueue_time = e, deadline = e + ms_to_ns t\<rparr> \<in> set (queue (mq s))
          \<and> e \<le> qclock s \<and> qclock s \<le> e + ms_to_ns t))
     \<and> queue (fst (snd (purge_expired (qclock s) (mq s))))
         = dropWhile (expired (qclock s)) (queue (mq s))"
proof -
  have inv: "timed_inv (qclock s) (mq s)" and t: "ttl (mq s) = t"
    using timed_inv_reach [OF assms(1,2)] queue_history_inv_reach [OF assms(1)]
    by (simp_all add: queue_history_inv_def)
  have "\<exists>e. \<lparr>qm_msg = m, enqueue_time = e, deadline = e + ms_to_ns t\<rparr> \<in> set (queue (mq s))
      \<and> e \<le> qclock s \<and> qclock s \<le> e + ms_to_ns t"
    if p: "pop (qclock s) (mq s) = (Some (ResVal m), q', ns)" for m q' ns
  proof -
    obtain x rest where x: "dropWhile (expired (qclock s)) (queue (mq s)) = x # rest" "qm_msg x = m"
      using pop_value [OF p] by blast
    then have "x \<in> set (queue (mq s))" "\<not> expired (qclock s) x"
      by (metis list.set_intros(1) set_dropWhileD, metis hd_dropWhile list.distinct(1) list.sel(1))
    with inv t x(2) assms(3) timed_inv_expired [OF inv] show ?thesis
      by (intro exI [of _ "enqueue_time x"]; cases x) (auto simp: timed_inv_def deadline_for_def)
  qed
  moreover have "queue (fst (snd (purge_expired (qclock s) (mq s))))
      = dropWhile (expired (qclock s)) (queue (mq s))"
    using purge_is_prefix [OF inv] t assms(3) by (simp add: purge_expired_def purge_loop_eq)
  ultimately show ?thesis by blast
qed

text \<open>
  Closing a queue refuses every later \<open>push\<close> and lets the consumers drain it: any number of
  \<open>pop\<close>s after \<open>close\<close> return at once, first the queued messages in order, then \<open>kClosed\<close>
  (for a queue that neither expires nor drops messages).
\<close>

theorem close_then_drain:
  assumes "lossless q"
  shows "push now m (fst (close q)) = (Some (closed_status ''queue closed''), fst (close q), [])
     \<and> fst (pops nows (fst (close q)))
        = map (\<lambda>m. Some (ResVal m)) (take (length nows) (queued q))
          @ replicate (length nows - length (queued q))
              (Some (ResErr (closed_status ''queue closed'')))"
  using pops_closed [of "fst (close q)" nows] assms
  by (simp add: close_def push_def lossless_def)

text \<open>
  A sequence of \<open>push\<close> and \<open>try_pop\<close> calls on a fresh queue that neither expires nor drops
  messages behaves as a FIFO: what came out, followed by what is left, is what was accepted.
\<close>

theorem queue_run_fifo:
  assumes "pol \<noteq> kDropOld"
    and "fifo_run tq_push tq_pop ops (clock, 0, mk_MessageQueue hwm pol 0) = (acc, del, clock', i, q)"
  shows "del @ queued q = acc"
  using mq_fifo.run_conserves [OF _ assms(2)] assms(1)
  by (simp add: tq_contents_def mk_MessageQueue_def lossless_def queued_def)

section \<open>Concrete instances\<close>

lemma queue_order_and_accounting_witness:
  "\<exists>s. queue_reach (qsys_init 4 kBlock 0 2 5) s \<and> length (accepted s) = 2 \<and> length (delivered s) = 1
     \<and> delivered s @ queued (mq s) = accepted s"
proof -
  let ?moves = "[Move 0 (CallPush (from_string ''ab'') 0), Move 1 (CallPop 0),
      Move 0 (CallPush (from_string ''c'') 0)]"
  have "case run_schedule ?moves (qsys_init 4 kBlock 0 2 5) of None \<Rightarrow> False
    | Some s \<Rightarrow> length (accepted s) = 2 \<and> length (delivered s) = 1" by code_simp
  from schedule_reaches [OF this] show ?thesis
    using queue_order_and_accounting by blast
qed

lemma queue_hwm_bound_witness:
  "\<exists>s. queue_reach (qsys_init 4 kDropOld 0 1 5) s \<and> accepted s \<noteq> []
     \<and> msg_bytes (queued (mq s)) \<le> unat (4 :: u64) + 2"
proof -
  let ?moves = "[Move 0 (CallPush (from_string ''abc'') 0), Move 0 (CallPush (from_string ''def'') 0)]"
  have "case run_schedule ?moves (qsys_init 4 kDropOld 0 1 5) of None \<Rightarrow> False
    | Some s \<Rightarrow> accepted s \<noteq> [] \<and> list_all (\<lambda>m. msg_size m \<le> 3) (accepted s)" by code_simp
  from schedule_reaches [OF this] show ?thesis
    using queue_hwm_bound [of 4 kDropOld 0 1 5 _ 3] by (auto simp: list_all_iff)
qed

lemma consumer_not_stranded_witness:
  "\<exists>s. queue_reach (qsys_init 4 kBlock 0 2 5) s \<and> queue (mq s) = [] \<and> \<not> is_closed (mq s)
     \<and> (\<exists>x\<in>set (qthreads s). pop_sleeper x)"
proof -
  have "case run_schedule [Move 1 (CallPop 0)] (qsys_init 4 kBlock 0 2 5) of None \<Rightarrow> False
    | Some s \<Rightarrow> (\<exists>x\<in>set (qthreads s). pop_sleeper x) \<and> n_woken NotifyOneEmpty (qthreads s) = 0"
    by code_simp
  from schedule_reaches [OF this] show ?thesis
    using consumer_not_stranded by blast
qed

lemma producer_not_stranded_witness:
  "\<exists>s. queue_reach (qsys_init 1 kBlock 0 2 5) s \<and> queue (mq s) \<noteq> [] \<and> \<not> is_closed (mq s)
     \<and> (\<exists>x\<in>set (qthreads s). push_sleeper x)"
proof -
  let ?moves = "[Move 0 (CallPush (from_string ''x'') 0), Move 0 (CallPush (from_string ''y'') 0)]"
  have "case run_schedule ?moves (qsys_init 1 kBlock 0 2 5) of None \<Rightarrow> False
    | Some s \<Rightarrow> (\<exists>x\<in>set (qthreads s). push_sleeper x) \<and> n_woken NotifyOneFull (qthreads s) = 0"
    by code_simp
  from schedule_reaches [OF this] show ?thesis
    using producer_not_stranded by blast
qed

lemma pop_first_live_witness:
  "fst (pop 9 (mk_MessageQueue 4 kBlock 1)) = None"
proof -
  have "queue_inv (mk_MessageQueue 4 kBlock 1)" by code_simp
  from pop_first_live [OF this, of 9] show ?thesis by (simp add: mk_MessageQueue_def)
qed

lemma queue_lifetime_witness:
  "\<exists>s. queue_reach (qsys_init 4 kBlock 1 2 5) s \<and> queue (mq s) \<noteq> []
     \<and> queue (fst (snd (purge_expired (qclock s) (mq s)))) = dropWhile (expired (qclock s)) (queue (mq s))"
proof -
  let ?moves = "[Move 0 (CallPush (from_string ''x'') 0), SetClock 3000000,
      Move 0 (CallPush (from_string ''y'') 0)]"
  have "case run_schedule ?moves (qsys_init 4 kBlock 1 2 5) of None \<Rightarrow> False
    | Some s \<Rightarrow> queue (mq s) \<noteq> []" by code_simp
  from schedule_reaches [OF this] show ?thesis
    using queue_lifetime [of 4 kBlock 1 2 5] by auto
qed

lemma close_then_drain_witness:
  "fst (pops [3, 4] (fst (close (mk_MessageQueue 4 kBlock 0))))
     = replicate 2 (Some (ResErr (closed_status ''queue closed'')))"
proof -
  have "lossless (mk_MessageQueue 4 kBlock 0)" by code_simp
  from close_then_drain [OF this, of 1 "from_string ''x''" "[3, 4]"] show ?thesis
    by (simp add: mk_MessageQueue_def queued_def numeral_2_eq_2)
qed

lemma queue_run_fifo_witness:
  "\<exists>acc del c i q. fifo_run tq_push tq_pop [Enq (from_string ''x''), Deq, Enq (from_string ''y'')]
       (\<lambda>i. int i, 0, mk_MessageQueue 4 kBlock 0) = (acc, del, c, i, q) \<and> del @ queued q = acc"
proof -
  obtain acc del c i q where r: "fifo_run tq_push tq_pop [Enq (from_string ''x''), Deq, Enq (from_string ''y'')]
       (\<lambda>i. int i, 0, mk_MessageQueue 4 kBlock 0) = (acc, del, c, i, q)"
    by (metis surj_pair)
  have "kBlock \<noteq> kDropOld" by simp
  from r queue_run_fifo [OF this r] show ?thesis by blast
qed

end
