(* ===== verification/Duct_Qos.thy ===== *)
theory Duct_Qos
  imports Duct_Options
begin

text \<open>
  \<^verbatim>\<open>include/duct/qos_pipe.h\<close> and \<^verbatim>\<open>src/qos_pipe.cc\<close>: the pipe that queues outgoing messages and
  sends them from a worker thread over an underlying pipe. The underlying pipe is a parameter:
  its state is an abstract value, its \<open>send\<close>, \<open>recv\<close> and \<open>close\<close> are functions on it. The mutex
  is held from the first line of a locked section to its last (also across the underlying
  \<open>send\<close>), so each locked section is one function of the state.
\<close>

section \<open>State and sections of the code\<close>

record QosMessage =
  qmessage :: Message
  timestamp :: time_point

record 'w QosPipe =
  underlying :: 'w
  qos :: QosOptions
  send_queue :: "QosMessage list"
  running :: bool
  send_bytes :: u64
  send_count :: u64

definition mk_QosPipe :: "'w \<Rightarrow> QosOptions \<Rightarrow> 'w QosPipe" where
  "mk_QosPipe w opts =
     \<lparr>underlying = w, qos = opts, send_queue = [], running = True, send_bytes = 0, send_count = 0\<rparr>"

definition too_old :: "time_point \<Rightarrow> QosOptions \<Rightarrow> QosMessage \<Rightarrow> bool" where
  "too_old now opts qm \<longleftrightarrow> now - timestamp qm > ms_to_ns (qos_ttl opts)"

definition can_send_message :: "time_point \<Rightarrow> 'w QosPipe \<Rightarrow> QosMessage \<Rightarrow> bool" where
  "can_send_message now p qm \<longleftrightarrow>
     \<not> (qos_ttl (qos p) > 0 \<and> too_old now (qos p) qm) \<and> send_bytes p < snd_hwm_bytes (qos p)"

text \<open>Remove the front entry and its contribution to the counters.\<close>

definition drop_front :: "'w QosPipe \<Rightarrow> 'w QosPipe" where
  "drop_front p =
     (case send_queue p of
        [] \<Rightarrow> p
      | qm # rest \<Rightarrow> p\<lparr>send_bytes := send_bytes p - size_u64 (qmessage qm),
                       send_count := send_count p - 1, send_queue := rest\<rparr>)"

text \<open>The \<open>remove_if\<close> pass over the queue, which updates the counters as it goes.\<close>

fun remove_expired ::
  "time_point \<Rightarrow> QosOptions \<Rightarrow> QosMessage list \<Rightarrow> u64 \<Rightarrow> u64 \<Rightarrow> QosMessage list \<times> u64 \<times> u64" where
  "remove_expired now opts [] b c = ([], b, c)"
| "remove_expired now opts (qm # qms) b c =
     (if too_old now opts qm then remove_expired now opts qms (b - size_u64 (qmessage qm)) (c - 1)
      else (case remove_expired now opts qms b c of (qms', b', c') \<Rightarrow> (qm # qms', b', c')))"

definition process_expired :: "time_point \<Rightarrow> 'w QosPipe \<Rightarrow> 'w QosPipe" where
  "process_expired now p =
     (if qos_ttl (qos p) > 0 then
        (case remove_expired now (qos p) (send_queue p) (send_bytes p) (send_count p) of
           (qms, b, c) \<Rightarrow> p\<lparr>send_queue := qms, send_bytes := b, send_count := c\<rparr>)
      else p)"

type_synonym 'w pipe_send = "Message \<Rightarrow> SendOptions \<Rightarrow> 'w \<Rightarrow> Status \<times> 'w"

datatype worker_phase = WTop | WWait | WSleep | WDone

text \<open>
  The locked part of one turn of the worker, after its wait: the messages handed to the
  underlying pipe, the new state and where the worker goes next. \<open>now1\<close> is the reading of the
  expiry pass and \<open>now2\<close> the one in \<open>can_send_message\<close>.
\<close>

definition worker_turn ::
  "'w pipe_send \<Rightarrow> time_point \<Rightarrow> time_point \<Rightarrow> 'w QosPipe \<Rightarrow> Message list \<times> 'w QosPipe \<times> worker_phase"
where
  "worker_turn usend now1 now2 p0 =
     (if \<not> running p0 then ([], p0, WDone)
      else
        let p = process_expired now1 p0
        in case send_queue p of
             [] \<Rightarrow> ([], p, WTop)
           | qm # _ \<Rightarrow>
               if can_send_message now2 p qm then
                 (case usend (qmessage qm) SendOptions_default (underlying p) of
                    (st, w') \<Rightarrow>
                      if status_ok st then
                        ([qmessage qm], drop_front (p\<lparr>underlying := w'\<rparr>), WTop)
                      else if code st = kClosed \<or> code st = kIoError then
                        ([], p\<lparr>underlying := w', running := False\<rparr>, WDone)
                      else ([], p\<lparr>underlying := w'\<rparr>, WTop))
               else ([], p, WSleep))"

text \<open>
  \<open>send\<close>: the checks before the lock; \<open>None\<close> when the call goes on to the locked part. The
  locked parts also say which messages they appended.
\<close>

definition send_check :: "Message \<Rightarrow> 'w QosPipe \<Rightarrow> Status option" where
  "send_check msg p =
     (if \<not> running p then Some (closed_status ''pipe closed'')
      else if size_u64 msg > snd_hwm_bytes (qos p) then
        Some (invalid_argument ''message too large for queue limits'')
      else None)"

definition send_enqueue :: "time_point \<Rightarrow> Message \<Rightarrow> 'w QosPipe \<Rightarrow> Status option \<times> Message list \<times> 'w QosPipe" where
  "send_enqueue now msg p =
     (Some Status_Ok, [msg],
      p\<lparr>send_queue := send_queue p @ [\<lparr>qmessage = msg, timestamp = now\<rparr>],
        send_bytes := send_bytes p + size_u64 msg, send_count := send_count p + 1\<rparr>)"

definition at_limit :: "'w QosPipe \<Rightarrow> bool" where
  "at_limit p \<longleftrightarrow> send_bytes p \<ge> snd_hwm_bytes (qos p)"

text \<open>What follows the timed wait of \<open>kBlock\<close>, whether its condition held or the time ran out.\<close>

definition send_after_wait :: "time_point \<Rightarrow> Message \<Rightarrow> 'w QosPipe \<Rightarrow> Status option \<times> Message list \<times> 'w QosPipe" where
  "send_after_wait now msg p =
     (if at_limit p then (Some (timeout_status ''send queue full (timeout)''), [], p)
      else send_enqueue now msg p)"

text \<open>The locked part of \<open>send\<close>; \<open>None\<close> when the caller now waits.\<close>

definition send_locked :: "time_point \<Rightarrow> Message \<Rightarrow> 'w QosPipe \<Rightarrow> Status option \<times> Message list \<times> 'w QosPipe" where
  "send_locked now msg p =
     (if at_limit p then
        (case backpressure (qos p) of
           kFailFast \<Rightarrow> (Some (io_error ''send queue at high water mark (fail fast)''), [], p)
         | kDropNew \<Rightarrow> (Some Status_Ok, [], p)
         | kDropOld \<Rightarrow> send_enqueue now msg (drop_front p)
         | kBlock \<Rightarrow>
             if \<not> at_limit p \<or> \<not> running p then send_after_wait now msg p else (None, [], p))
      else send_enqueue now msg p)"

definition qos_recv ::
  "(RecvOptions \<Rightarrow> 'w \<Rightarrow> Message Result \<times> 'w) \<Rightarrow> RecvOptions \<Rightarrow> 'w QosPipe \<Rightarrow> Message Result \<times> 'w QosPipe"
where
  "qos_recv urecv opt p = (case urecv opt (underlying p) of (r, w') \<Rightarrow> (r, p\<lparr>underlying := w'\<rparr>))"

definition qos_close :: "('w \<Rightarrow> 'w) \<Rightarrow> 'w QosPipe \<Rightarrow> 'w QosPipe" where
  "qos_close uclose p = p\<lparr>running := False, underlying := uclose (underlying p)\<rparr>"

section \<open>Threads\<close>

text \<open>
  The threads calling \<open>send\<close>, the worker, and the environment, which may change the underlying
  pipe at any time (the peer, and \<open>recv\<close> calls). Waits may end at any time as far as their
  conditions allow. Ghost lists record what \<open>send\<close> queued and what the worker transmitted.
\<close>

datatype sender = SOut | SChecked Message | SWait Message

record 'w qos_sys =
  pipe_of :: "'w QosPipe"
  senders :: "sender list"
  worker :: worker_phase
  queued_log :: "Message list"
  sent_log :: "Message list"

definition queued_now :: "'w QosPipe \<Rightarrow> Message list" where
  "queued_now p = map qmessage (send_queue p)"

text \<open>Where a locked part of \<open>send\<close> leaves its caller.\<close>

definition sender_after :: "Message \<Rightarrow> Status option \<Rightarrow> sender" where
  "sender_after msg r = (case r of None \<Rightarrow> SWait msg | Some _ \<Rightarrow> SOut)"

inductive qos_step ::
  "'w pipe_send \<Rightarrow> ('w \<Rightarrow> 'w) \<Rightarrow> 'w qos_sys \<Rightarrow> 'w qos_sys \<Rightarrow> bool"
  for usend :: "'w pipe_send" and uclose :: "'w \<Rightarrow> 'w" where
  call_send: "i < length (senders s) \<Longrightarrow> senders s ! i = SOut \<Longrightarrow>
    send_check msg (pipe_of s) = r \<Longrightarrow>
    qos_step usend uclose s
      (s\<lparr>senders := (senders s)[i := (case r of None \<Rightarrow> SChecked msg | Some _ \<Rightarrow> SOut)]\<rparr>)"
| locked_send: "i < length (senders s) \<Longrightarrow> senders s ! i = SChecked msg \<Longrightarrow>
    send_locked now msg (pipe_of s) = (r, acc, p') \<Longrightarrow>
    qos_step usend uclose s
      (s\<lparr>pipe_of := p', senders := (senders s)[i := sender_after msg r],
         queued_log := queued_log s @ acc\<rparr>)"
| wait_over: "i < length (senders s) \<Longrightarrow> senders s ! i = SWait msg \<Longrightarrow>
    send_after_wait now msg (pipe_of s) = (r, acc, p') \<Longrightarrow>
    qos_step usend uclose s
      (s\<lparr>pipe_of := p', senders := (senders s)[i := sender_after msg r],
         queued_log := queued_log s @ acc\<rparr>)"
| worker_top: "worker s = WTop \<Longrightarrow>
    qos_step usend uclose s (s\<lparr>worker := (if running (pipe_of s) then WWait else WDone)\<rparr>)"
| worker_woken: "worker s = WWait \<Longrightarrow>
    send_queue (pipe_of s) \<noteq> [] \<or> \<not> running (pipe_of s) \<Longrightarrow>
    worker_turn usend now1 now2 (pipe_of s) = (out, p', ph) \<Longrightarrow>
    qos_step usend uclose s
      (s\<lparr>pipe_of := p', worker := ph, sent_log := sent_log s @ out\<rparr>)"
| worker_slept: "worker s = WSleep \<Longrightarrow> qos_step usend uclose s (s\<lparr>worker := WTop\<rparr>)"
| close_call: "qos_step usend uclose s (s\<lparr>pipe_of := qos_close uclose (pipe_of s)\<rparr>)"
| environment: "qos_step usend uclose s (s\<lparr>pipe_of := (pipe_of s)\<lparr>underlying := w'\<rparr>\<rparr>)"

definition qos_init :: "'w \<Rightarrow> QosOptions \<Rightarrow> nat \<Rightarrow> 'w qos_sys" where
  "qos_init w opts n =
     \<lparr>pipe_of = mk_QosPipe w opts, senders = replicate n SOut, worker = WTop,
      queued_log = [], sent_log = []\<rparr>"

section \<open>Accounting and order\<close>

definition qos_inv :: "'w QosPipe \<Rightarrow> bool" where
  "qos_inv p \<longleftrightarrow> send_bytes p = of_nat (msg_bytes (queued_now p))
     \<and> send_count p = of_nat (length (send_queue p))"

text \<open>Options under which no queued message is ever discarded.\<close>

definition keeps_all :: "QosOptions \<Rightarrow> bool" where
  "keeps_all opts \<longleftrightarrow> qos_ttl opts \<le> 0 \<and> backpressure opts \<noteq> kDropOld"

definition qos_effect :: "Message list \<Rightarrow> Message list \<Rightarrow> 'w QosPipe \<Rightarrow> 'w QosPipe \<Rightarrow> bool" where
  "qos_effect ins outs p p' \<longleftrightarrow>
     (qos_inv p \<longrightarrow> qos_inv p') \<and> qos p' = qos p
     \<and> subseq (outs @ queued_now p') (queued_now p @ ins)
     \<and> (keeps_all (qos p) \<longrightarrow> outs @ queued_now p' = queued_now p @ ins)"

lemma queued_now_simps [simp]:
  "queued_now (p\<lparr>underlying := w\<rparr>) = queued_now p" "queued_now (p\<lparr>running := r\<rparr>) = queued_now p"
  "queued_now (p\<lparr>send_bytes := b\<rparr>) = queued_now p" "queued_now (p\<lparr>send_count := c\<rparr>) = queued_now p"
  "queued_now (p\<lparr>send_queue := qs\<rparr>) = map qmessage qs"
  by (simp_all add: queued_now_def)

lemma qos_inv_simps [simp]:
  "qos_inv (p\<lparr>underlying := w\<rparr>) = qos_inv p" "qos_inv (p\<lparr>running := r\<rparr>) = qos_inv p"
  by (simp_all add: qos_inv_def)

lemma qos_effect_refl [simp, intro]: "qos_effect [] [] p p"
  by (simp add: qos_effect_def)

lemma send_enqueue_effect:
  "send_enqueue now msg p = (r, acc, p') \<Longrightarrow> qos_effect acc [] p p'"
  by (auto simp: send_enqueue_def qos_effect_def qos_inv_def queued_now_def size_u64_def)

lemma drop_front_frame [simp]:
  "qos (drop_front p) = qos p" "running (drop_front p) = running p"
  "underlying (drop_front p) = underlying p" "send_queue (drop_front p) = tl (send_queue p)"
  by (simp_all add: drop_front_def split: list.splits)

lemma drop_front_inv: "qos_inv p \<Longrightarrow> qos_inv (drop_front p)"
  by (auto simp: drop_front_def qos_inv_def queued_now_def size_u64_def split: list.splits)

lemma send_after_wait_effect:
  "send_after_wait now msg p = (r, acc, p') \<Longrightarrow> qos_effect acc [] p p'"
  by (auto simp: send_after_wait_def split: if_splits dest: send_enqueue_effect)

lemma drop_then_enqueue_effect:
  assumes "send_enqueue now msg (drop_front p) = (r, acc, p')" "backpressure (qos p) = kDropOld"
  shows "qos_effect acc [] p p'"
proof -
  have "subseq (map qmessage (tl (send_queue p)) @ [msg]) (map qmessage (send_queue p) @ [msg])"
    by (cases "send_queue p") (auto intro: list_emb_append_mono)
  with assms drop_front_inv [of p] send_enqueue_effect [OF assms(1)] show ?thesis
    by (auto simp: qos_effect_def keeps_all_def send_enqueue_def queued_now_def)
qed

lemma send_locked_effect:
  "send_locked now msg p = (r, acc, p') \<Longrightarrow> qos_effect acc [] p p'"
  by (auto simp: send_locked_def split: if_splits BackpressurePolicy.splits
      dest: send_enqueue_effect send_after_wait_effect drop_then_enqueue_effect)

lemma remove_expired_eq:
  "remove_expired now opts qms b c =
     (filter (\<lambda>qm. \<not> too_old now opts qm) qms,
      b - of_nat (msg_bytes (map qmessage (filter (too_old now opts) qms))),
      c - of_nat (length (filter (too_old now opts) qms)))"
  by (induction qms arbitrary: b c) (auto simp: size_u64_def algebra_simps split: prod.splits)

lemma process_expired_frame [simp]:
  "qos (process_expired now p) = qos p" "running (process_expired now p) = running p"
  "underlying (process_expired now p) = underlying p"
  by (simp_all add: process_expired_def split: prod.splits)

lemma process_expired_effect: "qos_effect [] [] p (process_expired now p)"
proof (cases "qos_ttl (qos p) > 0")
  case True
  have "msg_bytes (map qmessage qms) = msg_bytes (map qmessage (filter P qms))
      + msg_bytes (map qmessage (filter (\<lambda>x. \<not> P x) qms))" for P qms
    by (induction qms) simp_all
  from this [of "send_queue p" "too_old now (qos p)"]
  have "(of_nat (msg_bytes (map qmessage (send_queue p))) :: u64)
        - of_nat (msg_bytes (map qmessage (filter (too_old now (qos p)) (send_queue p))))
      = of_nat (msg_bytes (map qmessage (filter (\<lambda>x. \<not> too_old now (qos p) x) (send_queue p))))"
    by simp
  moreover have "(of_nat (length (send_queue p)) :: u64) - of_nat (length (filter (too_old now (qos p)) (send_queue p)))
      = of_nat (length (filter (\<lambda>x. \<not> too_old now (qos p) x) (send_queue p)))"
    by (subst sum_length_filter_compl [of "too_old now (qos p)" "send_queue p", symmetric]) simp
  ultimately show ?thesis using True
    by (auto simp: process_expired_def remove_expired_eq qos_effect_def qos_inv_def queued_now_def
        keeps_all_def subseq_map)
qed (simp add: process_expired_def)

lemma sent_front_effect:
  assumes "qos_effect [] [] p q" "send_queue q = qm # rest"
  shows "qos_effect [] [qmessage qm] p (drop_front (q\<lparr>underlying := w\<rparr>))"
  using assms drop_front_inv [of "q\<lparr>underlying := w\<rparr>"]
  by (auto simp: qos_effect_def queued_now_def)

lemma qos_effect_state [simp]:
  "qos_effect i d p (q\<lparr>underlying := w\<rparr>) = qos_effect i d p q"
  "qos_effect i d p (q\<lparr>running := r\<rparr>) = qos_effect i d p q"
  by (simp_all add: qos_effect_def)

lemma worker_turn_effect:
  "worker_turn usend now1 now2 p = (out, p', ph) \<Longrightarrow> qos_effect [] out p p'"
  using process_expired_effect [of p now1]
  by (auto simp: worker_turn_def Let_def split: if_splits list.splits prod.splits
      intro: sent_front_effect)

lemma qos_close_effect: "qos_effect [] [] p (qos_close uclose p)"
  by (simp add: qos_close_def)

text \<open>What every step adds to the two logs.\<close>

lemma qos_step_effect:
  assumes "qos_step usend uclose s s'"
  shows "\<exists>i d. queued_log s' = queued_log s @ i \<and> sent_log s' = sent_log s @ d
     \<and> qos_effect i d (pipe_of s) (pipe_of s')"
  using assms
  by (cases rule: qos_step.cases)
    (auto dest: send_locked_effect send_after_wait_effect worker_turn_effect
      simp: qos_close_effect)

definition qos_history_inv :: "QosOptions \<Rightarrow> 'w qos_sys \<Rightarrow> bool" where
  "qos_history_inv opts s \<longleftrightarrow>
     qos_inv (pipe_of s) \<and> qos (pipe_of s) = opts
     \<and> subseq (sent_log s @ queued_now (pipe_of s)) (queued_log s)
     \<and> (keeps_all opts \<longrightarrow> sent_log s @ queued_now (pipe_of s) = queued_log s)"

lemma qos_history_inv_init: "qos_history_inv opts (qos_init w opts n)"
  by (simp add: qos_history_inv_def qos_init_def mk_QosPipe_def qos_inv_def queued_now_def)

lemma qos_history_inv_step:
  assumes "qos_step usend uclose s s'" "qos_history_inv opts s"
  shows "qos_history_inv opts s'"
proof -
  obtain i d where id: "queued_log s' = queued_log s @ i" "sent_log s' = sent_log s @ d"
    "qos_effect i d (pipe_of s) (pipe_of s')"
    using qos_step_effect [OF assms(1)] by blast
  have "subseq (sent_log s @ (d @ queued_now (pipe_of s'))) (sent_log s @ (queued_now (pipe_of s) @ i))"
    by (rule list_emb_append_mono) (use id(3) in \<open>simp_all add: qos_effect_def\<close>)
  moreover have "subseq ((sent_log s @ queued_now (pipe_of s)) @ i) (queued_log s @ i)"
    by (rule list_emb_append_mono) (use assms(2) in \<open>simp_all add: qos_history_inv_def\<close>)
  ultimately have "subseq (sent_log s' @ queued_now (pipe_of s')) (queued_log s')"
    using id subseq_order.order_trans by fastforce
  with assms(2) id show ?thesis by (auto simp: qos_history_inv_def qos_effect_def)
qed

lemma qos_history_inv_reach:
  "(qos_step usend uclose)\<^sup>*\<^sup>* (qos_init w opts n) s \<Longrightarrow> qos_history_inv opts s"
  by (induction rule: rtranclp_induct) (auto intro: qos_history_inv_init qos_history_inv_step)

section \<open>The limit\<close>

text \<open>
  With every policy but \<open>kDropOld\<close> a message is appended only below the limit, and no message is
  larger than the limit, so less than twice the limit is ever queued.
\<close>

fun sender_fits :: "u64 \<Rightarrow> sender \<Rightarrow> bool" where
  "sender_fits h SOut = True"
| "sender_fits h (SChecked m) = (size_u64 m \<le> h)"
| "sender_fits h (SWait m) = (size_u64 m \<le> h)"

definition checked_fit :: "'w qos_sys \<Rightarrow> bool" where
  "checked_fit s \<longleftrightarrow> (\<forall>x\<in>set (senders s). sender_fits (snd_hwm_bytes (qos (pipe_of s))) x)"

lemma checked_fit_update:
  assumes "checked_fit s" "qos p' = qos (pipe_of s)" "sender_fits (snd_hwm_bytes (qos p')) x"
  shows "checked_fit (s\<lparr>pipe_of := p', senders := (senders s)[i := x], queued_log := ql\<rparr>)"
  using assms set_update_subset_insert [of "senders s" i x] by (auto simp: checked_fit_def)

lemma send_check_fit:
  "send_check msg p = None \<Longrightarrow> size_u64 msg \<le> snd_hwm_bytes (qos p)"
  by (auto simp: send_check_def split: if_splits)

lemma checked_fitD:
  "checked_fit s \<Longrightarrow> i < length (senders s) \<Longrightarrow> senders s ! i = SChecked m \<or> senders s ! i = SWait m \<Longrightarrow>
   size_u64 m \<le> snd_hwm_bytes (qos (pipe_of s))"
  by (metis checked_fit_def nth_mem sender_fits.simps(2,3))

lemma checked_fit_step:
  assumes "qos_step usend uclose s s'" "checked_fit s"
  shows "checked_fit s'"
  using assms(1)
proof (cases rule: qos_step.cases)
  case (call_send i msg r)
  have "checked_fit (s\<lparr>pipe_of := pipe_of s,
      senders := (senders s)[i := (case r of None \<Rightarrow> SChecked msg | Some _ \<Rightarrow> SOut)],
      queued_log := queued_log s\<rparr>)"
    by (rule checked_fit_update [OF assms(2)])
      (use call_send send_check_fit [of msg "pipe_of s"] in \<open>auto split: option.splits\<close>)
  with call_send show ?thesis by simp
next
  case (locked_send i msg now r acc p')
  show ?thesis unfolding locked_send(1)
    by (rule checked_fit_update [OF assms(2)])
      (use locked_send checked_fitD [OF assms(2)] send_locked_effect [OF locked_send(4)]
        in \<open>auto simp: sender_after_def qos_effect_def split: option.splits\<close>)
next
  case (wait_over i msg now r acc p')
  show ?thesis unfolding wait_over(1)
    by (rule checked_fit_update [OF assms(2)])
      (use wait_over checked_fitD [OF assms(2)] send_after_wait_effect [OF wait_over(4)]
        in \<open>auto simp: sender_after_def qos_effect_def split: option.splits\<close>)
next
  case (worker_woken now1 now2 out p' ph)
  from worker_turn_effect [OF worker_woken(4)] have "qos p' = qos (pipe_of s)"
    by (simp add: qos_effect_def)
  with assms(2) worker_woken(1) show ?thesis by (simp add: checked_fit_def)
qed (use assms(2) in \<open>simp_all add: checked_fit_def qos_close_def\<close>)

text \<open>A message is appended only below the limit.\<close>

lemma appended_below_limit:
  assumes "backpressure (qos p) \<noteq> kDropOld"
  shows "send_locked now msg p = (r, acc, p') \<Longrightarrow>
      acc = [] \<and> queued_now p' = queued_now p
      \<or> acc = [msg] \<and> \<not> at_limit p \<and> queued_now p' = queued_now p @ [msg]"
    and "send_after_wait now msg p = (r, acc, p') \<Longrightarrow>
      acc = [] \<and> queued_now p' = queued_now p
      \<or> acc = [msg] \<and> \<not> at_limit p \<and> queued_now p' = queued_now p @ [msg]"
  using assms
  by (auto simp: send_locked_def send_after_wait_def send_enqueue_def queued_now_def
      split: if_splits BackpressurePolicy.splits)

lemma qos_step_appends:
  assumes "qos_step usend uclose s s'" "checked_fit s" "backpressure (qos (pipe_of s)) \<noteq> kDropOld"
  shows "(queued_log s' = queued_log s \<and> msg_bytes (queued_now (pipe_of s')) \<le> msg_bytes (queued_now (pipe_of s)))
    \<or> (\<exists>m. queued_log s' = queued_log s @ [m] \<and> queued_now (pipe_of s') = queued_now (pipe_of s) @ [m]
         \<and> \<not> at_limit (pipe_of s) \<and> size_u64 m \<le> snd_hwm_bytes (qos (pipe_of s)))"
  using assms(1)
proof (cases rule: qos_step.cases)
  case (locked_send i msg now r acc p')
  with appended_below_limit(1) [OF assms(3) locked_send(4)] checked_fitD [OF assms(2), of i msg]
  show ?thesis by auto
next
  case (wait_over i msg now r acc p')
  with appended_below_limit(2) [OF assms(3) wait_over(4)] checked_fitD [OF assms(2), of i msg]
  show ?thesis by auto
next
  case (worker_woken now1 now2 out p' ph)
  from worker_turn_effect [OF worker_woken(4)]
  have "subseq (out @ queued_now p') (queued_now (pipe_of s))" by (simp add: qos_effect_def)
  from msg_bytes_subseq [OF this] worker_woken show ?thesis by simp
qed (simp_all add: qos_close_def)

definition within_twice :: "'w qos_sys \<Rightarrow> bool" where
  "within_twice s \<longleftrightarrow> checked_fit s \<and>
     ((\<forall>m\<in>set (queued_log s). msg_size m < 2 ^ 64) \<longrightarrow>
        msg_bytes (queued_now (pipe_of s)) \<le> 2 * unat (snd_hwm_bytes (qos (pipe_of s))) - 1)"

lemma within_twice_step:
  assumes "qos_step usend uclose s s'" "within_twice s" "qos_history_inv opts s"
    and "backpressure opts \<noteq> kDropOld" "2 * unat (snd_hwm_bytes opts) < 2 ^ 64"
  shows "within_twice s'"
proof -
  let ?p = "pipe_of s" and ?h = "unat (snd_hwm_bytes opts)"
  have q: "qos ?p = opts" "qos (pipe_of s') = opts" "send_bytes ?p = of_nat (msg_bytes (queued_now ?p))"
    using assms(3) qos_history_inv_step [OF assms(1,3)] by (auto simp: qos_history_inv_def qos_inv_def)
  have fit: "checked_fit s" using assms(2) by (simp add: within_twice_def)
  have "msg_bytes (queued_now (pipe_of s')) \<le> 2 * ?h - 1"
    if sizes: "\<forall>m\<in>set (queued_log s'). msg_size m < 2 ^ 64"
    using qos_step_appends [OF assms(1) fit, unfolded q(1), OF assms(4)]
  proof (elim disjE conjE exE)
    fix m
    assume m: "queued_log s' = queued_log s @ [m]" "queued_now (pipe_of s') = queued_now ?p @ [m]"
      "\<not> at_limit ?p" "size_u64 m \<le> snd_hwm_bytes opts"
    have b: "msg_bytes (queued_now ?p) \<le> 2 * ?h - 1"
      using assms(2) sizes m(1) q by (simp add: within_twice_def)
    then have "msg_bytes (queued_now ?p) < ?h"
      using m(3) q assms(5) by (simp add: at_limit_def word_le_nat_alt unat_of_nat_small)
    moreover have "msg_size m \<le> ?h"
      using m(4) q sizes m(1) by (simp add: size_u64_def word_le_nat_alt unat_of_nat_small)
    ultimately show ?thesis using m(2) by simp
  qed (use assms(2,4) sizes q in \<open>auto simp: within_twice_def\<close>)
  with checked_fit_step [OF assms(1) fit] q show ?thesis by (simp add: within_twice_def)
qed

lemma within_twice_init: "within_twice (qos_init w opts n)"
  by (simp add: within_twice_def checked_fit_def qos_init_def mk_QosPipe_def queued_now_def)

lemma within_twice_reach:
  "(qos_step usend uclose)\<^sup>*\<^sup>* (qos_init w opts n) s \<Longrightarrow> backpressure opts \<noteq> kDropOld \<Longrightarrow>
   2 * unat (snd_hwm_bytes opts) < 2 ^ 64 \<Longrightarrow> within_twice s"
  by (induction rule: rtranclp_induct)
    (auto intro: within_twice_init within_twice_step qos_history_inv_reach)

section \<open>What happens at the limit, and after \<open>close\<close>\<close>

text \<open>
  \<open>can_send_message\<close> counts the queued message itself, so once the queue has reached the limit
  the worker does not send; without a lifetime and without \<open>kDropOld\<close> nothing else ever shrinks
  the queue.
\<close>

definition stalled :: "'w QosPipe \<Rightarrow> bool" where
  "stalled p \<longleftrightarrow> at_limit p \<and> keeps_all (qos p)"

lemma stalled_send:
  "stalled p \<Longrightarrow> send_locked now msg p = (r, acc, p') \<Longrightarrow> acc = [] \<and> p' = p"
  "stalled p \<Longrightarrow> send_after_wait now msg p = (r, acc, p') \<Longrightarrow> acc = [] \<and> p' = p"
  by (auto simp: stalled_def keeps_all_def send_locked_def send_after_wait_def
      split: if_splits BackpressurePolicy.splits)

lemma stalled_worker:
  "stalled p \<Longrightarrow> worker_turn usend now1 now2 p = (out, p', ph) \<Longrightarrow> out = [] \<and> p' = p"
  by (auto simp: stalled_def keeps_all_def at_limit_def worker_turn_def Let_def process_expired_def
      can_send_message_def split: if_splits list.splits)

lemma stalled_state [simp]:
  "stalled (p\<lparr>underlying := w\<rparr>) = stalled p" "stalled (p\<lparr>running := r\<rparr>) = stalled p"
  by (simp_all add: stalled_def at_limit_def)

lemma stalled_step:
  assumes "qos_step usend uclose s s'" "stalled (pipe_of s)"
  shows "stalled (pipe_of s') \<and> sent_log s' = sent_log s
     \<and> send_queue (pipe_of s') = send_queue (pipe_of s)"
  using assms
  by (cases rule: qos_step.cases)
    (auto simp: qos_close_def dest: stalled_send stalled_worker)

lemma stalled_forever:
  assumes "(qos_step usend uclose)\<^sup>*\<^sup>* s s'" "stalled (pipe_of s)"
  shows "stalled (pipe_of s') \<and> sent_log s' = sent_log s
     \<and> send_queue (pipe_of s') = send_queue (pipe_of s)"
  using assms(1) by (induction rule: rtranclp_induct) (auto simp: assms(2) dest: stalled_step)

lemma stopped_step:
  assumes "qos_step usend uclose s s'" "\<not> running (pipe_of s)"
  shows "\<not> running (pipe_of s') \<and> sent_log s' = sent_log s"
  using assms
  by (cases rule: qos_step.cases)
    (auto simp: qos_close_def worker_turn_def send_locked_def send_after_wait_def send_enqueue_def
      split: if_splits BackpressurePolicy.splits)

lemma stopped_forever:
  assumes "(qos_step usend uclose)\<^sup>*\<^sup>* s s'" "\<not> running (pipe_of s)"
  shows "\<not> running (pipe_of s') \<and> sent_log s' = sent_log s"
  using assms(1) by (induction rule: rtranclp_induct) (auto simp: assms(2) dest: stopped_step)

text \<open>A message the underlying pipe never accepts stays in front, and nothing passes it.\<close>

definition refused :: "'w pipe_send \<Rightarrow> QosMessage \<Rightarrow> 'w QosPipe \<Rightarrow> bool" where
  "refused usend qm p \<longleftrightarrow> keeps_all (qos p) \<and> (\<exists>rest. send_queue p = qm # rest)
     \<and> (\<forall>u. \<not> status_ok (fst (usend (qmessage qm) SendOptions_default u)))"

lemma refused_send:
  "refused usend qm p \<Longrightarrow> send_locked now msg p = (r, acc, p') \<Longrightarrow> refused usend qm p'"
  "refused usend qm p \<Longrightarrow> send_after_wait now msg p = (r, acc, p') \<Longrightarrow> refused usend qm p'"
  by (auto simp: refused_def keeps_all_def send_locked_def send_after_wait_def send_enqueue_def
      split: if_splits BackpressurePolicy.splits)

lemma refused_worker:
  assumes "refused usend qm p" "worker_turn usend now1 now2 p = (out, p', ph)"
  shows "out = [] \<and> refused usend qm p'"
proof -
  have same: "process_expired now1 p = p" using assms(1) by (simp add: refused_def keeps_all_def process_expired_def)
  obtain st u where "usend (qmessage qm) SendOptions_default (underlying p) = (st, u)" by force
  moreover from this have "\<not> status_ok st" using assms(1) unfolding refused_def by (metis fst_conv)
  ultimately show ?thesis
    using assms same by (auto simp: worker_turn_def refused_def split: if_splits)
qed

lemma refused_state [simp]:
  "refused usend qm (p\<lparr>underlying := w\<rparr>) = refused usend qm p" "refused usend qm (p\<lparr>running := r\<rparr>) = refused usend qm p"
  by (simp_all add: refused_def)

lemma refused_step:
  assumes "qos_step usend uclose s s'" "refused usend qm (pipe_of s)"
  shows "refused usend qm (pipe_of s') \<and> sent_log s' = sent_log s"
  using assms
  by (cases rule: qos_step.cases) (auto simp: qos_close_def dest: refused_send refused_worker)

lemma refused_forever:
  assumes "(qos_step usend uclose)\<^sup>*\<^sup>* s s'" "refused usend qm (pipe_of s)"
  shows "refused usend qm (pipe_of s') \<and> sent_log s' = sent_log s"
  using assms(1) by (induction rule: rtranclp_induct) (auto simp: assms(2) dest: refused_step)

section \<open>A whole call\<close>

text \<open>\<open>send\<close> when no other thread intervenes between its checks and its locked part.\<close>

definition qos_send :: "time_point \<Rightarrow> Message \<Rightarrow> 'w QosPipe \<Rightarrow> Status option \<times> Message list \<times> 'w QosPipe" where
  "qos_send now msg p =
     (case send_check msg p of Some st \<Rightarrow> (Some st, [], p) | None \<Rightarrow> send_locked now msg p)"

lemmas qos_send_eval =
  qos_send_def send_check_def send_locked_def send_enqueue_def at_limit_def size_u64_def
  drop_front_def word_le_nat_alt word_less_nat_alt

lemma pipe_update_same [simp]: "pipe_of s = p \<Longrightarrow> s\<lparr>pipe_of := p\<rparr> = s"
  by (cases s) simp

lemma qos_send_reach:
  assumes "i < length (senders s)" "senders s ! i = SOut"
    and "qos_send now msg (pipe_of s) = (Some st, acc, p')"
  shows "(qos_step usend uclose)\<^sup>*\<^sup>* s (s\<lparr>pipe_of := p', queued_log := queued_log s @ acc\<rparr>)"
proof (cases "send_check msg (pipe_of s)")
  case (Some a)
  with assms show ?thesis by (simp add: qos_send_def)
next
  case None
  let ?t = "s\<lparr>senders := (senders s)[i := SChecked msg]\<rparr>"
  have "(senders s)[i := SOut] = senders s" using assms(2) by (metis list_update_id)
  then have same: "s\<lparr>pipe_of := p', senders := (senders s)[i := SOut], queued_log := q\<rparr>
      = s\<lparr>pipe_of := p', queued_log := q\<rparr>" for q by (cases s) simp
  have "qos_step usend uclose s ?t"
    using call_send [OF assms(1,2), of msg "None"] None by simp
  moreover have "qos_step usend uclose ?t (s\<lparr>pipe_of := p', queued_log := queued_log s @ acc\<rparr>)"
    using locked_send [of i ?t msg now "Some st" acc p' usend uclose] None assms same
    by (simp add: qos_send_def sender_after_def)
  ultimately show ?thesis by (meson converse_rtranclp_into_rtranclp r_into_rtranclp)
qed

text \<open>A sequence of calls by one thread while the worker has not come to run.\<close>

fun qos_sends :: "time_point \<Rightarrow> Message list \<Rightarrow> 'w QosPipe \<Rightarrow> (Message list \<times> 'w QosPipe) option" where
  "qos_sends now [] p = Some ([], p)"
| "qos_sends now (m # ms) p =
     (case qos_send now m p of
        (None, _, _) \<Rightarrow> None
      | (Some st, acc, p') \<Rightarrow> map_option (\<lambda>(acc', q). (acc @ acc', q)) (qos_sends now ms p'))"

lemma qos_sends_reach:
  "i < length (senders s) \<Longrightarrow> senders s ! i = SOut \<Longrightarrow> qos_sends now ms (pipe_of s) = Some (acc, p') \<Longrightarrow>
   (qos_step usend uclose)\<^sup>*\<^sup>* s (s\<lparr>pipe_of := p', queued_log := queued_log s @ acc\<rparr>)"
proof (induction ms arbitrary: s acc)
  case (Cons m ms)
  then obtain st acc1 acc2 p1 where c: "qos_send now m (pipe_of s) = (Some st, acc1, p1)"
    "qos_sends now ms p1 = Some (acc2, p')" "acc = acc1 @ acc2"
    by (auto split: option.splits prod.splits)
  let ?t = "s\<lparr>pipe_of := p1, queued_log := queued_log s @ acc1\<rparr>"
  have "(qos_step usend uclose)\<^sup>*\<^sup>* s ?t"
    using qos_send_reach [OF Cons.prems(1,2) c(1)] .
  also have "(qos_step usend uclose)\<^sup>*\<^sup>* ?t (s\<lparr>pipe_of := p', queued_log := queued_log s @ acc\<rparr>)"
    using Cons.IH [of ?t acc2] Cons.prems c by simp
  finally show ?case .
qed simp

section \<open>Properties of the QoS pipe\<close>

text \<open>
  In every state reachable by any interleaving of senders, worker, \<open>close\<close> and the
  environment, the byte and message counters agree with the queue, what was transmitted followed
  by what is queued is in order contained in what \<open>send\<close> queued, and nothing is lost unless a
  lifetime or \<open>kDropOld\<close> is configured.
\<close>

theorem qos_order_and_accounting:
  assumes "(qos_step usend uclose)\<^sup>*\<^sup>* (qos_init w opts n) s"
  shows "send_bytes (pipe_of s) = of_nat (msg_bytes (queued_now (pipe_of s)))
     \<and> send_count (pipe_of s) = of_nat (length (send_queue (pipe_of s)))
     \<and> subseq (sent_log s @ queued_now (pipe_of s)) (queued_log s)
     \<and> (qos_ttl opts \<le> 0 \<longrightarrow> backpressure opts \<noteq> kDropOld \<longrightarrow>
          sent_log s @ queued_now (pipe_of s) = queued_log s)"
  using qos_history_inv_reach [OF assms] by (simp add: qos_history_inv_def qos_inv_def keeps_all_def)

text \<open>
  With every policy but \<open>kDropOld\<close> fewer than twice \<open>snd_hwm_bytes\<close> bytes are queued in every
  reachable state.
\<close>

theorem qos_queue_bound:
  assumes "(qos_step usend uclose)\<^sup>*\<^sup>* (qos_init w opts n) s" "backpressure opts \<noteq> kDropOld"
    and "2 * unat (snd_hwm_bytes opts) < 2 ^ 64" "\<forall>m\<in>set (queued_log s). msg_size m < 2 ^ 64"
  shows "msg_bytes (queued_now (pipe_of s)) \<le> 2 * unat (snd_hwm_bytes opts) - 1"
  using within_twice_reach [OF assms(1-3)] assms(4) qos_history_inv_reach [OF assms(1)]
  by (simp add: within_twice_def qos_history_inv_def)

text \<open>
  Under \<open>kDropOld\<close> there is no such bound: only one old message is dropped for a new one of
  any size. With a limit of 3 bytes a state with 9 queued bytes is reachable.
\<close>

theorem qos_drop_old_exceeds:
  "\<exists>s. (qos_step usend uclose)\<^sup>*\<^sup>*
        (qos_init w (QosOptions_default\<lparr>snd_hwm_bytes := 3, backpressure := kDropOld\<rparr>) 1) s
     \<and> msg_bytes (queued_now (pipe_of s)) = 9"
proof -
  let ?o = "QosOptions_default\<lparr>snd_hwm_bytes := 3, backpressure := kDropOld\<rparr>"
  let ?ms = "map from_string [''x'', ''y'', ''z'', ''abc'', ''def'', ''ghi'']"
  have "\<exists>acc p. qos_sends 1 ?ms (mk_QosPipe w ?o) = Some (acc, p) \<and> msg_bytes (queued_now p) = 9"
    by (simp add: qos_send_eval mk_QosPipe_def QosOptions_default_def from_string_def queued_now_def)
  then obtain acc p where "qos_sends 1 ?ms (mk_QosPipe w ?o) = Some (acc, p)"
    "msg_bytes (queued_now p) = 9" by blast
  with qos_sends_reach [of 0 "qos_init w ?o 1" 1 ?ms acc p usend uclose] show ?thesis
    by (fastforce simp: qos_init_def)
qed


text \<open>
  After \<open>close\<close> (or after the worker gave up on a closed or failing pipe) no queued message is
  transmitted any more, whatever \<open>linger\<close> says, and the worker is done after at most two steps of
  its own.
\<close>

theorem qos_close_stops_worker:
  assumes "\<not> running (pipe_of s)" "(qos_step usend uclose)\<^sup>*\<^sup>* s s'"
  shows "sent_log s' = sent_log s \<and> \<not> running (pipe_of s')
     \<and> (worker s' = WSleep \<longrightarrow> qos_step usend uclose s' (s'\<lparr>worker := WTop\<rparr>))
     \<and> (worker s' = WTop \<longrightarrow> qos_step usend uclose s' (s'\<lparr>worker := WDone\<rparr>))
     \<and> (worker s' = WWait \<longrightarrow> qos_step usend uclose s' (s'\<lparr>worker := WDone\<rparr>))"
proof -
  note st = stopped_forever [OF assms(2,1)]
  then have "\<not> running (pipe_of s')" by simp
  then have "worker s' = WWait \<longrightarrow> qos_step usend uclose s' (s'\<lparr>worker := WDone\<rparr>)"
    using worker_woken [of s' usend 0 0 "[]" "pipe_of s'" WDone uclose]
    by (simp add: worker_turn_def)
  moreover have "worker s' = WTop \<longrightarrow> qos_step usend uclose s' (s'\<lparr>worker := WDone\<rparr>)"
    using worker_top [of s' usend uclose] st by simp
  ultimately show ?thesis using st worker_slept by blast
qed

lemma qos_order_and_accounting_witness:
  "\<exists>s. (qos_step (\<lambda>m o' w. (Status_Ok, w @ [m])) id)\<^sup>*\<^sup>* (qos_init [] QosOptions_default 1) s
     \<and> queued_log s = [from_string ''x''] \<and> sent_log s @ queued_now (pipe_of s) = queued_log s"
proof -
  have "qos_sends 1 [from_string ''x''] (mk_QosPipe [] QosOptions_default) =
      Some ([from_string ''x''], (mk_QosPipe [] QosOptions_default)
        \<lparr>send_queue := [\<lparr>qmessage = from_string ''x'', timestamp = 1\<rparr>], send_bytes := 1, send_count := 1\<rparr>)"
    by (simp add: qos_send_eval mk_QosPipe_def QosOptions_default_def from_string_def)
  with qos_sends_reach [of 0 "qos_init [] QosOptions_default 1" 1 "[from_string ''x'']"]
  obtain s where "(qos_step (\<lambda>m o' w. (Status_Ok, w @ [m])) id)\<^sup>*\<^sup>* (qos_init [] QosOptions_default 1) s"
    "queued_log s = [from_string ''x'']" by (fastforce simp: qos_init_def)
  with qos_order_and_accounting [OF this(1)] show ?thesis
    by (auto simp: QosOptions_default_def)
qed

lemma qos_queue_bound_witness:
  "msg_bytes (queued_now (pipe_of (qos_init () QosOptions_default 1))) \<le> 8388607"
  using qos_queue_bound [of "\<lambda>m o' w. (Status_Ok, w)" id "()" QosOptions_default 1
      "qos_init () QosOptions_default 1"]
  by (simp add: QosOptions_default_def qos_init_def)


lemma qos_close_stops_worker_witness:
  "let s = (qos_init () QosOptions_default 1)\<lparr>pipe_of := qos_close id (mk_QosPipe () QosOptions_default)\<rparr>
   in qos_step (\<lambda>m o' w. (Status_Ok, w)) id s (s\<lparr>worker := WDone\<rparr>)"
  using qos_close_stops_worker [of "(qos_init () QosOptions_default 1)
      \<lparr>pipe_of := qos_close id (mk_QosPipe () QosOptions_default)\<rparr>" "\<lambda>m o' w. (Status_Ok, w)" id, OF _ rtranclp.rtrancl_refl]
  by (simp add: qos_close_def qos_init_def Let_def)

end
