(* ===== verification/Duct_Qos_Conc.thy ===== *)
theory Duct_Qos_Conc
  imports Duct_Qos
begin

text \<open>
  The quality-of-service pipe of \<^verbatim>\<open>src/qos_pipe.cc\<close> with its condition variable: all waits, of the
  worker and of blocked senders, are on the one variable \<open>send_cv_\<close>. A thread that waits is asleep
  until it is notified, wakes spuriously or (senders only) its time runs out; a notification is a step
  of its own, after the lock has been released. The steps refine those of \<^verbatim>\<open>Duct_Qos\<close>, so order,
  accounting and bounds hold here too; new is who wakes whom, and that the destructor's \<open>join\<close> returns.
\<close>

section \<open>Threads\<close>

datatype xsender = XOut | XChecked Message | XAsleep Message | XWoken Message | XNotify

datatype xworker = KTop | KLock | KAsleep | KWoken | KPause | KDone

datatype xcloser = COut | CNotify | CClose

record 'w qos_threads =
  qt_pipe :: "'w QosPipe"
  qt_senders :: "xsender list"
  qt_worker :: xworker
  qt_closers :: "xcloser list"
  qt_queued :: "Message list"
  qt_sent :: "Message list"

definition qt_init :: "'w \<Rightarrow> QosOptions \<Rightarrow> nat \<Rightarrow> nat \<Rightarrow> 'w qos_threads" where
  "qt_init w opts n c =
     \<lparr>qt_pipe = mk_QosPipe w opts, qt_senders = replicate n XOut, qt_worker = KTop,
      qt_closers = replicate c COut, qt_queued = [], qt_sent = []\<rparr>"

definition wait_pred :: "'w QosPipe \<Rightarrow> bool" where
  "wait_pred p \<longleftrightarrow> send_queue p \<noteq> [] \<or> \<not> running p"

definition space_pred :: "'w QosPipe \<Rightarrow> bool" where
  "space_pred p \<longleftrightarrow> \<not> at_limit p \<or> \<not> running p"

text \<open>Only a call that has appended its message goes on to \<open>notify_one\<close>.\<close>

definition xsender_after :: "Message \<Rightarrow> Status option \<Rightarrow> Message list \<Rightarrow> xsender" where
  "xsender_after msg r acc = (case r of None \<Rightarrow> XAsleep msg | Some _ \<Rightarrow> if acc = [] then XOut else XNotify)"

fun xworker_after :: "worker_phase \<Rightarrow> xworker" where
  "xworker_after WTop = KTop"
| "xworker_after WWait = KLock"
| "xworker_after WSleep = KPause"
| "xworker_after WDone = KDone"

fun sender_wake :: "xsender \<Rightarrow> xsender" where
  "sender_wake (XAsleep m) = XWoken m"
| "sender_wake x = x"

definition worker_wake :: "xworker \<Rightarrow> xworker" where
  "worker_wake k = (if k = KAsleep then KWoken else k)"

definition sender_asleep :: "xsender \<Rightarrow> bool" where
  "sender_asleep x \<longleftrightarrow> sender_wake x \<noteq> x"

text \<open>The steps of the worker; \<open>now1\<close> and \<open>now2\<close> are its clock readings.\<close>

inductive kstep :: "'w pipe_send \<Rightarrow> 'w qos_threads \<Rightarrow> 'w qos_threads \<Rightarrow> bool" for usend :: "'w pipe_send" where
  k_top: "qt_worker s = KTop \<Longrightarrow> kstep usend s (s\<lparr>qt_worker := (if running (qt_pipe s) then KLock else KDone)\<rparr>)"
| k_sleep: "qt_worker s = KLock \<or> qt_worker s = KWoken \<Longrightarrow> \<not> wait_pred (qt_pipe s) \<Longrightarrow>
    kstep usend s (s\<lparr>qt_worker := KAsleep\<rparr>)"
| k_turn: "qt_worker s = KLock \<or> qt_worker s = KWoken \<Longrightarrow> wait_pred (qt_pipe s) \<Longrightarrow>
    worker_turn usend now1 now2 (qt_pipe s) = (out, p', ph) \<Longrightarrow>
    kstep usend s (s\<lparr>qt_pipe := p', qt_worker := xworker_after ph, qt_sent := qt_sent s @ out\<rparr>)"
| k_paused: "qt_worker s = KPause \<Longrightarrow> kstep usend s (s\<lparr>qt_worker := KTop\<rparr>)"

text \<open>
  The steps of the sender \<open>i\<close>: the checks, the locked part, waking with or without the condition, the
  end of its time, and the notification, which reaches one sleeping thread, if there is one.
\<close>

inductive xstep :: "nat \<Rightarrow> 'w qos_threads \<Rightarrow> 'w qos_threads \<Rightarrow> bool" for i :: nat where
  x_call: "i < length (qt_senders s) \<Longrightarrow> qt_senders s ! i = XOut \<Longrightarrow> send_check msg (qt_pipe s) = r \<Longrightarrow>
    xstep i s (s\<lparr>qt_senders := (qt_senders s)[i := (case r of None \<Rightarrow> XChecked msg | Some _ \<Rightarrow> XOut)]\<rparr>)"
| x_locked: "i < length (qt_senders s) \<Longrightarrow> qt_senders s ! i = XChecked msg \<Longrightarrow>
    send_locked now msg (qt_pipe s) = (r, acc, p') \<Longrightarrow>
    xstep i s (s\<lparr>qt_pipe := p', qt_senders := (qt_senders s)[i := xsender_after msg r acc], qt_queued := qt_queued s @ acc\<rparr>)"
| x_again: "i < length (qt_senders s) \<Longrightarrow> qt_senders s ! i = XWoken msg \<Longrightarrow> \<not> space_pred (qt_pipe s) \<Longrightarrow>
    xstep i s (s\<lparr>qt_senders := (qt_senders s)[i := XAsleep msg]\<rparr>)"
| x_ready: "i < length (qt_senders s) \<Longrightarrow>
    qt_senders s ! i = XWoken msg \<and> space_pred (qt_pipe s) \<or> qt_senders s ! i = XAsleep msg \<Longrightarrow>
    send_after_wait now msg (qt_pipe s) = (r, acc, p') \<Longrightarrow>
    xstep i s (s\<lparr>qt_pipe := p', qt_senders := (qt_senders s)[i := xsender_after msg r acc], qt_queued := qt_queued s @ acc\<rparr>)"
| x_notify_worker: "i < length (qt_senders s) \<Longrightarrow> qt_senders s ! i = XNotify \<Longrightarrow> qt_worker s = KAsleep \<Longrightarrow>
    xstep i s (s\<lparr>qt_senders := (qt_senders s)[i := XOut], qt_worker := KWoken\<rparr>)"
| x_notify_sender: "i < length (qt_senders s) \<Longrightarrow> qt_senders s ! i = XNotify \<Longrightarrow>
    j < length (qt_senders s) \<Longrightarrow> qt_senders s ! j = XAsleep msg \<Longrightarrow>
    xstep i s (s\<lparr>qt_senders := (qt_senders s)[i := XOut, j := XWoken msg]\<rparr>)"
| x_notify_none: "i < length (qt_senders s) \<Longrightarrow> qt_senders s ! i = XNotify \<Longrightarrow> qt_worker s \<noteq> KAsleep \<Longrightarrow>
    \<forall>x\<in>set (qt_senders s). \<not> sender_asleep x \<Longrightarrow>
    xstep i s (s\<lparr>qt_senders := (qt_senders s)[i := XOut]\<rparr>)"

text \<open>The steps of the caller \<open>j\<close> of \<open>close\<close>: the flag under the lock, \<open>notify_all\<close>, closing the wrapped pipe.\<close>

inductive cstep :: "('w \<Rightarrow> 'w) \<Rightarrow> nat \<Rightarrow> 'w qos_threads \<Rightarrow> 'w qos_threads \<Rightarrow> bool"
  for uclose :: "'w \<Rightarrow> 'w" and j :: nat where
  c_flag: "j < length (qt_closers s) \<Longrightarrow> qt_closers s ! j = COut \<Longrightarrow>
    cstep uclose j s (s\<lparr>qt_pipe := (qt_pipe s)\<lparr>running := False\<rparr>, qt_closers := (qt_closers s)[j := CNotify]\<rparr>)"
| c_notify: "j < length (qt_closers s) \<Longrightarrow> qt_closers s ! j = CNotify \<Longrightarrow>
    cstep uclose j s (s\<lparr>qt_senders := map sender_wake (qt_senders s), qt_worker := worker_wake (qt_worker s),
      qt_closers := (qt_closers s)[j := CClose]\<rparr>)"
| c_close: "j < length (qt_closers s) \<Longrightarrow> qt_closers s ! j = CClose \<Longrightarrow>
    cstep uclose j s (s\<lparr>qt_pipe := (qt_pipe s)\<lparr>underlying := uclose (underlying (qt_pipe s))\<rparr>,
      qt_closers := (qt_closers s)[j := COut]\<rparr>)"

inductive qt_step :: "'w pipe_send \<Rightarrow> ('w \<Rightarrow> 'w) \<Rightarrow> 'w qos_threads \<Rightarrow> 'w qos_threads \<Rightarrow> bool"
  for usend :: "'w pipe_send" and uclose :: "'w \<Rightarrow> 'w" where
  worker_moves: "kstep usend s s' \<Longrightarrow> qt_step usend uclose s s'"
| sender_moves: "xstep i s s' \<Longrightarrow> qt_step usend uclose s s'"
| closer_moves: "cstep uclose j s s' \<Longrightarrow> qt_step usend uclose s s'"
| worker_spurious: "qt_worker s = KAsleep \<Longrightarrow> qt_step usend uclose s (s\<lparr>qt_worker := KWoken\<rparr>)"
| sender_spurious: "i < length (qt_senders s) \<Longrightarrow> qt_senders s ! i = XAsleep msg \<Longrightarrow>
    qt_step usend uclose s (s\<lparr>qt_senders := (qt_senders s)[i := XWoken msg]\<rparr>)"
| outside: "qt_step usend uclose s (s\<lparr>qt_pipe := (qt_pipe s)\<lparr>underlying := w'\<rparr>\<rparr>)"

section \<open>Refinement\<close>

fun abs_sender :: "xsender \<Rightarrow> sender" where
  "abs_sender XOut = SOut"
| "abs_sender XNotify = SOut"
| "abs_sender (XChecked m) = SChecked m"
| "abs_sender (XAsleep m) = SWait m"
| "abs_sender (XWoken m) = SWait m"

fun abs_worker :: "xworker \<Rightarrow> worker_phase" where
  "abs_worker KTop = WTop"
| "abs_worker KPause = WSleep"
| "abs_worker KDone = WDone"
| "abs_worker _ = WWait"

definition qt_abs :: "'w qos_threads \<Rightarrow> 'w qos_sys" where
  "qt_abs s = \<lparr>pipe_of = qt_pipe s, senders = map abs_sender (qt_senders s), worker = abs_worker (qt_worker s),
     queued_log = qt_queued s, sent_log = qt_sent s\<rparr>"

lemma abs_wake [simp]: "abs_sender (sender_wake x) = abs_sender x" "abs_worker (worker_wake k) = abs_worker k"
  by (cases x; simp) (cases k; simp add: worker_wake_def)

lemma abs_after [simp]:
  "abs_sender (xsender_after msg r acc) = sender_after msg r" "abs_worker (xworker_after ph) = ph"
  by (auto simp: xsender_after_def sender_after_def split: option.splits) (cases ph; simp)

lemma abs_same_senders: "i < length xs \<Longrightarrow> abs_sender x = abs_sender (xs ! i) \<Longrightarrow> map abs_sender (xs[i := x]) = map abs_sender xs"
  by (simp add: map_update list_update_same_conv)

lemma kstep_abs:
  assumes "kstep usend s s'"
  shows "(qos_step usend uclose)\<^sup>=\<^sup>= (qt_abs s) (qt_abs s')"
  using assms
proof (cases rule: kstep.cases)
  case k_top
  then show ?thesis using worker_top [of "qt_abs s" usend uclose] by (auto simp: qt_abs_def)
next
  case (k_turn now1 now2 out p' ph)
  then show ?thesis
    using worker_woken [of "qt_abs s" usend now1 now2 out p' ph uclose] by (auto simp: qt_abs_def wait_pred_def)
next
  case k_paused
  then show ?thesis using worker_slept [of "qt_abs s" usend uclose] by (auto simp: qt_abs_def)
qed (auto simp: qt_abs_def)

lemma xstep_abs:
  assumes "xstep i s s'"
  shows "(qos_step usend uclose)\<^sup>=\<^sup>= (qt_abs s) (qt_abs s')"
  using assms
proof (cases rule: xstep.cases)
  case (x_call msg r)
  then show ?thesis using call_send [of i "qt_abs s" msg r usend uclose]
    by (auto simp: qt_abs_def map_update split: option.splits)
next
  case (x_locked msg now r acc p')
  then show ?thesis using locked_send [of i "qt_abs s" msg now r acc p' usend uclose]
    by (auto simp: qt_abs_def map_update)
next
  case (x_ready msg now r acc p')
  then show ?thesis using wait_over [of i "qt_abs s" msg now r acc p' usend uclose]
    by (auto simp: qt_abs_def map_update)
next
  case (x_notify_sender j msg)
  have "map abs_sender ((qt_senders s)[i := XOut, j := XWoken msg]) = map abs_sender (qt_senders s)"
    using x_notify_sender by (intro nth_equalityI) (auto simp: nth_list_update)
  with x_notify_sender show ?thesis by (simp add: qt_abs_def)
qed (auto simp: qt_abs_def abs_same_senders)

lemma cstep_abs:
  assumes "cstep uclose j s s'"
  shows "(qos_step usend uclose)\<^sup>*\<^sup>* (qt_abs s) (qt_abs s')"
  using assms
proof (cases rule: cstep.cases)
  case c_flag
  let ?t = "(qt_abs s)\<lparr>pipe_of := qos_close uclose (qt_pipe s)\<rparr>"
  have "qos_step usend uclose (qt_abs s) ?t" using close_call [of usend uclose "qt_abs s"] by (simp add: qt_abs_def)
  moreover have "qos_step usend uclose ?t (qt_abs s')"
    using environment [of usend uclose ?t "underlying (qt_pipe s)"] c_flag by (simp add: qt_abs_def qos_close_def)
  ultimately show ?thesis by (meson converse_rtranclp_into_rtranclp r_into_rtranclp)
next
  case c_notify
  then show ?thesis by (simp add: qt_abs_def comp_def)
next
  case c_close
  then show ?thesis using environment [of usend uclose "qt_abs s" "uclose (underlying (qt_pipe s))"]
    by (auto simp: qt_abs_def)
qed

lemma qt_step_abs:
  assumes "qt_step usend uclose s s'"
  shows "(qos_step usend uclose)\<^sup>*\<^sup>* (qt_abs s) (qt_abs s')"
  using assms
proof (cases rule: qt_step.cases)
  case worker_moves
  then show ?thesis using kstep_abs [of usend s s' uclose] by auto
next
  case (sender_moves i)
  then show ?thesis using xstep_abs [of i s s' usend uclose] by auto
next
  case (closer_moves j)
  then show ?thesis by (rule cstep_abs)
next
  case (outside w')
  then show ?thesis using environment [of usend uclose "qt_abs s" w'] by (auto simp: qt_abs_def)
qed (simp_all add: qt_abs_def abs_same_senders)

lemma qt_init_abs: "qt_abs (qt_init w opts n c) = qos_init w opts n"
  by (simp add: qt_abs_def qt_init_def qos_init_def)

lemma qt_reach_abs:
  "(qt_step usend uclose)\<^sup>*\<^sup>* (qt_init w opts n c) s \<Longrightarrow> (qos_step usend uclose)\<^sup>*\<^sup>* (qos_init w opts n) (qt_abs s)"
  by (induction rule: rtranclp_induct) (auto simp: qt_init_abs dest: qt_step_abs)

section \<open>Who is asleep\<close>

text \<open>
  A worker told to stop is asleep only while a \<open>notify_all\<close> is still to come; and unless senders block,
  so that nobody else can take its wake-up, a worker with work to do is asleep only while a
  notification is still to come.
\<close>

definition stop_served :: "'w qos_threads \<Rightarrow> bool" where
  "stop_served s \<longleftrightarrow> (qt_worker s = KAsleep \<longrightarrow> running (qt_pipe s) \<or> CNotify \<in> set (qt_closers s))"

definition work_served :: "'w qos_threads \<Rightarrow> bool" where
  "work_served s \<longleftrightarrow>
     (qt_worker s = KAsleep \<longrightarrow> send_queue (qt_pipe s) = [] \<or> XNotify \<in> set (qt_senders s) \<or> CNotify \<in> set (qt_closers s))"

definition waits_never :: "xsender \<Rightarrow> bool" where
  "waits_never x \<longleftrightarrow> (case x of XAsleep _ \<Rightarrow> False | XWoken _ \<Rightarrow> False | _ \<Rightarrow> True)"

lemma waits_never_simps [simp]:
  "waits_never XOut" "waits_never XNotify" "waits_never (XChecked m)" "\<not> waits_never (XAsleep m)" "\<not> waits_never (XWoken m)"
  by (simp_all add: waits_never_def)

lemma waits_never_wake [simp]: "waits_never x \<Longrightarrow> sender_wake x = x"
  by (cases x) simp_all

lemma list_all_update [simp]: "list_all P xs \<Longrightarrow> P y \<Longrightarrow> list_all P (xs[i := y])"
  using set_update_subset_insert [of xs i y] by (auto simp: list_all_iff)

lemma list_all_nth: "list_all P xs \<Longrightarrow> i < length xs \<Longrightarrow> xs ! i = x \<Longrightarrow> P x"
  by (auto simp: list_all_length)

lemma kept_by_update: "x \<in> set xs \<Longrightarrow> xs ! i \<noteq> x \<Longrightarrow> x \<in> set (xs[i := y])"
  by (metis in_set_conv_nth length_list_update nth_list_update_neq)

lemma send_locked_running: "send_locked now msg p = (r, acc, p') \<Longrightarrow> running p' = running p"
  by (auto simp: send_locked_def send_after_wait_def send_enqueue_def split: if_splits BackpressurePolicy.splits)

lemma send_after_wait_running: "send_after_wait now msg p = (r, acc, p') \<Longrightarrow> running p' = running p"
  by (auto simp: send_after_wait_def send_enqueue_def split: if_splits)

lemma kstep_pred: "kstep usend s s' \<Longrightarrow> qt_worker s' = KAsleep \<Longrightarrow> running (qt_pipe s') \<and> send_queue (qt_pipe s') = []"
  by (erule kstep.cases) (auto simp: wait_pred_def worker_turn_def Let_def split: if_splits list.splits prod.splits)

lemma stop_served_step:
  assumes "qt_step usend uclose s s'" "stop_served s"
  shows "stop_served s'"
  using assms(1)
proof (cases rule: qt_step.cases)
  case worker_moves
  then show ?thesis by (auto simp: stop_served_def dest: kstep_pred)
next
  case (sender_moves i)
  then show ?thesis using assms(2)
    by (cases rule: xstep.cases)
      (auto simp: stop_served_def dest: send_locked_running send_after_wait_running)
next
  case (closer_moves j)
  then show ?thesis using assms(2)
    by (cases rule: cstep.cases) (auto simp: stop_served_def worker_wake_def set_update_memI kept_by_update)
qed (use assms(2) in \<open>auto simp: stop_served_def\<close>)

lemma stop_served_reach: "(qt_step usend uclose)\<^sup>*\<^sup>* (qt_init w opts n c) s \<Longrightarrow> stop_served s"
  by (induction rule: rtranclp_induct) (simp add: stop_served_def qt_init_def, rule stop_served_step)

lemma send_locked_quiet:
  assumes "send_locked now msg p = (r, acc, p')" "backpressure (qos p) \<noteq> kBlock"
  shows "r \<noteq> None" "acc = [] \<Longrightarrow> p' = p"
  using assms by (auto simp: send_locked_def send_enqueue_def split: if_splits BackpressurePolicy.splits)

lemma work_served_step:
  assumes "qt_step usend uclose s s'" "work_served s" "list_all waits_never (qt_senders s)"
    and "backpressure (qos (qt_pipe s)) \<noteq> kBlock"
  shows "work_served s' \<and> list_all waits_never (qt_senders s')"
  using assms(1)
proof (cases rule: qt_step.cases)
  case worker_moves
  moreover have "qt_senders s' = qt_senders s" using worker_moves by (cases rule: kstep.cases) auto
  ultimately show ?thesis using assms(3) by (auto simp: work_served_def dest: kstep_pred)
next
  case (sender_moves i)
  then show ?thesis
  proof (cases rule: xstep.cases)
    case (x_call msg r)
    then show ?thesis using assms(2,3)
      by (auto simp: work_served_def kept_by_update split: option.splits)
  next
    case (x_locked msg now r acc p')
    note q = send_locked_quiet [OF x_locked(4) assms(4)]
    have n: "acc \<noteq> [] \<longrightarrow> XNotify \<in> set ((qt_senders s)[i := xsender_after msg r acc])"
      using q(1) x_locked(2) by (auto simp: xsender_after_def set_update_memI)
    have "XNotify \<in> set (qt_senders s) \<longrightarrow> XNotify \<in> set ((qt_senders s)[i := xsender_after msg r acc])"
      using x_locked(3) by (simp add: kept_by_update)
    moreover have "waits_never (xsender_after msg r acc)" using q(1) by (auto simp: xsender_after_def)
    ultimately show ?thesis
      using n q(2) assms(2,3) unfolding x_locked(1) by (auto simp: work_served_def)
  next
    case (x_notify_none)
    then show ?thesis using assms(2,3) by (auto simp: work_served_def)
  next
    case (x_notify_worker)
    then show ?thesis using assms(2,3) by (auto simp: work_served_def)
  qed (use assms(3) in \<open>auto dest: list_all_nth\<close>)
next
  case (closer_moves j)
  moreover have "map sender_wake (qt_senders s) = qt_senders s"
    using assms(3) by (intro map_idI) (auto simp: list_all_iff)
  ultimately show ?thesis using assms(2,3)
    by (cases rule: cstep.cases) (auto simp: work_served_def worker_wake_def set_update_memI kept_by_update)
next
  case (sender_spurious i msg)
  then show ?thesis using assms(3) by (auto dest: list_all_nth)
qed (use assms(2,3) in \<open>auto simp: work_served_def\<close>)

lemma qt_qos: "(qt_step usend uclose)\<^sup>*\<^sup>* (qt_init w opts n c) s \<Longrightarrow> qos (qt_pipe s) = opts"
  using qos_history_inv_reach [OF qt_reach_abs] by (fastforce simp: qos_history_inv_def qt_abs_def)

lemma work_served_reach:
  assumes "(qt_step usend uclose)\<^sup>*\<^sup>* (qt_init w opts n c) s" "backpressure opts \<noteq> kBlock"
  shows "work_served s \<and> list_all waits_never (qt_senders s)"
  using assms(1)
proof (induction rule: rtranclp_induct)
  case base
  show ?case by (simp add: work_served_def qt_init_def list_all_iff)
next
  case (step s s')
  then show ?case using work_served_step [OF step.hyps(2)] qt_qos [OF step.hyps(1)] assms(2) by simp
qed

section \<open>The destructor\<close>

text \<open>How many steps of its own the worker still takes once it is told to stop.\<close>

fun steps_left :: "xworker \<Rightarrow> nat" where
  "steps_left KDone = 0"
| "steps_left KPause = 2"
| "steps_left _ = 1"

lemma stopped_kstep:
  assumes "kstep usend s s'" "\<not> running (qt_pipe s)"
  shows "steps_left (qt_worker s') < steps_left (qt_worker s) \<and> \<not> running (qt_pipe s')"
  using assms by (cases rule: kstep.cases) (auto simp: wait_pred_def worker_turn_def)

lemma stopped_worker_moves:
  assumes "\<not> running (qt_pipe s)" "qt_worker s \<noteq> KDone" "qt_worker s \<noteq> KAsleep"
  shows "\<exists>s'. kstep usend s s'"
proof (cases "qt_worker s")
  case KLock
  with assms(1) k_turn [of s usend 0 0 "[]" "qt_pipe s" WDone] show ?thesis by (auto simp: wait_pred_def worker_turn_def)
next
  case KWoken
  with assms(1) k_turn [of s usend 0 0 "[]" "qt_pipe s" WDone] show ?thesis by (auto simp: wait_pred_def worker_turn_def)
qed (use assms k_top [of s usend] k_paused [of s usend] in auto)

section \<open>A lost wake-up\<close>

text \<open>
  When senders block, the worker shares the condition variable with them: the notification of a new
  message may reach a blocked sender instead of the worker. The state that results is stable: only a
  spurious wake-up or \<open>close\<close> leads out of it.
\<close>

definition stranded :: "'w qos_threads \<Rightarrow> bool" where
  "stranded s \<longleftrightarrow> qt_worker s = KAsleep \<and> at_limit (qt_pipe s) \<and> backpressure (qos (qt_pipe s)) = kBlock
     \<and> XNotify \<notin> set (qt_senders s)"

lemma blocked_send:
  assumes "at_limit p" "backpressure (qos p) = kBlock"
  shows "send_locked now msg p = (r, acc, p') \<Longrightarrow> acc = [] \<and> p' = p"
    "send_after_wait now msg p = (r, acc, p') \<Longrightarrow> acc = [] \<and> p' = p"
  using assms by (auto simp: send_locked_def send_after_wait_def split: if_splits)

lemma notify_not_new: "XNotify \<notin> set xs \<Longrightarrow> y \<noteq> XNotify \<Longrightarrow> XNotify \<notin> set (xs[i := y])"
  using set_update_subset_insert [of xs i y] by auto

lemma stranded_step:
  assumes "kstep usend s s' \<or> (\<exists>i. xstep i s s')" "stranded s"
  shows "stranded s' \<and> qt_sent s' = qt_sent s \<and> qt_pipe s' = qt_pipe s"
  using assms(1)
proof
  assume "kstep usend s s'"
  then show ?thesis using assms(2) by (cases rule: kstep.cases) (auto simp: stranded_def)
next
  assume "\<exists>i. xstep i s s'"
  then obtain i where "xstep i s s'" ..
  then show ?thesis
  proof (cases rule: xstep.cases)
    case (x_locked msg now r acc p')
    with blocked_send(1) [OF _ _ x_locked(4)] assms(2) show ?thesis
      by (auto simp: stranded_def xsender_after_def notify_not_new split: option.splits)
  next
    case (x_ready msg now r acc p')
    with blocked_send(2) [OF _ _ x_ready(4)] assms(2) show ?thesis
      by (auto simp: stranded_def xsender_after_def notify_not_new split: option.splits)
  qed (use assms(2) in \<open>auto simp: stranded_def notify_not_new split: option.splits dest: nth_mem\<close>)
qed

lemma stranded_forever:
  assumes "(\<lambda>s s'. kstep usend s s' \<or> (\<exists>i. xstep i s s'))\<^sup>*\<^sup>* s s'" "stranded s"
  shows "stranded s' \<and> qt_sent s' = qt_sent s \<and> qt_pipe s' = qt_pipe s"
  using assms(1) by (induction rule: rtranclp_induct) (use assms(2) in \<open>simp_all add: stranded_step\<close>)

definition strand_opts :: QosOptions where
  "strand_opts = QosOptions_default\<lparr>snd_hwm_bytes := 4, qos_ttl := 1000\<rparr>"

definition strand_pipe :: "'w \<Rightarrow> 'w QosPipe" where
  "strand_pipe w = (mk_QosPipe w strand_opts)\<lparr>send_queue := [\<lparr>qmessage = from_string ''abcd'', timestamp = 0\<rparr>],
     send_bytes := 4, send_count := 1\<rparr>"

lemma strand_sends:
  "send_check (from_string ''abcd'') (mk_QosPipe w strand_opts) = None"
  "send_locked 0 (from_string ''abcd'') (mk_QosPipe w strand_opts) = (Some Status_Ok, [from_string ''abcd''], strand_pipe w)"
  "send_check (from_string ''x'') (strand_pipe w) = None"
  "send_locked 0 (from_string ''x'') (strand_pipe w) = (None, [], strand_pipe w)"
  "send_after_wait 0 (from_string ''x'') (strand_pipe w) = (Some (timeout_status ''send queue full (timeout)''), [], strand_pipe w)"
  by (simp_all add: send_check_def send_locked_def send_after_wait_def send_enqueue_def at_limit_def strand_pipe_def
      strand_opts_def mk_QosPipe_def QosOptions_default_def size_u64_def from_string_def)

lemma strand_reach:
  defines "st k a b p q \<equiv> \<lparr>qt_pipe = p, qt_senders = [a, b], qt_worker = k, qt_closers = [], qt_queued = q, qt_sent = []\<rparr>"
  shows "(qt_step usend uclose)\<^sup>*\<^sup>* (qt_init w strand_opts 2 0) (st KAsleep XOut XOut (strand_pipe w) [from_string ''abcd''])"
proof -
  let ?R = "qt_step usend uclose" and ?e = "mk_QosPipe w strand_opts" and ?f = "strand_pipe w"
    and ?m = "from_string ''abcd''" and ?n = "from_string ''x''"
  have s1: "?R (st KTop XOut XOut ?e []) (st KLock XOut XOut ?e [])"
    by (rule worker_moves, use k_top [of "st KTop XOut XOut ?e []" usend] in \<open>simp add: st_def mk_QosPipe_def\<close>)
  have s2: "?R (st KLock XOut XOut ?e []) (st KAsleep XOut XOut ?e [])"
    by (rule worker_moves, use k_sleep [of "st KLock XOut XOut ?e []" usend] in \<open>simp add: st_def wait_pred_def mk_QosPipe_def\<close>)
  have s3: "?R (st KAsleep XOut XOut ?e []) (st KAsleep (XChecked ?m) XOut ?e [])"
    by (rule sender_moves [of 0], use x_call [of 0 "st KAsleep XOut XOut ?e []" ?m] in \<open>simp add: st_def strand_sends\<close>)
  have s4: "?R (st KAsleep (XChecked ?m) XOut ?e []) (st KAsleep XNotify XOut ?f [?m])"
    by (rule sender_moves [of 0], use x_locked [of 0 "st KAsleep (XChecked ?m) XOut ?e []" ?m 0] in
      \<open>simp add: st_def strand_sends xsender_after_def\<close>)
  have s5: "?R (st KAsleep XNotify XOut ?f [?m]) (st KAsleep XNotify (XChecked ?n) ?f [?m])"
    by (rule sender_moves [of 1], use x_call [of 1 "st KAsleep XNotify XOut ?f [?m]" ?n] in \<open>simp add: st_def strand_sends\<close>)
  have s6: "?R (st KAsleep XNotify (XChecked ?n) ?f [?m]) (st KAsleep XNotify (XAsleep ?n) ?f [?m])"
    by (rule sender_moves [of 1], use x_locked [of 1 "st KAsleep XNotify (XChecked ?n) ?f [?m]" ?n 0] in
      \<open>simp add: st_def strand_sends xsender_after_def\<close>)
  have s7: "?R (st KAsleep XNotify (XAsleep ?n) ?f [?m]) (st KAsleep XOut (XWoken ?n) ?f [?m])"
    by (rule sender_moves [of 0], use x_notify_sender [of 0 "st KAsleep XNotify (XAsleep ?n) ?f [?m]" 1 ?n] in \<open>simp add: st_def\<close>)
  have s8: "?R (st KAsleep XOut (XWoken ?n) ?f [?m]) (st KAsleep XOut (XAsleep ?n) ?f [?m])"
    by (rule sender_moves [of 1], use x_again [of 1 "st KAsleep XOut (XWoken ?n) ?f [?m]" ?n] in
      \<open>simp add: st_def space_pred_def at_limit_def strand_pipe_def mk_QosPipe_def strand_opts_def\<close>)
  have s9: "?R (st KAsleep XOut (XAsleep ?n) ?f [?m]) (st KAsleep XOut XOut ?f [?m])"
    by (rule sender_moves [of 1], use x_ready [of 1 "st KAsleep XOut (XAsleep ?n) ?f [?m]" ?n 0] in
      \<open>simp add: st_def strand_sends xsender_after_def\<close>)
  have s0: "qt_init w strand_opts 2 0 = st KTop XOut XOut ?e []"
    by (simp add: st_def qt_init_def eval_nat_numeral)
  note step_on = converse_rtranclp_into_rtranclp [where r = ?R]
  show ?thesis unfolding s0
    by (rule step_on [OF s1], rule step_on [OF s2], rule step_on [OF s3], rule step_on [OF s4], rule step_on [OF s5], rule step_on [OF s6], rule step_on [OF s7], rule step_on [OF s8], rule step_on [OF s9], rule rtranclp.rtrancl_refl)
qed

section \<open>Properties\<close>

text \<open>
  C6: The threads with their waits and notifications refine the steps of the pipe: what was queued and
  sent, the queue and the threads' positions are reached by those steps too. So also with lost and
  spurious wake-ups the counters are exact, messages leave in the order they were queued, and without a
  lifetime and without \<open>kDropOld\<close> none is lost.
\<close>

theorem qos_threads_refine:
  assumes "(qt_step usend uclose)\<^sup>*\<^sup>* (qt_init w opts n c) s"
  shows "(qos_step usend uclose)\<^sup>*\<^sup>* (qos_init w opts n) (qt_abs s)
     \<and> send_bytes (qt_pipe s) = of_nat (msg_bytes (queued_now (qt_pipe s)))
     \<and> send_count (qt_pipe s) = of_nat (length (send_queue (qt_pipe s)))
     \<and> subseq (qt_sent s @ queued_now (qt_pipe s)) (qt_queued s)
     \<and> (if keeps_all opts then qt_sent s @ queued_now (qt_pipe s) = qt_queued s else True)"
  using qt_reach_abs [OF assms] qos_history_inv_reach [OF qt_reach_abs [OF assms]]
  by (simp add: qos_history_inv_def qos_inv_def qt_abs_def)

text \<open>
  With the policies that do not block, the worker is never left asleep on work: when it sleeps, the
  queue is empty, or a thread that has queued a message or closes the pipe is about to notify; and no
  sender ever sleeps.
\<close>

theorem qos_worker_not_stranded:
  assumes "(qt_step usend uclose)\<^sup>*\<^sup>* (qt_init w opts n c) s" "backpressure opts \<noteq> kBlock"
  shows "(if qt_worker s = KAsleep
          then send_queue (qt_pipe s) = [] \<or> XNotify \<in> set (qt_senders s) \<or> CNotify \<in> set (qt_closers s) else True)
     \<and> list_all waits_never (qt_senders s)"
  using work_served_reach [OF assms] by (simp add: work_served_def)

text \<open>
  C8: The destructor returns: once \<open>close\<close> has set the flag and its \<open>notify_all\<close> is done, the worker is
  not asleep; until it has ended it can take a step, and each of its steps brings it nearer to its end,
  which it reaches after at most two. No other thread's step brings the flag back.
\<close>

theorem qos_destructor_returns:
  assumes "(qt_step usend uclose)\<^sup>*\<^sup>* (qt_init w opts n c) s"
    and "\<not> running (qt_pipe s)" "CNotify \<notin> set (qt_closers s)"
  shows "qt_worker s \<noteq> KAsleep \<and> steps_left (qt_worker s) \<le> 2
     \<and> (qt_worker s = KDone \<or> (\<exists>s'. kstep usend s s'))
     \<and> (\<forall>s'. kstep usend s s' \<longrightarrow> steps_left (qt_worker s') < steps_left (qt_worker s))
     \<and> (\<forall>s'. qt_step usend uclose s s' \<longrightarrow> \<not> running (qt_pipe s'))"
proof -
  have awake: "qt_worker s \<noteq> KAsleep" using stop_served_reach [OF assms(1)] assms(2,3) by (auto simp: stop_served_def)
  have "\<not> running (qt_pipe s')" if "qt_step usend uclose s s'" for s'
    using stopped_forever [OF qt_step_abs [OF that]] assms(2) by (simp add: qt_abs_def)
  moreover have "steps_left (qt_worker s) \<le> 2" by (cases "qt_worker s") simp_all
  ultimately show ?thesis
    using awake stopped_worker_moves [OF assms(2) _ awake] stopped_kstep [OF _ assms(2)] by blast
qed

text \<open>
  With \<open>kBlock\<close> the worker can be stranded: two senders suffice. The worker sleeps on the empty queue, the
  first sender fills the queue and releases the lock, the second finds it full and sleeps, and the
  notification of the first wakes the second. The queued message is then never looked at again,
  not even to expire, until a spurious wake-up or \<open>close\<close>.
\<close>

theorem qos_lost_wakeup:
  "\<exists>s. (qt_step usend uclose)\<^sup>*\<^sup>* (qt_init w strand_opts 2 0) s
     \<and> running (qt_pipe s) \<and> queued_now (qt_pipe s) = [from_string ''abcd''] \<and> qt_senders s = [XOut, XOut]
     \<and> {s'. (\<lambda>s s'. kstep usend s s' \<or> (\<exists>i. xstep i s s'))\<^sup>*\<^sup>* s s'}
         \<subseteq> {s'. qt_worker s' = KAsleep \<and> qt_pipe s' = qt_pipe s \<and> qt_sent s' = []}"
proof (intro exI conjI)
  let ?s = "\<lparr>qt_pipe = strand_pipe w, qt_senders = [XOut, XOut], qt_worker = KAsleep, qt_closers = [],
    qt_queued = [from_string ''abcd''], qt_sent = []\<rparr>"
  show "(qt_step usend uclose)\<^sup>*\<^sup>* (qt_init w strand_opts 2 0) ?s" by (rule strand_reach)
  have "stranded ?s"
    by (simp add: stranded_def at_limit_def strand_pipe_def mk_QosPipe_def strand_opts_def QosOptions_default_def)
  from stranded_forever [OF _ this] show "{s'. (\<lambda>s s'. kstep usend s s' \<or> (\<exists>i. xstep i s s'))\<^sup>*\<^sup>* ?s s'}
      \<subseteq> {s'. qt_worker s' = KAsleep \<and> qt_pipe s' = qt_pipe ?s \<and> qt_sent s' = []}"
    by (auto simp: stranded_def)
qed (simp_all add: strand_pipe_def mk_QosPipe_def queued_now_def)

section \<open>Runs\<close>

lemma worker_sleeps: "(qt_step usend uclose)\<^sup>*\<^sup>* (qt_init w opts n c) ((qt_init w opts n c)\<lparr>qt_worker := KAsleep\<rparr>)"
proof -
  let ?s = "qt_init w opts n c"
  have "qt_step usend uclose ?s (?s\<lparr>qt_worker := KLock\<rparr>)"
    by (rule worker_moves, use k_top [of ?s usend] in \<open>simp add: qt_init_def mk_QosPipe_def\<close>)
  moreover have "qt_step usend uclose (?s\<lparr>qt_worker := KLock\<rparr>) (?s\<lparr>qt_worker := KAsleep\<rparr>)"
    by (rule worker_moves, use k_sleep [of "?s\<lparr>qt_worker := KLock\<rparr>" usend] in
      \<open>simp add: qt_init_def wait_pred_def mk_QosPipe_def\<close>)
  ultimately show ?thesis by (meson converse_rtranclp_into_rtranclp r_into_rtranclp)
qed

lemma sleeper_closed:
  "(qt_step usend uclose)\<^sup>*\<^sup>* (qt_init w opts n 1)
     ((qt_init w opts n 1)\<lparr>qt_pipe := (mk_QosPipe w opts)\<lparr>running := False\<rparr>, qt_worker := KWoken, qt_closers := [CClose]\<rparr>)"
proof -
  let ?s = "(qt_init w opts n 1)\<lparr>qt_worker := KAsleep\<rparr>" and ?p = "(mk_QosPipe w opts)\<lparr>running := False\<rparr>"
  let ?t = "?s\<lparr>qt_pipe := ?p, qt_closers := [CNotify]\<rparr>"
  have "qt_step usend uclose ?s ?t"
    by (rule closer_moves [of _ 0], use c_flag [of 0 ?s uclose] in \<open>simp add: qt_init_def\<close>)
  moreover have "qt_step usend uclose ?t (?t\<lparr>qt_worker := KWoken, qt_closers := [CClose]\<rparr>)"
    by (rule closer_moves [of _ 0], use c_notify [of 0 ?t uclose] in \<open>simp add: qt_init_def worker_wake_def\<close>)
  ultimately have "(qt_step usend uclose)\<^sup>*\<^sup>* (qt_init w opts n 1) (?t\<lparr>qt_worker := KWoken, qt_closers := [CClose]\<rparr>)"
    using worker_sleeps [of usend uclose w opts n 1] by (meson rtranclp.rtrancl_into_rtrancl)
  then show ?thesis by (simp add: qt_init_def)
qed

lemma qos_threads_refine_witness:
  "\<exists>s. (qt_step (\<lambda>m opt u. (Status_Ok, u)) id)\<^sup>*\<^sup>* (qt_init () strand_opts 2 0) s
     \<and> qt_queued s = [from_string ''abcd''] \<and> subseq (qt_sent s @ queued_now (qt_pipe s)) (qt_queued s)"
  using strand_reach [of "\<lambda>m opt u. (Status_Ok, u)" id "()"]
    qos_threads_refine [OF strand_reach [of "\<lambda>m opt u. (Status_Ok, u)" id "()"]] by (metis qos_threads.select_convs(5))

lemma qos_worker_not_stranded_witness:
  "list_all waits_never (qt_senders ((qt_init () (QosOptions_default\<lparr>backpressure := kDropNew\<rparr>) 2 1)\<lparr>qt_worker := KAsleep\<rparr>))"
  using qos_worker_not_stranded [OF worker_sleeps [of "\<lambda>m opt u. (Status_Ok, u)" id "()"
      "QosOptions_default\<lparr>backpressure := kDropNew\<rparr>" 2 1]] by simp

lemma qos_destructor_returns_witness:
  "\<exists>s'. kstep (\<lambda>m opt u. (Status_Ok, u))
      ((qt_init () QosOptions_default 2 1)\<lparr>qt_pipe := (mk_QosPipe () QosOptions_default)\<lparr>running := False\<rparr>,
         qt_worker := KWoken, qt_closers := [CClose]\<rparr>) s'"
  using qos_destructor_returns [OF sleeper_closed [of "\<lambda>m opt u. (Status_Ok, u)" id "()" QosOptions_default 2]] by simp

end
