(* ===== verification/Duct_Message_Store.thy ===== *)
theory Duct_Message_Store
  imports Duct_Message
begin

text \<open>
  The sharing behind \<^verbatim>\<open>include/duct/message.h\<close>: a message holds a shared pointer to a byte vector, copies
  of a message point to the same vector, and the non-constant \<open>data()\<close> and \<open>view()\<close> write into it. Here a
  message is a reference into a store of vectors. The other theories treat a message as a value; this
  one shows when that is right: always, as long as nobody writes through a message that is shared.
\<close>

section \<open>References and the store\<close>

type_synonym vector_store = "byte_seq list"

record MessageRef =
  ref_backing :: "nat option"
  ref_size :: nat

definition ref_default :: MessageRef where
  "ref_default = \<lparr>ref_backing = None, ref_size = 0\<rparr>"

definition ref_from_bytes :: "byte_seq \<Rightarrow> nat \<Rightarrow> vector_store \<Rightarrow> MessageRef \<times> vector_store" where
  "ref_from_bytes data n st =
     (let vec = replicate n 0;
          vec' = (if n \<noteq> 0 then memcpy_at vec 0 (take n data) else vec)
      in (\<lparr>ref_backing = Some (length st), ref_size = n\<rparr>, st @ [vec']))"

definition ref_from_string :: "string \<Rightarrow> vector_store \<Rightarrow> MessageRef \<times> vector_store" where
  "ref_from_string s st = ref_from_bytes (bytes_of_string s) (length s) st"

definition ref_with_capacity :: "nat \<Rightarrow> vector_store \<Rightarrow> MessageRef \<times> vector_store" where
  "ref_with_capacity capacity st = (\<lparr>ref_backing = Some (length st), ref_size = 0\<rparr>, st @ [[]])"

text \<open>\<open>data()\<close> points to the start of the vector, or is null.\<close>

definition ref_data :: "MessageRef \<Rightarrow> nat option" where
  "ref_data m = ref_backing m"

definition ref_view :: "vector_store \<Rightarrow> MessageRef \<Rightarrow> byte_seq" where
  "ref_view st m = (case ref_data m of None \<Rightarrow> [] | Some a \<Rightarrow> take (ref_size m) (st ! a))"

text \<open>\<open>data()[i] = b\<close>; outside the message this is undefined behaviour.\<close>

definition ref_write :: "MessageRef \<Rightarrow> nat \<Rightarrow> u8 \<Rightarrow> vector_store \<Rightarrow> vector_store option" where
  "ref_write m i b st =
     (case ref_data m of
        None \<Rightarrow> None
      | Some a \<Rightarrow> if i < ref_size m then Some (st[a := (st ! a)[i := b]]) else None)"

definition ref_equals :: "vector_store \<Rightarrow> MessageRef \<Rightarrow> MessageRef \<Rightarrow> bool" where
  "ref_equals st x y \<longleftrightarrow> ref_size x = ref_size y \<and> (ref_size x = 0 \<or> ref_view st x = ref_view st y)"

section \<open>The value a reference stands for\<close>

definition ref_value :: "vector_store \<Rightarrow> MessageRef \<Rightarrow> Message" where
  "ref_value st m = \<lparr>backing = map_option ((!) st) (ref_backing m), msg_size = ref_size m\<rparr>"

definition ref_valid :: "vector_store \<Rightarrow> MessageRef \<Rightarrow> bool" where
  "ref_valid st m \<longleftrightarrow>
     (case ref_backing m of None \<Rightarrow> ref_size m = 0 | Some a \<Rightarrow> a < length st \<and> ref_size m \<le> length (st ! a))"

lemma ref_value_ops:
  "ref_from_bytes data n st = (m, st') \<Longrightarrow> ref_value st' m = from_bytes data n"
  "ref_from_string s st = (m, st') \<Longrightarrow> ref_value st' m = from_string s"
  "ref_with_capacity c st = (m, st') \<Longrightarrow> ref_value st' m = with_capacity c"
  "ref_view st m = view (ref_value st m)"
  "ref_equals st m m2 = msg_equals (ref_value st m) (ref_value st m2)"
  by (auto simp: ref_from_bytes_def ref_from_string_def from_string_def ref_with_capacity_def from_bytes_def with_capacity_def
      ref_value_def ref_view_def view_def ref_data_def ref_equals_def msg_equals_def Let_def split: option.splits)

lemma ref_valid_wf: "ref_valid st m \<Longrightarrow> wf_Message (ref_value st m)"
  by (simp add: ref_valid_def ref_value_def wf_Message_def split: option.splits)

lemma ref_grow: "ref_valid st m \<Longrightarrow> ref_value (st @ vs) m = ref_value st m \<and> ref_valid (st @ vs) m"
  by (auto simp: ref_valid_def ref_value_def nth_append split: option.splits)

lemma ref_from_bytes_valid:
  "ref_from_bytes data n st = (m, st') \<Longrightarrow> n \<le> length data \<Longrightarrow> \<exists>v. st' = st @ [v] \<and> ref_valid st' m"
  by (auto simp: ref_from_bytes_def ref_valid_def Let_def)

lemma ref_with_capacity_valid: "ref_with_capacity c st = (m, st') \<Longrightarrow> \<exists>v. st' = st @ [v] \<and> ref_valid st' m"
  by (auto simp: ref_with_capacity_def ref_valid_def)

section \<open>Programs that make, copy and write messages\<close>

text \<open>
  A program works on a list of messages: it makes a message at the end of the list, copies one there,
  or writes a byte of one. The same program over values writes only the message it names.
\<close>

datatype msg_op = MakeBytes byte_seq | MakeCapacity nat | CopyOf nat | WriteByte nat nat u8

fun ref_exec :: "msg_op \<Rightarrow> MessageRef list \<times> vector_store \<Rightarrow> (MessageRef list \<times> vector_store) option" where
  "ref_exec (MakeBytes bs) (ms, st) = (case ref_from_bytes bs (length bs) st of (m, st') \<Rightarrow> Some (ms @ [m], st'))"
| "ref_exec (MakeCapacity c) (ms, st) = (case ref_with_capacity c st of (m, st') \<Rightarrow> Some (ms @ [m], st'))"
| "ref_exec (CopyOf k) (ms, st) = (if k < length ms then Some (ms @ [ms ! k], st) else None)"
| "ref_exec (WriteByte k i b) (ms, st) =
     (if k < length ms then map_option (\<lambda>st'. (ms, st')) (ref_write (ms ! k) i b st) else None)"

definition value_write :: "Message \<Rightarrow> nat \<Rightarrow> u8 \<Rightarrow> Message option" where
  "value_write m i b =
     (case backing m of None \<Rightarrow> None | Some v \<Rightarrow> if i < msg_size m then Some (m\<lparr>backing := Some (v[i := b])\<rparr>) else None)"

fun value_exec :: "msg_op \<Rightarrow> Message list \<Rightarrow> Message list option" where
  "value_exec (MakeBytes bs) ms = Some (ms @ [from_bytes bs (length bs)])"
| "value_exec (MakeCapacity c) ms = Some (ms @ [with_capacity c])"
| "value_exec (CopyOf k) ms = (if k < length ms then Some (ms @ [ms ! k]) else None)"
| "value_exec (WriteByte k i b) ms =
     (if k < length ms then map_option (\<lambda>m. ms[k := m]) (value_write (ms ! k) i b) else None)"

text \<open>The write names a message whose vector no other message of the program has.\<close>

fun unshared :: "msg_op \<Rightarrow> MessageRef list \<Rightarrow> bool" where
  "unshared (WriteByte k i b) ms \<longleftrightarrow>
     (\<forall>j<length ms. j \<noteq> k \<longrightarrow> ref_backing (ms ! j) \<noteq> ref_backing (ms ! k) \<or> ref_backing (ms ! j) = None)"
| "unshared _ ms \<longleftrightarrow> True"

fun ref_run :: "msg_op list \<Rightarrow> MessageRef list \<times> vector_store \<Rightarrow> (MessageRef list \<times> vector_store) option" where
  "ref_run [] s = Some s"
| "ref_run (x # xs) s = (case ref_exec x s of None \<Rightarrow> None | Some s' \<Rightarrow> ref_run xs s')"

fun value_run :: "msg_op list \<Rightarrow> Message list \<Rightarrow> Message list option" where
  "value_run [] ms = Some ms"
| "value_run (x # xs) ms = (case value_exec x ms of None \<Rightarrow> None | Some ms' \<Rightarrow> value_run xs ms')"

fun run_unshared :: "msg_op list \<Rightarrow> MessageRef list \<times> vector_store \<Rightarrow> bool" where
  "run_unshared [] s \<longleftrightarrow> True"
| "run_unshared (x # xs) s \<longleftrightarrow> unshared x (fst s) \<and> (case ref_exec x s of None \<Rightarrow> True | Some s' \<Rightarrow> run_unshared xs s')"

definition ref_values :: "MessageRef list \<times> vector_store \<Rightarrow> Message list" where
  "ref_values s = map (ref_value (snd s)) (fst s)"

definition refs_ok :: "MessageRef list \<times> vector_store \<Rightarrow> bool" where
  "refs_ok s \<longleftrightarrow> (\<forall>m\<in>set (fst s). ref_valid (snd s) m)"

lemma nth_update: "j < length xs \<Longrightarrow> xs[i := x] ! j = (if i = j then x else xs ! j)"
  by (cases "i = j") simp_all

lemma refs_grow:
  assumes "refs_ok (ms, st)" "st' = st @ vs" "ref_valid st' m"
  shows "refs_ok (ms @ [m], st')" "ref_values (ms @ [m], st') = ref_values (ms, st) @ [ref_value st' m]"
  using assms ref_grow [of st _ vs] by (auto simp: refs_ok_def ref_values_def)

lemma ref_write_value:
  assumes "ref_write m i b st = Some st'" "ref_valid st m"
  shows "value_write (ref_value st m) i b = Some (ref_value st' m)"
  using assms by (auto simp: ref_write_def value_write_def ref_value_def ref_valid_def ref_data_def split: option.splits if_splits)

lemma ref_write_keeps:
  assumes "ref_write m i b st = Some st'" "ref_valid st x"
  shows "ref_valid st' x" "ref_backing x \<noteq> ref_backing m \<Longrightarrow> ref_value st' x = ref_value st x"
  using assms
  by (auto simp: ref_write_def ref_value_def ref_valid_def ref_data_def nth_update split: option.splits if_splits)

lemma ref_write_none: "ref_write m i b st = None \<longleftrightarrow> value_write (ref_value st m) i b = None"
  by (auto simp: ref_write_def value_write_def ref_value_def ref_data_def split: option.splits)

lemma write_step:
  assumes "refs_ok (ms, st)" "k < length ms" "ref_write (ms ! k) i b st = Some st'" "unshared (WriteByte k i b) ms"
  shows "refs_ok (ms, st')" "ref_values (ms, st') = (ref_values (ms, st))[k := ref_value st' (ms ! k)]"
proof -
  have v: "\<And>x. x \<in> set ms \<Longrightarrow> ref_valid st x" using assms(1) by (simp add: refs_ok_def)
  show "refs_ok (ms, st')" using v ref_write_keeps(1) [OF assms(3)] by (auto simp: refs_ok_def)
  have same: "ref_value st' (ms ! j) = ref_value st (ms ! j)" if j: "j < length ms" "j \<noteq> k" for j
  proof (cases "ref_backing (ms ! j)")
    case None
    then show ?thesis by (simp add: ref_value_def)
  next
    case (Some a)
    with assms(4) j have "ref_backing (ms ! j) \<noteq> ref_backing (ms ! k)" by auto
    then show ?thesis using ref_write_keeps(2) [OF assms(3) v] j(1) by simp
  qed
  show "ref_values (ms, st') = (ref_values (ms, st))[k := ref_value st' (ms ! k)]"
    by (rule nth_equalityI) (auto simp: ref_values_def nth_update same)
qed

lemma ref_exec_value:
  assumes "refs_ok s" "unshared x (fst s)"
  shows "value_exec x (ref_values s) = map_option ref_values (ref_exec x s)
     \<and> (case ref_exec x s of None \<Rightarrow> True | Some s' \<Rightarrow> refs_ok s')"
proof -
  obtain ms st where s: "s = (ms, st)" by force
  show ?thesis
  proof (cases x)
    case (MakeBytes bs)
    obtain m st' where m: "ref_from_bytes bs (length bs) st = (m, st')" by force
    then obtain v where "st' = st @ [v]" "ref_valid st' m" using ref_from_bytes_valid by blast
    from refs_grow [OF assms(1) [unfolded s] this] MakeBytes m ref_value_ops(1) [OF m] show ?thesis by (simp add: s)
  next
    case (MakeCapacity c)
    obtain m st' where m: "ref_with_capacity c st = (m, st')" by force
    then obtain v where "st' = st @ [v]" "ref_valid st' m" using ref_with_capacity_valid by blast
    from refs_grow [OF assms(1) [unfolded s] this] MakeCapacity m ref_value_ops(3) [OF m] show ?thesis by (simp add: s)
  next
    case (CopyOf k)
    then show ?thesis using assms(1) by (auto simp: s ref_values_def refs_ok_def)
  next
    case (WriteByte k i b)
    show ?thesis
    proof (cases "k < length ms")
      case k: True
      then have v: "ref_valid st (ms ! k)" using assms(1) by (simp add: s refs_ok_def)
      show ?thesis
      proof (cases "ref_write (ms ! k) i b st")
        case None
        with k WriteByte ref_write_none [of "ms ! k" i b st] show ?thesis by (simp add: s ref_values_def)
      next
        case (Some st')
        with k WriteByte assms ref_write_value [OF Some v] write_step [OF _ k Some] show ?thesis
          by (simp add: s) (simp add: ref_values_def)
      qed
    qed (simp add: s WriteByte ref_values_def)
  qed
qed

lemma ref_run_value:
  "refs_ok s \<Longrightarrow> run_unshared xs s \<Longrightarrow> value_run xs (ref_values s) = map_option ref_values (ref_run xs s)"
proof (induction xs arbitrary: s)
  case (Cons x xs)
  from ref_exec_value [OF Cons.prems(1), of x] Cons show ?case by (auto split: option.splits)
qed simp

section \<open>Properties\<close>

text \<open>
  C14: Messages are values, as long as no shared message is written: a program that makes, copies and
  writes messages does over references into the store exactly what it does over values, and is undefined
  in the same places.
\<close>

theorem message_value_semantics:
  assumes "run_unshared xs ([], [])"
  shows "value_run xs [] = map_option ref_values (ref_run xs ([], []))"
  using ref_run_value [OF _ assms] by (simp add: refs_ok_def ref_values_def)

text \<open>
  A write through one message shows in every copy of it, and in no message with another vector. So a
  message that is changed after it has been queued for sending is sent changed.
\<close>

theorem message_write_shared:
  assumes "ref_write m i b st = Some st'" "ref_valid st m" "ref_valid st x"
  shows "ref_view st' x = (if ref_backing x = ref_backing m then (ref_view st x)[i := b] else ref_view st x)"
proof (cases "ref_backing x = ref_backing m")
  case True
  with assms show ?thesis
    by (auto simp: ref_write_def ref_view_def ref_data_def ref_valid_def take_update_swap split: option.splits if_splits)
next
  case False
  with ref_write_keeps(2) [OF assms(1,3)] show ?thesis by (simp add: ref_value_ops(4))
qed

lemma message_value_semantics_witness:
  "value_run [MakeBytes [1, 2], CopyOf 0, MakeBytes [7], WriteByte 2 0 9] []
     = map_option ref_values (ref_run [MakeBytes [1, 2], CopyOf 0, MakeBytes [7], WriteByte 2 0 9] ([], []))"
proof -
  have "run_unshared [MakeBytes [1, 2], CopyOf 0, MakeBytes [7], WriteByte 2 0 9] ([], [])"
    by (simp add: ref_from_bytes_def memcpy_at_def less_Suc_eq ref_write_def ref_data_def eval_nat_numeral)
  then show ?thesis by (rule message_value_semantics)
qed

lemma message_write_shared_witness:
  "ref_view [[5, 6, 3]] \<lparr>ref_backing = Some 0, ref_size = 2\<rparr> = [5, 6]"
  using message_write_shared [of "\<lparr>ref_backing = Some 0, ref_size = 3\<rparr>" 0 5 "[[1, 6, 3]]" "[[5, 6, 3]]"
      "\<lparr>ref_backing = Some 0, ref_size = 2\<rparr>"]
  by (simp add: ref_write_def ref_data_def ref_valid_def ref_view_def)

end
