(* ===== verification/Duct_Pipe.thy ===== *)
theory Duct_Pipe
  imports Duct_Options
begin

text \<open>
  The \<open>Pipe\<close> interface of \<^verbatim>\<open>include/duct/duct.h\<close> and its clients in
  \<^verbatim>\<open>include/duct/convenience.h\<close>. A pipe is a state (the object together with the world it acts
  on) with three operations; \<open>send\<close> and \<open>recv\<close> may block forever, so they return an option. The
  client functions take the operations as arguments. What every pipe of the library promises,
  and what pipes over byte streams promise in addition, are locales; the clients' behaviour is
  proved from them once.
\<close>

type_synonym 'p psend = "Message \<Rightarrow> SendOptions \<Rightarrow> 'p \<Rightarrow> (Status \<times> 'p) option"
type_synonym 'p precv = "RecvOptions \<Rightarrow> 'p \<Rightarrow> (Message Result \<times> 'p) option"

section \<open>Convenience functions\<close>

definition request ::
  "'p psend \<Rightarrow> 'p precv \<Rightarrow> Message \<Rightarrow> millis \<Rightarrow> 'p \<Rightarrow> (Message Result \<times> 'p) option" where
  "request send recv req timeout p =
     (case send req \<lparr>snd_timeout = timeout\<rparr> p of
        None \<Rightarrow> None
      | Some (st, p') \<Rightarrow>
          if \<not> status_ok st then Some (ResErr st, p') else recv \<lparr>rcv_timeout = timeout\<rparr> p')"

definition reply :: "'p psend \<Rightarrow> Message \<Rightarrow> 'p \<Rightarrow> (Status \<times> 'p) option" where
  "reply send response p = send response SendOptions_default p"

text \<open>The loops over the batch carry the number sent, or the messages received, so far.\<close>

fun send_loop :: "'p psend \<Rightarrow> Message list \<Rightarrow> nat \<Rightarrow> 'p \<Rightarrow> (nat Result \<times> 'p) option" where
  "send_loop send [] sent p = Some (ResVal sent, p)"
| "send_loop send (m # ms) sent p =
     (case send m SendOptions_default p of
        None \<Rightarrow> None
      | Some (st, p') \<Rightarrow>
          if \<not> status_ok st then Some (ResErr st, p') else send_loop send ms (Suc sent) p')"

definition send_batch :: "'p psend \<Rightarrow> Message list \<Rightarrow> 'p \<Rightarrow> (nat Result \<times> 'p) option" where
  "send_batch send ms p = send_loop send ms 0 p"

fun recv_loop :: "'p precv \<Rightarrow> nat \<Rightarrow> millis \<Rightarrow> Message list \<Rightarrow> 'p \<Rightarrow> (Message list Result \<times> 'p) option" where
  "recv_loop recv 0 timeout messages p = Some (ResVal messages, p)"
| "recv_loop recv (Suc n) timeout messages p =
     (case recv \<lparr>rcv_timeout = timeout\<rparr> p of
        None \<Rightarrow> None
      | Some (ResErr st, p') \<Rightarrow> Some (ResErr st, p')
      | Some (ResVal m, p') \<Rightarrow> recv_loop recv n timeout (messages @ [m]) p')"

definition recv_batch :: "'p precv \<Rightarrow> nat \<Rightarrow> millis \<Rightarrow> 'p \<Rightarrow> (Message list Result \<times> 'p) option" where
  "recv_batch recv count timeout p = recv_loop recv count timeout [] p"

text \<open>How the receiving loops end when \<open>recv\<close> reports an error.\<close>

definition loop_end :: "Status \<Rightarrow> Status" where
  "loop_end st = (if code st = kClosed then Status_Ok else st)"

partial_function (option) echo_server :: "'p psend \<Rightarrow> 'p precv \<Rightarrow> 'p \<Rightarrow> (Status \<times> 'p) option" where
  "echo_server send recv p =
     (case recv RecvOptions_default p of
        None \<Rightarrow> None
      | Some (r, p') \<Rightarrow>
          (case r of
             ResErr st \<Rightarrow> Some (loop_end st, p')
           | ResVal m \<Rightarrow>
               (case send m SendOptions_default p' of
                  None \<Rightarrow> None
                | Some (st, p'') \<Rightarrow>
                    if \<not> status_ok st then Some (st, p'') else echo_server send recv p'')))"

text \<open>The handlers are functions with a state of their own.\<close>

partial_function (option) serve ::
  "'p precv \<Rightarrow> (Message \<Rightarrow> 'h \<Rightarrow> Status \<times> 'h) \<Rightarrow> 'p \<Rightarrow> 'h \<Rightarrow> (Status \<times> 'p \<times> 'h) option" where
  "serve recv handler p h =
     (case recv RecvOptions_default p of
        None \<Rightarrow> None
      | Some (r, p') \<Rightarrow>
          (case r of
             ResErr st \<Rightarrow> Some (loop_end st, p', h)
           | ResVal m \<Rightarrow>
               (case handler m h of (st, h') \<Rightarrow>
                  if \<not> status_ok st then Some (st, p', h') else serve recv handler p' h')))"

partial_function (option) consume_loop ::
  "'p precv \<Rightarrow> (Message \<Rightarrow> 'h \<Rightarrow> Status \<times> 'h) \<Rightarrow> millis \<Rightarrow> 'p \<Rightarrow> 'h \<Rightarrow> (Status \<times> 'p \<times> 'h) option" where
  "consume_loop recv consume timeout p h =
     (case recv \<lparr>rcv_timeout = timeout\<rparr> p of
        None \<Rightarrow> None
      | Some (r, p') \<Rightarrow>
          (case r of
             ResErr st \<Rightarrow> Some (loop_end st, p', h)
           | ResVal m \<Rightarrow>
               (case consume m h of (st, h') \<Rightarrow>
                  if \<not> status_ok st then Some (st, p', h') else consume_loop recv consume timeout p' h')))"

partial_function (option) produce_loop ::
  "'p psend \<Rightarrow> ('h \<Rightarrow> Message option \<times> 'h) \<Rightarrow> millis \<Rightarrow> 'p \<Rightarrow> 'h \<Rightarrow> (Status \<times> 'p \<times> 'h) option" where
  "produce_loop send produce timeout p h =
     (case produce h of (mo, h') \<Rightarrow>
        (case mo of
           None \<Rightarrow> Some (Status_Ok, p, h')
         | Some m \<Rightarrow>
             (case send m \<lparr>snd_timeout = timeout\<rparr> p of
                None \<Rightarrow> None
              | Some (st, p') \<Rightarrow>
                  if \<not> status_ok st then Some (st, p', h') else produce_loop send produce timeout p' h')))"

section \<open>Contracts\<close>

text \<open>A sequence of calls on one pipe, and the status codes the caller sees (\<open>close\<close> returns nothing).\<close>

datatype call = CallSend Message SendOptions | CallRecv RecvOptions | CallClose

fun run_calls ::
  "'p psend \<Rightarrow> 'p precv \<Rightarrow> ('p \<Rightarrow> 'p) \<Rightarrow> call list \<Rightarrow> 'p \<Rightarrow> (StatusCode list \<times> 'p) option" where
  "run_calls psend precv pclose [] p = Some ([], p)"
| "run_calls psend precv pclose (CallSend m opt # cs) p =
     (case psend m opt p of None \<Rightarrow> None
      | Some (s, p') \<Rightarrow> map_option (apfst ((#) (code s))) (run_calls psend precv pclose cs p'))"
| "run_calls psend precv pclose (CallRecv opt # cs) p =
     (case precv opt p of None \<Rightarrow> None
      | Some (r, p') \<Rightarrow> map_option (apfst ((#) (code (result_status r)))) (run_calls psend precv pclose cs p'))"
| "run_calls psend precv pclose (CallClose # cs) p = run_calls psend precv pclose cs (pclose p)"

text \<open>
  What closing a pipe means, for every pipe of the library: in a consistent state closing closes,
  a closed pipe stays as it is, and every call on it reports \<open>kClosed\<close>.
\<close>

locale pipe =
  fixes psend :: "'p psend"
    and precv :: "'p precv"
    and pclose :: "'p \<Rightarrow> 'p"
    and pclosed :: "'p \<Rightarrow> bool"
    and pinv :: "'p \<Rightarrow> bool"
  assumes close_closes: "pinv p \<Longrightarrow> pclosed (pclose p)"
    and close_inv: "pinv p \<Longrightarrow> pinv (pclose p)"
    and send_inv: "pinv p \<Longrightarrow> psend m opt p = Some (s, p') \<Longrightarrow> pinv p'"
    and recv_inv: "pinv p \<Longrightarrow> precv ropt p = Some (r, p') \<Longrightarrow> pinv p'"
    and close_again: "pclosed p \<Longrightarrow> pclose p = p"
    and closed_send: "pclosed p \<Longrightarrow> \<exists>s. psend m opt p = Some (s, p) \<and> code s = kClosed"
    and closed_recv: "pclosed p \<Longrightarrow> \<exists>s. precv ropt p = Some (ResErr s, p) \<and> code s = kClosed"
begin

text \<open>After \<open>close\<close> any sequence of calls changes nothing and gets \<open>kClosed\<close> every time.\<close>

lemma run_closed:
  "pclosed p \<Longrightarrow>
   run_calls psend precv pclose cs p = Some (replicate (length (filter ((\<noteq>) CallClose) cs)) kClosed, p)"
proof (induction cs)
  case (Cons c cs)
  then show ?case
  proof (cases c)
    case (CallSend m opt)
    with Cons closed_send [OF Cons.prems, of m opt] show ?thesis by auto
  next
    case (CallRecv opt)
    with Cons closed_recv [OF Cons.prems, of opt] show ?thesis by auto
  next
    case CallClose
    with Cons close_again [OF Cons.prems] show ?thesis by auto
  qed
qed simp

lemmas run_after_close = run_closed [OF close_closes]

lemma request_closed:
  "pclosed p \<Longrightarrow> \<exists>s. request psend precv m t p = Some (ResErr s, p) \<and> code s = kClosed"
  using closed_send [of p m "\<lparr>snd_timeout = t\<rparr>"] by (auto simp: request_def status_ok_def)

lemma send_batch_closed:
  "pclosed p \<Longrightarrow> ms \<noteq> [] \<Longrightarrow> \<exists>s. send_batch psend ms p = Some (ResErr s, p) \<and> code s = kClosed"
  using closed_send [of p "hd ms" SendOptions_default]
  by (cases ms) (auto simp: send_batch_def status_ok_def)

lemma echo_server_closed: "pclosed p \<Longrightarrow> echo_server psend precv p = Some (Status_Ok, p)"
  using closed_recv [of p RecvOptions_default]
  by (auto simp: echo_server.simps [of psend precv p] loop_end_def)

lemma serve_closed: "pclosed p \<Longrightarrow> serve precv fn p h = Some (Status_Ok, p, h)"
  using closed_recv [of p RecvOptions_default] by (auto simp: serve.simps [of precv fn p h] loop_end_def)

lemma consume_closed: "pclosed p \<Longrightarrow> consume_loop precv fn t p h = Some (Status_Ok, p, h)"
  using closed_recv [of p "\<lparr>rcv_timeout = t\<rparr>"]
  by (auto simp: consume_loop.simps [of precv fn t p h] loop_end_def)

end

text \<open>
  A pipe that carries messages as self-delimiting records of a byte stream: what a successful
  \<open>send\<close> appends to the outgoing stream, what \<open>recv\<close> makes of an incoming stream that starts with
  a record, and at its end. Every call returns.
\<close>

locale framed_pipe = pipe psend precv pclose pclosed pinv
  for psend :: "'p psend" and precv :: "'p precv" and pclose :: "'p \<Rightarrow> 'p" and pclosed :: "'p \<Rightarrow> bool"
    and pinv :: "'p \<Rightarrow> bool" +
  fixes outgoing_of :: "'p \<Rightarrow> byte_seq"
    and incoming_of :: "'p \<Rightarrow> byte_seq"
    and enc :: "byte_seq \<Rightarrow> byte_seq"
    and fits :: "byte_seq \<Rightarrow> bool"
  assumes send_returns: "\<exists>s p'. psend m opt p = Some (s, p')"
    and send_appends: "wf_Message m \<Longrightarrow> psend m opt p = Some (s, p') \<Longrightarrow> status_ok s \<Longrightarrow>
      outgoing_of p' = outgoing_of p @ enc (view m) \<and> incoming_of p' = incoming_of p"
    and recv_record: "pinv p \<Longrightarrow> \<not> pclosed p \<Longrightarrow> fits bs \<Longrightarrow> incoming_of p = enc bs @ rest \<Longrightarrow>
      \<exists>r p'. precv ropt p = Some (r, p') \<and> outgoing_of p' = outgoing_of p \<and>
        (case r of ResVal m \<Rightarrow> wf_Message m \<and> view m = bs \<and> incoming_of p' = rest
                 | ResErr s \<Rightarrow> code s = kIoError)"
    and recv_end: "pinv p \<Longrightarrow> \<not> pclosed p \<Longrightarrow> incoming_of p = [] \<Longrightarrow>
      \<exists>s p'. precv ropt p = Some (ResErr s, p') \<and> outgoing_of p' = outgoing_of p
        \<and> (code s = kClosed \<or> code s = kIoError)"
    and send_keeps_open: "\<not> pclosed p \<Longrightarrow> psend m opt p = Some (s, p') \<Longrightarrow> \<not> pclosed p'"
    and recv_keeps_open: "\<not> pclosed p \<Longrightarrow> precv ropt p = Some (r, p') \<Longrightarrow> \<not> pclosed p'"
begin

lemma send_loop_stream:
  "\<forall>m\<in>set ms. wf_Message m \<Longrightarrow>
   \<exists>r p'. send_loop psend ms k p = Some (r, p') \<and>
     (case r of ResVal n \<Rightarrow> n = k + length ms
                  \<and> outgoing_of p' = outgoing_of p @ concat (map (enc \<circ> view) ms)
              | ResErr s \<Rightarrow> \<not> status_ok s)"
proof (induction ms arbitrary: k p)
  case (Cons m ms)
  obtain s p1 where s: "psend m SendOptions_default p = Some (s, p1)" using send_returns by blast
  show ?case
  proof (cases "status_ok s")
    case True
    with s Cons.prems have "outgoing_of p1 = outgoing_of p @ enc (view m)"
      using send_appends [of m SendOptions_default p s p1] by simp
    with Cons.IH [of "Suc k" p1] Cons.prems s True show ?thesis
      by (fastforce split: Result.splits)
  qed (use s in simp)
qed simp

lemma recv_loop_stream:
  "pinv p \<Longrightarrow> \<not> pclosed p \<Longrightarrow> \<forall>bs\<in>set bss. fits bs \<Longrightarrow> incoming_of p = concat (map enc bss) @ rest \<Longrightarrow>
   \<exists>r p'. recv_loop precv (length bss) t got p = Some (r, p') \<and>
     (case r of ResVal ms \<Rightarrow> map view ms = map view got @ bss \<and> incoming_of p' = rest
              | ResErr s \<Rightarrow> code s = kIoError)"
proof (induction bss arbitrary: got p)
  case (Cons bs bss)
  obtain r p1 where r: "precv \<lparr>rcv_timeout = t\<rparr> p = Some (r, p1)"
    "case r of ResVal m \<Rightarrow> wf_Message m \<and> view m = bs \<and> incoming_of p1 = concat (map enc bss) @ rest
       | ResErr s \<Rightarrow> code s = kIoError"
    using recv_record [of p bs "concat (map enc bss) @ rest" "\<lparr>rcv_timeout = t\<rparr>"] Cons.prems
    by auto
  note open1 = recv_keeps_open [OF Cons.prems(2) r(1)] recv_inv [OF Cons.prems(1) r(1)]
  show ?case
  proof (cases r)
    case (ResVal m)
    with r open1 Cons.prems Cons.IH [of p1 "got @ [m]"] show ?thesis
      by (fastforce split: Result.splits)
  qed (use r in auto)
qed simp

text \<open>The echo server returns the whole stream of records it received.\<close>

lemma echo_server_stream:
  "pinv p \<Longrightarrow> \<not> pclosed p \<Longrightarrow> \<forall>bs\<in>set bss. fits bs \<Longrightarrow> incoming_of p = concat (map enc bss) \<Longrightarrow>
   \<exists>s p'. echo_server psend precv p = Some (s, p') \<and>
     (status_ok s \<longrightarrow> outgoing_of p' = outgoing_of p @ concat (map enc bss))"
proof (induction bss arbitrary: p)
  case Nil
  then obtain s p' where "precv RecvOptions_default p = Some (ResErr s, p')" "outgoing_of p' = outgoing_of p"
    using recv_end [of p RecvOptions_default] by auto
  then show ?case by (simp add: echo_server.simps [of psend precv p])
next
  case (Cons bs bss)
  obtain r p1 where r: "precv RecvOptions_default p = Some (r, p1)" "outgoing_of p1 = outgoing_of p"
    "case r of ResVal m \<Rightarrow> wf_Message m \<and> view m = bs \<and> incoming_of p1 = concat (map enc bss)
       | ResErr s \<Rightarrow> code s = kIoError"
    using recv_record [of p bs "concat (map enc bss)" RecvOptions_default] Cons.prems by auto
  note open1 = recv_keeps_open [OF Cons.prems(2) r(1)] recv_inv [OF Cons.prems(1) r(1)]
  show ?case
  proof (cases r)
    case (ResErr st)
    with r show ?thesis by (simp add: echo_server.simps [of psend precv p] loop_end_def status_ok_def)
  next
    case (ResVal m)
    obtain s p2 where s: "psend m SendOptions_default p1 = Some (s, p2)" using send_returns by blast
    show ?thesis
    proof (cases "status_ok s")
      case True
      with s r ResVal have "outgoing_of p2 = outgoing_of p @ enc bs" "incoming_of p2 = concat (map enc bss)"
        "\<not> pclosed p2" "pinv p2"
        using send_appends [of m SendOptions_default p1 s p2] send_keeps_open send_inv open1 by auto
      with Cons.IH [of p2] Cons.prems r s ResVal True show ?thesis
        by (fastforce simp: echo_server.simps [of psend precv p])
    qed (use r s ResVal in \<open>simp add: echo_server.simps [of psend precv p]\<close>)
  qed
qed

end

end
