(* ===== verification/Duct_State_Callback.thy ===== *)
theory Duct_State_Callback
  imports Duct_Pipe
begin

text \<open>
  \<^verbatim>\<open>src/state_callback_pipe.cc\<close>: a pipe around a pipe that reports the first disconnection and the
  closing to a callback. The calls of the callback are recorded in the order they are made. First
  one thread at a time, then any number of threads, with the atomic flags and the owning pointer
  \<open>inner_\<close> accessed in separate steps.
\<close>

section \<open>The pipe\<close>

type_synonym state_event = "ConnectionState \<times> string"

text \<open>\<open>sc_live\<close> says that \<open>inner_\<close> is not null; \<open>sc_cb\<close> that a callback is set.\<close>

record 'p StateCallbackPipe =
  sc_inner :: 'p
  sc_live :: bool
  sc_cb :: bool
  sc_closed :: bool
  sc_disconnected :: bool
  sc_events :: "state_event list"

definition mk_StateCallbackPipe :: "'p \<Rightarrow> bool \<Rightarrow> 'p StateCallbackPipe" where
  "mk_StateCallbackPipe inner cb =
     \<lparr>sc_inner = inner, sc_live = True, sc_cb = cb, sc_closed = False, sc_disconnected = False, sc_events = []\<rparr>"

definition disconnect_code :: "StatusCode \<Rightarrow> bool" where
  "disconnect_code c \<longleftrightarrow> c = kClosed \<or> c = kIoError"

definition is_disconnect :: "Status \<Rightarrow> bool" where
  "is_disconnect st \<longleftrightarrow> disconnect_code (code st)"

definition call_cb :: "ConnectionState \<Rightarrow> string \<Rightarrow> 'p StateCallbackPipe \<Rightarrow> 'p StateCallbackPipe" where
  "call_cb st reason p = (if sc_cb p then p\<lparr>sc_events := sc_events p @ [(st, reason)]\<rparr> else p)"

definition emit_disconnected :: "string \<Rightarrow> 'p StateCallbackPipe \<Rightarrow> 'p StateCallbackPipe" where
  "emit_disconnected reason p =
     (if sc_disconnected p then p else call_cb kDisconnected reason (p\<lparr>sc_disconnected := True\<rparr>))"

definition sc_send :: "'p psend \<Rightarrow> 'p StateCallbackPipe psend" where
  "sc_send psend msg opt p =
     (if \<not> sc_live p then Some (closed_status ''pipe closed'', p)
      else case psend msg opt (sc_inner p) of
        None \<Rightarrow> None
      | Some (st, i) \<Rightarrow>
          let p = p\<lparr>sc_inner := i\<rparr>
          in Some (st, if \<not> status_ok st \<and> is_disconnect st
                       then emit_disconnected (''send: '' @ message st) p else p))"

definition sc_recv :: "'p precv \<Rightarrow> 'p StateCallbackPipe precv" where
  "sc_recv precv opt p =
     (if \<not> sc_live p then Some (ResErr (closed_status ''pipe closed''), p)
      else case precv opt (sc_inner p) of
        None \<Rightarrow> None
      | Some (r, i) \<Rightarrow>
          let p = p\<lparr>sc_inner := i\<rparr>
          in Some (r, if \<not> result_ok r \<and> is_disconnect (result_status r)
                      then emit_disconnected (''recv: '' @ message (result_status r)) p else p))"

definition sc_close :: "('p \<Rightarrow> 'p) \<Rightarrow> 'p StateCallbackPipe \<Rightarrow> 'p StateCallbackPipe" where
  "sc_close pclose p =
     (if sc_closed p then p
      else
        let p = call_cb kStateClosed ''closed'' (p\<lparr>sc_closed := True\<rparr>)
        in if sc_live p then p\<lparr>sc_inner := pclose (sc_inner p), sc_live := False\<rparr> else p)"

datatype 'p maybe_callback = Bare 'p | Reporting "'p StateCallbackPipe"

definition make_state_callback_pipe :: "'p \<Rightarrow> bool \<Rightarrow> 'p maybe_callback" where
  "make_state_callback_pipe inner cb = (if \<not> cb then Bare inner else Reporting (mk_StateCallbackPipe inner cb))"

section \<open>It is a pipe\<close>

definition sc_shut :: "'p StateCallbackPipe \<Rightarrow> bool" where
  "sc_shut p \<longleftrightarrow> sc_closed p \<and> \<not> sc_live p"

definition sc_inv :: "'p StateCallbackPipe \<Rightarrow> bool" where
  "sc_inv p \<longleftrightarrow> (sc_closed p \<longleftrightarrow> \<not> sc_live p)"

lemma call_cb_fields [simp]:
  "sc_inner (call_cb st r p) = sc_inner p" "sc_live (call_cb st r p) = sc_live p"
  "sc_closed (call_cb st r p) = sc_closed p" "sc_disconnected (call_cb st r p) = sc_disconnected p"
  "sc_cb (call_cb st r p) = sc_cb p"
  by (simp_all add: call_cb_def)

lemma emit_disconnected_fields [simp]:
  "sc_inner (emit_disconnected r p) = sc_inner p" "sc_live (emit_disconnected r p) = sc_live p"
  "sc_closed (emit_disconnected r p) = sc_closed p" "sc_cb (emit_disconnected r p) = sc_cb p"
  "sc_disconnected (emit_disconnected r p)"
  by (simp_all add: emit_disconnected_def)

lemma emit_disconnected_events:
  "sc_events (emit_disconnected r p) =
     (if \<not> sc_disconnected p \<and> sc_cb p then sc_events p @ [(kDisconnected, r)] else sc_events p)"
  by (simp add: emit_disconnected_def call_cb_def)

interpretation sc_pipe: pipe "sc_send s" "sc_recv r" "sc_close c" sc_shut sc_inv for s r c
  by unfold_locales
    (auto simp: sc_send_def sc_recv_def sc_close_def sc_shut_def sc_inv_def Let_def
      split: if_splits option.splits)

section \<open>What the callback is told, one thread at a time\<close>

lemma run_shut:
  "sc_shut p \<Longrightarrow> run_calls (sc_send s) (sc_recv r) (sc_close c) cs p
     = Some (replicate (length (filter ((\<noteq>) CallClose) cs)) kClosed, p)"
  by (rule sc_pipe.run_closed)

text \<open>The effect of a send or receive on an open pipe, in terms of the status code it returns.\<close>

definition told :: "StatusCode \<Rightarrow> 'p StateCallbackPipe \<Rightarrow> 'p StateCallbackPipe \<Rightarrow> bool" where
  "told k p p' \<longleftrightarrow> sc_live p' = sc_live p \<and> sc_closed p' = sc_closed p \<and> sc_cb p' = sc_cb p
     \<and> sc_disconnected p' = (sc_disconnected p \<or> disconnect_code k)
     \<and> map fst (sc_events p') = map fst (sc_events p)
         @ (if sc_cb p \<and> \<not> sc_disconnected p \<and> disconnect_code k then [kDisconnected] else [])"

lemma ok_not_disconnect: "status_ok st \<Longrightarrow> \<not> disconnect_code (code st)"
  by (simp add: status_ok_def disconnect_code_def)

lemma sc_send_told:
  "sc_live p \<Longrightarrow> sc_send s m opt p = Some (st, p') \<Longrightarrow>
   told (code st) p p' \<and> s m opt (sc_inner p) = Some (st, sc_inner p')"
  by (auto simp: sc_send_def told_def Let_def is_disconnect_def emit_disconnected_events
      dest: ok_not_disconnect split: option.splits if_splits)

lemma sc_recv_told:
  "sc_live p \<Longrightarrow> sc_recv r opt p = Some (res, p') \<Longrightarrow>
   told (code (result_status res)) p p' \<and> r opt (sc_inner p) = Some (res, sc_inner p')"
  by (cases res) (auto simp: sc_recv_def told_def Let_def is_disconnect_def emit_disconnected_events
      disconnect_code_def Status_Ok_def split: option.splits if_splits)

lemma sc_send_none: "sc_live p \<Longrightarrow> sc_send s m opt p = None \<Longrightarrow> s m opt (sc_inner p) = None"
  by (auto simp: sc_send_def Let_def split: option.splits)

lemma sc_recv_none: "sc_live p \<Longrightarrow> sc_recv r opt p = None \<Longrightarrow> r opt (sc_inner p) = None"
  by (auto simp: sc_recv_def Let_def split: option.splits)

lemma run_events:
  assumes "run_calls (sc_send s) (sc_recv r) (sc_close c) cs p = Some (rs, p')" "sc_live p" "\<not> sc_closed p" "sc_cb p"
  shows "map fst (sc_events p') = map fst (sc_events p)
     @ (if \<not> sc_disconnected p \<and> list_ex disconnect_code (take (length (takeWhile ((\<noteq>) CallClose) cs)) rs)
        then [kDisconnected] else [])
     @ (if CallClose \<in> set cs then [kStateClosed] else [])"
  using assms
proof (induction cs arbitrary: p rs)
  case (Cons k cs)
  show ?case
  proof (cases k)
    case (CallSend m opt)
    with Cons.prems obtain st p1 rs1 where s: "sc_send s m opt p = Some (st, p1)"
      and rs: "run_calls (sc_send s) (sc_recv r) (sc_close c) cs p1 = Some (rs1, p')" "rs = code st # rs1"
      by (auto split: option.splits)
    from sc_send_told [OF Cons.prems(2) s] Cons.prems Cons.IH [OF rs(1)] show ?thesis
      by (auto simp: told_def CallSend rs(2))
  next
    case (CallRecv opt)
    with Cons.prems obtain st p1 rs1 where s: "sc_recv r opt p = Some (st, p1)"
      and rs: "run_calls (sc_send s) (sc_recv r) (sc_close c) cs p1 = Some (rs1, p')"
        "rs = code (result_status st) # rs1"
      by (auto split: option.splits)
    from sc_recv_told [OF Cons.prems(2) s] Cons.prems Cons.IH [OF rs(1)] show ?thesis
      by (auto simp: told_def CallRecv rs(2))
  next
    case CallClose
    have "sc_shut (sc_close c p)" using Cons.prems by (simp add: sc_close_def sc_shut_def Let_def)
    then have "p' = sc_close c p" using run_shut [of "sc_close c p" s r c cs] CallClose Cons.prems by auto
    with CallClose Cons.prems show ?thesis by (simp add: sc_close_def Let_def call_cb_def)
  qed
qed simp

text \<open>On top of any pipe the wrapper returns what that pipe returns.\<close>

context pipe
begin

lemma state_callback_same:
  assumes "sc_inv p" "pinv (sc_inner p)" "\<not> sc_live p \<Longrightarrow> pclosed (sc_inner p)"
  shows "map_option (apsnd sc_inner) (run_calls (sc_send psend) (sc_recv precv) (sc_close pclose) cs p)
     = run_calls psend precv pclose cs (sc_inner p)"
  using assms
proof (induction cs arbitrary: p)
  case (Cons k cs)
  show ?case
  proof (cases "sc_live p")
    case False
    with Cons.prems show ?thesis
      using run_shut [of p psend precv pclose "k # cs"] run_closed [of "sc_inner p" "k # cs"]
      by (simp add: sc_inv_def sc_shut_def)
  next
    case True
    with Cons.prems have op: "\<not> sc_closed p" by (simp add: sc_inv_def)
    show ?thesis
    proof (cases k)
      case (CallSend m opt)
      show ?thesis
      proof (cases "sc_send psend m opt p")
        case (Some sp)
        then obtain st p1 where s: "sc_send psend m opt p = Some (st, p1)" by (cases sp) auto
        note t = sc_send_told [OF True s]
        with Cons.prems True op send_inv have "sc_inv p1" "pinv (sc_inner p1)" "sc_live p1"
          by (auto simp: told_def sc_inv_def)
        from Cons.IH [OF this(1,2)] this(3) t s CallSend show ?thesis
          by (simp add: map_option_apsnd_apfst)
      qed (use sc_send_none [OF True, of psend m opt] CallSend in simp)
    next
      case (CallRecv opt)
      show ?thesis
      proof (cases "sc_recv precv opt p")
        case (Some sp)
        then obtain st p1 where s: "sc_recv precv opt p = Some (st, p1)" by (cases sp) auto
        note t = sc_recv_told [OF True s]
        with Cons.prems True op recv_inv have "sc_inv p1" "pinv (sc_inner p1)" "sc_live p1"
          by (auto simp: told_def sc_inv_def)
        from Cons.IH [OF this(1,2)] this(3) t s CallRecv show ?thesis
          by (simp add: map_option_apsnd_apfst)
      qed (use sc_recv_none [OF True, of precv opt] CallRecv in simp)
    next
      case CallClose
      with Cons.prems True op close_inv close_closes show ?thesis
        using Cons.IH [of "sc_close pclose p"] by (simp add: sc_close_def sc_inv_def Let_def)
    qed
  qed
qed simp

end

text \<open>
  Around a pipe that carries a stream of records the wrapper is such a pipe again, over the streams
  of the inner pipe, as long as it is the only one that closes it.
\<close>

definition sc_owns :: "('p \<Rightarrow> bool) \<Rightarrow> ('p \<Rightarrow> bool) \<Rightarrow> 'p StateCallbackPipe \<Rightarrow> bool" where
  "sc_owns pinv pclosed p \<longleftrightarrow> sc_inv p \<and> pinv (sc_inner p) \<and> (sc_live p \<longrightarrow> \<not> pclosed (sc_inner p))"

lemma sc_send_live:
  "sc_live p \<Longrightarrow> s m opt (sc_inner p) = Some (st, i) \<Longrightarrow>
   \<exists>p'. sc_send s m opt p = Some (st, p') \<and> sc_inner p' = i \<and> sc_live p' \<and> sc_closed p' = sc_closed p"
  by (auto simp: sc_send_def Let_def)

lemma sc_recv_live:
  "sc_live p \<Longrightarrow> r opt (sc_inner p) = Some (res, i) \<Longrightarrow>
   \<exists>p'. sc_recv r opt p = Some (res, p') \<and> sc_inner p' = i \<and> sc_live p' \<and> sc_closed p' = sc_closed p"
  by (auto simp: sc_recv_def Let_def)

context framed_pipe
begin

lemma sc_owns_send:
  assumes "sc_owns pinv pclosed p" "sc_send psend m opt p = Some (st, p')"
  shows "sc_owns pinv pclosed p' \<and> sc_live p' = sc_live p"
proof (cases "sc_live p")
  case True
  obtain st' i where i: "psend m opt (sc_inner p) = Some (st', i)" using send_returns by blast
  with sc_send_live [OF True, of psend m opt] True assms send_inv [OF _ i] send_keeps_open [OF _ i] show ?thesis
    by (auto simp: sc_owns_def sc_inv_def)
qed (use assms in \<open>simp add: sc_send_def\<close>)

lemma sc_owns_recv:
  assumes "sc_owns pinv pclosed p" "sc_recv precv opt p = Some (res, p')"
  shows "sc_owns pinv pclosed p' \<and> sc_live p' = sc_live p"
proof (cases "sc_live p")
  case True
  obtain i where i: "precv opt (sc_inner p) = Some (res, i)" using sc_recv_told [OF True assms(2)] by blast
  with sc_recv_live [OF True, of precv opt] True assms recv_inv [OF _ i] recv_keeps_open [OF _ i] show ?thesis
    by (auto simp: sc_owns_def sc_inv_def)
qed (use assms in \<open>simp add: sc_recv_def\<close>)

lemma reporting_framed:
  "framed_pipe (sc_send psend) (sc_recv precv) (sc_close pclose) sc_shut (sc_owns pinv pclosed)
     (outgoing_of \<circ> sc_inner) (incoming_of \<circ> sc_inner) enc fits"
proof
  fix p :: "'p StateCallbackPipe" and p' m opt ropt st r
  show "sc_shut (sc_close pclose p)" if "sc_owns pinv pclosed p"
    using that by (auto simp: sc_owns_def sc_inv_def sc_shut_def sc_close_def Let_def)
  show "sc_owns pinv pclosed (sc_close pclose p)" if "sc_owns pinv pclosed p"
    using that close_inv by (auto simp: sc_owns_def sc_inv_def sc_close_def Let_def)
  show "sc_owns pinv pclosed p'" if "sc_owns pinv pclosed p" "sc_send psend m opt p = Some (st, p')"
    using sc_owns_send [OF that] by simp
  show "sc_owns pinv pclosed p'" if "sc_owns pinv pclosed p" "sc_recv precv ropt p = Some (r, p')"
    using sc_owns_recv [OF that] by simp
  show "\<exists>st p'. sc_send psend m opt p = Some (st, p')"
  proof (cases "sc_live p")
    case True
    then show ?thesis using send_returns [of m opt "sc_inner p"] sc_send_live [OF True, of psend m opt] by blast
  qed (simp add: sc_send_def)
  show "(outgoing_of \<circ> sc_inner) p' = (outgoing_of \<circ> sc_inner) p @ enc (view m)
      \<and> (incoming_of \<circ> sc_inner) p' = (incoming_of \<circ> sc_inner) p"
    if "wf_Message m" "sc_send psend m opt p = Some (st, p')" "status_ok st"
  proof -
    have "sc_live p" using that by (auto simp: sc_send_def status_ok_def split: if_splits)
    from sc_send_told [OF this that(2)] send_appends [OF that(1) _ that(3)] show ?thesis by auto
  qed
  show "\<exists>r p'. sc_recv precv ropt p = Some (r, p') \<and> (outgoing_of \<circ> sc_inner) p' = (outgoing_of \<circ> sc_inner) p \<and>
      (case r of ResVal m \<Rightarrow> wf_Message m \<and> view m = bs \<and> (incoming_of \<circ> sc_inner) p' = rest
               | ResErr s \<Rightarrow> code s = kIoError)"
    if pre: "sc_owns pinv pclosed p" "\<not> sc_shut p" "fits bs" "(incoming_of \<circ> sc_inner) p = enc bs @ rest" for bs rest
  proof -
    have live: "sc_live p" "\<not> pclosed (sc_inner p)" "pinv (sc_inner p)"
      using that(1,2) by (auto simp: sc_owns_def sc_inv_def sc_shut_def)
    obtain r i where i: "precv ropt (sc_inner p) = Some (r, i)" "outgoing_of i = outgoing_of (sc_inner p)"
      "case r of ResVal m \<Rightarrow> wf_Message m \<and> view m = bs \<and> incoming_of i = rest | ResErr s \<Rightarrow> code s = kIoError"
      using recv_record [OF live(3,2) pre(3), of rest ropt] pre(4) by auto
    obtain p' where "sc_recv precv ropt p = Some (r, p')" "sc_inner p' = i"
      using sc_recv_live [OF live(1), of precv ropt] i(1) by blast
    with i show ?thesis by (cases r) auto
  qed
  show "\<exists>s p'. sc_recv precv ropt p = Some (ResErr s, p') \<and> (outgoing_of \<circ> sc_inner) p' = (outgoing_of \<circ> sc_inner) p
      \<and> (code s = kClosed \<or> code s = kIoError)"
    if "sc_owns pinv pclosed p" "\<not> sc_shut p" "(incoming_of \<circ> sc_inner) p = []"
  proof -
    have live: "sc_live p" "\<not> pclosed (sc_inner p)" "pinv (sc_inner p)"
      using that(1,2) by (auto simp: sc_owns_def sc_inv_def sc_shut_def)
    with recv_end [OF live(3,2), of ropt] that(3) sc_recv_live [OF live(1), of precv ropt] show ?thesis by fastforce
  qed
  show "\<not> sc_shut p'" if "\<not> sc_shut p" "sc_send psend m opt p = Some (st, p')"
    using that by (auto simp: sc_shut_def sc_send_def Let_def split: if_splits option.splits)
  show "\<not> sc_shut p'" if "\<not> sc_shut p" "sc_recv precv ropt p = Some (r, p')"
    using that by (auto simp: sc_shut_def sc_recv_def Let_def split: if_splits option.splits)
qed (rule sc_pipe.close_again sc_pipe.closed_send sc_pipe.closed_recv; assumption)+

end

section \<open>Many threads\<close>

text \<open>
  A thread is outside; inside a call of the inner pipe, having seen \<open>inner_\<close> set; holding a
  disconnection to report, before and after winning the flag; or closing: it has won \<open>closed_\<close> and
  calls the callback, closes the inner pipe, and resets \<open>inner_\<close>. The outcome of the inner pipe is
  arbitrary.
\<close>

datatype sc_thread =
  TOut | TInside | TFailed string | TReport string | TCloseReport | TCloseInner | TReset

record sc_sys =
  cs_live :: bool
  cs_closed :: bool
  cs_disconnected :: bool
  cs_threads :: "sc_thread list"
  cs_events :: "state_event list"

definition sc_init :: "nat \<Rightarrow> sc_sys" where
  "sc_init n =
     \<lparr>cs_live = True, cs_closed = False, cs_disconnected = False, cs_threads = replicate n TOut, cs_events = []\<rparr>"

definition at_pc :: "sc_sys \<Rightarrow> nat \<Rightarrow> sc_thread \<Rightarrow> bool" where
  "at_pc s i t \<longleftrightarrow> i < length (cs_threads s) \<and> cs_threads s ! i = t"

definition to_pc :: "nat \<Rightarrow> sc_thread \<Rightarrow> sc_sys \<Rightarrow> sc_sys" where
  "to_pc i t s = s\<lparr>cs_threads := (cs_threads s)[i := t]\<rparr>"

definition log_event :: "state_event \<Rightarrow> sc_sys \<Rightarrow> sc_sys" where
  "log_event e s = s\<lparr>cs_events := cs_events s @ [e]\<rparr>"

inductive sc_step :: "sc_sys \<Rightarrow> sc_sys \<Rightarrow> bool" where
  enter: "at_pc s i TOut \<Longrightarrow> cs_live s \<Longrightarrow> sc_step s (to_pc i TInside s)"
| inner_fine: "at_pc s i TInside \<Longrightarrow> sc_step s (to_pc i TOut s)"
| inner_fails: "at_pc s i TInside \<Longrightarrow> sc_step s (to_pc i (TFailed r) s)"
| flag_won: "at_pc s i (TFailed r) \<Longrightarrow> \<not> cs_disconnected s \<Longrightarrow>
    sc_step s (to_pc i (TReport r) (s\<lparr>cs_disconnected := True\<rparr>))"
| flag_lost: "at_pc s i (TFailed r) \<Longrightarrow> cs_disconnected s \<Longrightarrow> sc_step s (to_pc i TOut s)"
| report: "at_pc s i (TReport r) \<Longrightarrow> sc_step s (to_pc i TOut (log_event (kDisconnected, r) s))"
| close_won: "at_pc s i TOut \<Longrightarrow> \<not> cs_closed s \<Longrightarrow> sc_step s (to_pc i TCloseReport (s\<lparr>cs_closed := True\<rparr>))"
| close_report: "at_pc s i TCloseReport \<Longrightarrow> sc_step s (to_pc i TCloseInner (log_event (kStateClosed, ''closed'') s))"
| close_inner: "at_pc s i TCloseInner \<Longrightarrow> sc_step s (to_pc i TReset s)"
| close_reset: "at_pc s i TReset \<Longrightarrow> sc_step s (to_pc i TOut (s\<lparr>cs_live := False\<rparr>))"

lemmas sc_step_defs = at_pc_def to_pc_def log_event_def

fun is_report :: "sc_thread \<Rightarrow> bool" where
  "is_report (TReport r) = True"
| "is_report _ = False"

text \<open>Every event was, or is about to be, reported by the thread that set its flag.\<close>

definition flags_match :: "sc_sys \<Rightarrow> bool" where
  "flags_match s \<longleftrightarrow>
     length (filter ((=) kDisconnected \<circ> fst) (cs_events s)) + length (filter is_report (cs_threads s))
       = of_bool (cs_disconnected s)
   \<and> length (filter ((=) kStateClosed \<circ> fst) (cs_events s)) + length (filter ((=) TCloseReport) (cs_threads s))
       = of_bool (cs_closed s)
   \<and> fst ` set (cs_events s) \<subseteq> {kDisconnected, kStateClosed}"

lemma count_update:
  "at_pc s i t \<Longrightarrow> length (filter P ((cs_threads s)[i := u]))
     = length (filter P (cs_threads s)) + of_bool (P u) - of_bool (P (cs_threads s ! i))"
  using length_filter_update [of i "cs_threads s" P u] by (simp add: at_pc_def split: if_splits)

lemma count_pos:
  assumes "at_pc s i t" "P t"
  obtains k where "length (filter P (cs_threads s)) = Suc k"
  using assms by (metis at_pc_def filter_empty_conv length_0_conv not0_implies_Suc nth_mem)

lemma flags_match_step: "sc_step s s' \<Longrightarrow> flags_match s \<Longrightarrow> flags_match s'"
proof (induction rule: sc_step.induct)
  case (report s i r)
  obtain k where "length (filter is_report (cs_threads s)) = Suc k"
    using count_pos [OF report(1), of is_report] by auto
  with report count_update [OF report(1)] show ?case
    by (cases "cs_disconnected s") (auto simp: flags_match_def sc_step_defs)
next
  case (close_report s i)
  obtain k where "length (filter ((=) TCloseReport) (cs_threads s)) = Suc k"
    using count_pos [OF close_report(1), of "(=) TCloseReport"] by auto
  with close_report count_update [OF close_report(1)] show ?case
    by (cases "cs_closed s") (auto simp: flags_match_def sc_step_defs)
qed (simp_all add: flags_match_def to_pc_def log_event_def count_update,
  auto simp: at_pc_def of_bool_def split: if_splits)

lemma flags_match_reach: "sc_step\<^sup>*\<^sup>* (sc_init n) s \<Longrightarrow> flags_match s"
proof (induction rule: rtranclp_induct)
  case base
  show ?case by (simp add: flags_match_def sc_init_def)
qed (rule flags_match_step)

lemma two_kinds:
  "fst ` set es \<subseteq> {kDisconnected, kStateClosed} \<Longrightarrow>
   length es = length (filter ((=) kDisconnected \<circ> fst) es) + length (filter ((=) kStateClosed \<circ> fst) es)"
  by (induction es) auto

section \<open>Properties of the state callback pipe\<close>



text \<open>
  Closing does not wait for calls in progress: with two threads a state is reachable where one is
  inside a call of the inner pipe that \<open>inner_.reset()\<close> has already destroyed.
\<close>

theorem state_callback_reset_in_use:
  "\<exists>s. sc_step\<^sup>*\<^sup>* (sc_init 2) s \<and> at_pc s 0 TInside \<and> \<not> cs_live s"
proof -
  let ?s = "\<lambda>l c ts es. \<lparr>cs_live = l, cs_closed = c, cs_disconnected = False, cs_threads = ts, cs_events = es\<rparr>"
  let ?e = "[(kStateClosed, ''closed'')]"
  have i: "sc_init 2 = ?s True False [TOut, TOut] []" by (simp add: sc_init_def numeral_2_eq_2)
  have "sc_step (?s True False [TOut, TOut] []) (?s True False [TInside, TOut] [])"
    using sc_step.enter [of "?s True False [TOut, TOut] []" 0] by (simp add: sc_step_defs)
  moreover have "sc_step (?s True False [TInside, TOut] []) (?s True True [TInside, TCloseReport] [])"
    using sc_step.close_won [of "?s True False [TInside, TOut] []" 1] by (simp add: sc_step_defs)
  moreover have "sc_step (?s True True [TInside, TCloseReport] []) (?s True True [TInside, TCloseInner] ?e)"
    using sc_step.close_report [of "?s True True [TInside, TCloseReport] []" 1] by (simp add: sc_step_defs)
  moreover have "sc_step (?s True True [TInside, TCloseInner] ?e) (?s True True [TInside, TReset] ?e)"
    using sc_step.close_inner [of "?s True True [TInside, TCloseInner] ?e" 1] by (simp add: sc_step_defs)
  moreover have "sc_step (?s True True [TInside, TReset] ?e) (?s False True [TInside, TOut] ?e)"
    using sc_step.close_reset [of "?s True True [TInside, TReset] ?e" 1] by (simp add: sc_step_defs)
  ultimately have "sc_step\<^sup>*\<^sup>* (sc_init 2) (?s False True [TInside, TOut] ?e)"
    unfolding i by (meson converse_rtranclp_into_rtranclp rtranclp.rtrancl_refl)
  then show ?thesis by (fastforce simp: at_pc_def)
qed

text \<open>A pipe whose peer is gone: every call on it reports \<open>kClosed\<close>.\<close>

lemma dead_pipe:
  "pipe (\<lambda>m opt p. Some (closed_status ''x'', p)) (\<lambda>opt p. Some (ResErr (closed_status ''x''), p)) (\<lambda>p. ())
     (\<lambda>p. True) (\<lambda>p. True)"
  by unfold_locales simp_all



end
