(* ===== verification/Duct_Reconnect.thy ===== *)
theory Duct_Reconnect
  imports Duct_State_Callback "HOL-Library.Multiset"
begin

text \<open>
  \<^verbatim>\<open>src/reconnect_pipe.cc\<close>: a pipe that keeps dialling. A worker thread dials, backs off and
  installs the connection; any number of threads send and receive over it and report its
  failure; \<open>close\<close> stops everything and joins the worker. Every critical section of \<open>mu_\<close> is one
  step; waiting on \<open>cv_\<close> is being asleep until a notification, a timeout or a spurious wake-up.
  Connections are numbered in the order they are dialled (the numbers are the identities of the
  shared pointers), and the changes of \<open>state_\<close> are recorded in order; each of them is followed by
  the callback outside of the lock.
\<close>

section \<open>Backoff\<close>

text \<open>The product is computed in double precision and truncated; doubles are rational numbers here.\<close>

definition trunc_rat :: "rat \<Rightarrow> int" where
  "trunc_rat x = (if x < 0 then - \<lfloor>- x\<rfloor> else \<lfloor>x\<rfloor>)"

definition next_delay :: "ReconnectPolicy \<Rightarrow> millis \<Rightarrow> millis" where
  "next_delay pol delay =
     min (max_delay pol) (max 0 (trunc_rat (rat_of_int delay * backoff_multiplier pol)))"

text \<open>The jitter is drawn uniformly from \<open>0\<close> to this bound.\<close>

definition jitter_bound :: "millis \<Rightarrow> millis" where
  "jitter_bound delay = (if delay > 0 then max 0 (delay div 2) else 0)"

section \<open>The object and its threads\<close>

type_synonym ucall = "bool \<times> string"

text \<open>
  A caller of \<open>send\<close> or \<open>recv\<close> (with a timeout or not, and the prefix of its error reports), or of
  \<open>close\<close>; and the worker.
\<close>

datatype uthread =
    UOut
  | UEnter ucall
  | UAsleep ucall
  | UWoken ucall
  | USnapshot ucall
  | UInside ucall nat
  | UMark ucall nat string
  | UState ucall nat string
  | UDrop ucall nat
  | UReturn Status
  | CState "nat option"
  | CInner "nat option"
  | CJoin

datatype wthread =
    WTop
  | WCheck
  | WAsleep
  | WWoken
  | WAnnounce
  | WTry int millis
  | WDialing int millis
  | WInstalled
  | WError int millis string
  | WPauseEnter int millis
  | WPause int millis
  | WPaused int millis
  | WGiveUp
  | WGivenUp
  | WDone

record ReconnectPipe =
  rc_closed :: bool
  rc_failed :: bool
  rc_state :: ConnectionState
  rc_ever :: bool
  rc_error :: string
  rc_inner :: "nat option"
  rc_worker :: wthread
  rc_users :: "uthread list"
  rc_dialled :: nat
  rc_dropped :: "nat list"
  rc_changes :: "state_event list"

definition set_state :: "ConnectionState \<Rightarrow> string \<Rightarrow> ReconnectPipe \<Rightarrow> ReconnectPipe" where
  "set_state nxt reason s =
     (if rc_state s = nxt then s
      else s\<lparr>rc_state := nxt, rc_changes := rc_changes s @ [(nxt, reason)]\<rparr>)"

definition mk_ReconnectPipe :: "nat \<Rightarrow> ReconnectPipe" where
  "mk_ReconnectPipe users =
     set_state kConnecting ''initial connect''
       \<lparr>rc_closed = False, rc_failed = False, rc_state = kDisconnected, rc_ever = False, rc_error = '''',
        rc_inner = None, rc_worker = WTop, rc_users = replicate users UOut, rc_dialled = 0, rc_dropped = [],
        rc_changes = []\<rparr>"

fun wake_user :: "uthread \<Rightarrow> uthread" where
  "wake_user (UAsleep c) = UWoken c"
| "wake_user t = t"

fun wake_worker :: "wthread \<Rightarrow> wthread" where
  "wake_worker WAsleep = WWoken"
| "wake_worker (WPause a d) = WPaused a d"
| "wake_worker t = t"

definition notify_all :: "ReconnectPipe \<Rightarrow> ReconnectPipe" where
  "notify_all s = s\<lparr>rc_users := map wake_user (rc_users s), rc_worker := wake_worker (rc_worker s)\<rparr>"

definition connect_pred :: "ReconnectPipe \<Rightarrow> bool" where
  "connect_pred s \<longleftrightarrow> rc_closed s \<or> rc_inner s \<noteq> None \<or> rc_failed s"

text \<open>What \<open>wait_connected\<close> returns once its wait is over.\<close>

definition wait_result :: "ReconnectPipe \<Rightarrow> Status" where
  "wait_result s =
     (if \<not> connect_pred s then timeout_status ''connect timed out''
      else if rc_closed s then closed_status ''pipe closed''
      else if rc_failed s then io_error (''reconnect attempts exhausted: '' @ rc_error s)
      else Status_Ok)"

definition after_wait :: "ucall \<Rightarrow> ReconnectPipe \<Rightarrow> uthread" where
  "after_wait c s = (if status_ok (wait_result s) then USnapshot c else UReturn (wait_result s))"

definition user_at :: "ReconnectPipe \<Rightarrow> nat \<Rightarrow> uthread \<Rightarrow> bool" where
  "user_at s i t \<longleftrightarrow> i < length (rc_users s) \<and> rc_users s ! i = t"

definition user_to :: "nat \<Rightarrow> uthread \<Rightarrow> ReconnectPipe \<Rightarrow> ReconnectPipe" where
  "user_to i t s = s\<lparr>rc_users := (rc_users s)[i := t]\<rparr>"

definition worker_to :: "wthread \<Rightarrow> ReconnectPipe \<Rightarrow> ReconnectPipe" where
  "worker_to t s = s\<lparr>rc_worker := t\<rparr>"

definition drop_conn :: "nat option \<Rightarrow> ReconnectPipe \<Rightarrow> ReconnectPipe" where
  "drop_conn c s = (case c of None \<Rightarrow> s | Some n \<Rightarrow> s\<lparr>rc_dropped := rc_dropped s @ [n]\<rparr>)"

section \<open>Callers\<close>

text \<open>The critical sections of \<open>mark_disconnected\<close> and \<open>close\<close>: the new state if they act.\<close>

definition mark_disconnected :: "nat \<Rightarrow> string \<Rightarrow> ReconnectPipe \<Rightarrow> ReconnectPipe option" where
  "mark_disconnected which reason s =
     (if rc_closed s \<or> rc_inner s \<noteq> Some which then None
      else Some (notify_all (s\<lparr>rc_inner := None, rc_error := reason\<rparr>)))"

definition rc_close :: "ReconnectPipe \<Rightarrow> ReconnectPipe option" where
  "rc_close s =
     (if rc_closed s then None else Some (notify_all (s\<lparr>rc_closed := True, rc_inner := None\<rparr>)))"

definition after_inner :: "ucall \<Rightarrow> nat \<Rightarrow> Status \<Rightarrow> uthread" where
  "after_inner c n st =
     (if status_ok st then UReturn st
      else if code st = kTimeout then UReturn st
      else if is_disconnect st then UMark c n (snd c @ message st)
      else UReturn st)"

inductive user_step :: "ReconnectPipe \<Rightarrow> ReconnectPipe \<Rightarrow> bool" where
  call_start: "user_at s i UOut \<Longrightarrow> user_step s (user_to i (UEnter (timed, tag)) s)"
| wait_over: "user_at s i (UEnter c) \<or> user_at s i (UWoken c) \<Longrightarrow> connect_pred s \<Longrightarrow>
    user_step s (user_to i (after_wait c s) s)"
| wait_more: "user_at s i (UEnter c) \<or> user_at s i (UWoken c) \<Longrightarrow> \<not> connect_pred s \<Longrightarrow>
    user_step s (user_to i (UAsleep c) s)"
| wait_spurious: "user_at s i (UAsleep c) \<Longrightarrow> user_step s (user_to i (UWoken c) s)"
| wait_timeout: "user_at s i (UAsleep (True, tag)) \<Longrightarrow> user_step s (user_to i (after_wait (True, tag) s) s)"
| snapshot_some: "user_at s i (USnapshot c) \<Longrightarrow> rc_inner s = Some n \<Longrightarrow> user_step s (user_to i (UInside c n) s)"
| snapshot_none: "user_at s i (USnapshot c) \<Longrightarrow> rc_inner s = None \<Longrightarrow> user_step s (user_to i (UEnter c) s)"
| inner_returns: "user_at s i (UInside c n) \<Longrightarrow> user_step s (user_to i (after_inner c n st) s)"
| mark_stale: "user_at s i (UMark c n r) \<Longrightarrow> mark_disconnected n r s = None \<Longrightarrow> user_step s (user_to i (UEnter c) s)"
| mark: "user_at s i (UMark c n r) \<Longrightarrow> mark_disconnected n r s = Some s' \<Longrightarrow>
    user_step s (user_to i (UState c n r) s')"
| mark_state: "user_at s i (UState c n r) \<Longrightarrow> user_step s (user_to i (UDrop c n) (set_state kDisconnected r s))"
| mark_drop: "user_at s i (UDrop c n) \<Longrightarrow> user_step s (user_to i (UEnter c) (drop_conn (Some n) s))"
| returned: "user_at s i (UReturn st) \<Longrightarrow> user_step s (user_to i UOut s)"
| close_call: "user_at s i UOut \<Longrightarrow> rc_close s = Some s' \<Longrightarrow> user_step s (user_to i (CState (rc_inner s)) s')"
| close_state: "user_at s i (CState c) \<Longrightarrow> user_step s (user_to i (CInner c) (set_state kStateClosed ''closed'' s))"
| close_inner: "user_at s i (CInner c) \<Longrightarrow> user_step s (user_to i CJoin (drop_conn c s))"
| close_join: "user_at s i CJoin \<Longrightarrow> rc_worker s = WDone \<Longrightarrow> user_step s (user_to i UOut s)"

section \<open>The worker\<close>

definition give_up :: "ReconnectPipe \<Rightarrow> ReconnectPipe" where
  "give_up s = notify_all (s\<lparr>rc_failed := True\<rparr>)"

definition install :: "ReconnectPipe \<Rightarrow> ReconnectPipe" where
  "install s =
     notify_all (s\<lparr>rc_inner := Some (rc_dialled s), rc_dialled := rc_dialled s + 1, rc_ever := True, rc_error := ''''\<rparr>)"

definition or_text :: "string \<Rightarrow> string \<Rightarrow> string" where
  "or_text e dflt = (if e = [] then dflt else e)"

definition announce :: "ReconnectPipe \<Rightarrow> ReconnectPipe" where
  "announce s = set_state (if rc_ever s then kReconnecting else kConnecting) (or_text (rc_error s) ''connecting'') s"

text \<open>\<open>closed_ || !inner_\<close>, and the predicate of the timed wait between two attempts.\<close>

definition lost_pred :: "ReconnectPipe \<Rightarrow> bool" where
  "lost_pred s \<longleftrightarrow> rc_closed s \<or> rc_inner s = None"

definition pause_pred :: "ReconnectPipe \<Rightarrow> bool" where
  "pause_pred s \<longleftrightarrow> rc_closed s \<or> rc_inner s \<noteq> None"

inductive worker_step :: "ReconnectPolicy \<Rightarrow> ReconnectPipe \<Rightarrow> ReconnectPipe \<Rightarrow> bool" for pol where
  top_closed: "rc_worker s = WTop \<Longrightarrow> rc_closed s \<Longrightarrow> worker_step pol s (worker_to WDone s)"
| top_open: "rc_worker s = WTop \<Longrightarrow> \<not> rc_closed s \<Longrightarrow> worker_step pol s (worker_to WCheck s)"
| check_lost: "rc_worker s = WCheck \<Longrightarrow> rc_inner s \<noteq> None \<Longrightarrow> lost_pred s \<Longrightarrow> worker_step pol s (worker_to WTop s)"
| check_wait: "rc_worker s = WCheck \<Longrightarrow> rc_inner s \<noteq> None \<Longrightarrow> \<not> lost_pred s \<Longrightarrow>
    worker_step pol s (worker_to WAsleep s)"
| check_failed: "rc_worker s = WCheck \<Longrightarrow> rc_inner s = None \<Longrightarrow> rc_failed s \<Longrightarrow> worker_step pol s (worker_to WDone s)"
| check_dial: "rc_worker s = WCheck \<Longrightarrow> rc_inner s = None \<Longrightarrow> \<not> rc_failed s \<Longrightarrow>
    worker_step pol s (worker_to WAnnounce s)"
| spurious: "rc_worker s = WAsleep \<Longrightarrow> worker_step pol s (worker_to WWoken s)"
| woken_lost: "rc_worker s = WWoken \<Longrightarrow> lost_pred s \<Longrightarrow> worker_step pol s (worker_to WTop s)"
| woken_wait: "rc_worker s = WWoken \<Longrightarrow> \<not> lost_pred s \<Longrightarrow> worker_step pol s (worker_to WAsleep s)"
| announced: "rc_worker s = WAnnounce \<Longrightarrow>
    worker_step pol s (worker_to (WTry 0 (initial_delay pol)) (announce s))"
| try_closed: "rc_worker s = WTry a d \<Longrightarrow> rc_closed s \<Longrightarrow> worker_step pol s (worker_to WDone s)"
| try_exhausted: "rc_worker s = WTry a d \<Longrightarrow> \<not> rc_closed s \<Longrightarrow> max_attempts pol \<noteq> 0 \<Longrightarrow> a \<ge> max_attempts pol \<Longrightarrow>
    worker_step pol s (worker_to WGiveUp s)"
| try_dial: "rc_worker s = WTry a d \<Longrightarrow> \<not> rc_closed s \<Longrightarrow> max_attempts pol = 0 \<or> a < max_attempts pol \<Longrightarrow>
    worker_step pol s (worker_to (WDialing a d) s)"
| gave_up: "rc_worker s = WGiveUp \<Longrightarrow> worker_step pol s (worker_to WGivenUp (give_up s))"
| given_up: "rc_worker s = WGivenUp \<Longrightarrow>
    worker_step pol s (worker_to WDone (set_state kDisconnected (or_text (rc_error s) ''reconnect attempts exhausted'') s))"
| dial_ok: "rc_worker s = WDialing a d \<Longrightarrow> worker_step pol s (worker_to WInstalled (install s))"
| dial_failed: "rc_worker s = WDialing a d \<Longrightarrow> worker_step pol s (worker_to (WError (a + 1) d e) s)"
| installed: "rc_worker s = WInstalled \<Longrightarrow> worker_step pol s (worker_to WTop (set_state kConnected ''connected'' s))"
| note_error: "rc_worker s = WError a d e \<Longrightarrow>
    worker_step pol s (worker_to (WPauseEnter a d) (s\<lparr>rc_error := e\<rparr>))"
| pause_skip: "rc_worker s = WPauseEnter a d \<or> rc_worker s = WPaused a d \<Longrightarrow> pause_pred s \<Longrightarrow>
    worker_step pol s (worker_to (WTry a (next_delay pol d)) s)"
| pause_sleep: "rc_worker s = WPauseEnter a d \<or> rc_worker s = WPaused a d \<Longrightarrow> \<not> pause_pred s \<Longrightarrow>
    worker_step pol s (worker_to (WPause a d) s)"
| pause_spurious: "rc_worker s = WPause a d \<Longrightarrow> worker_step pol s (worker_to (WPaused a d) s)"
| pause_timeout: "rc_worker s = WPause a d \<Longrightarrow> worker_step pol s (worker_to (WTry a (next_delay pol d)) s)"

definition rc_step :: "ReconnectPolicy \<Rightarrow> ReconnectPipe \<Rightarrow> ReconnectPipe \<Rightarrow> bool" where
  "rc_step pol s s' \<longleftrightarrow> user_step s s' \<or> worker_step pol s s'"

section \<open>No lost wake-ups\<close>

lemmas rc_defs = user_to_def worker_to_def notify_all_def set_state_def drop_conn_def mark_disconnected_def
  rc_close_def give_up_def install_def announce_def
lemmas rc_preds = connect_pred_def lost_pred_def pause_pred_def

lemma asleep_update: "UAsleep c \<in> set (us[i := t]) \<Longrightarrow> t = UAsleep c \<or> UAsleep c \<in> set us"
  using set_update_subset_insert [of us i t] by auto

lemma asleep_woken [simp]: "UAsleep c \<notin> wake_user ` X"
proof
  assume "UAsleep c \<in> wake_user ` X"
  then obtain t where "UAsleep c = wake_user t" by auto
  then show False by (cases t) auto
qed

lemma wake_worker_awake [simp]: "wake_worker t \<noteq> WAsleep" "wake_worker t \<noteq> WPause a d"
  by (cases t; simp)+

lemma after_not_asleep [simp]: "after_wait c s \<noteq> UAsleep c'" "after_inner c n st \<noteq> UAsleep c'"
  by (simp_all add: after_wait_def after_inner_def)

text \<open>Whoever sleeps has nothing to wake up for.\<close>

definition sleepers_ok :: "ReconnectPipe \<Rightarrow> bool" where
  "sleepers_ok s \<longleftrightarrow>
     (\<forall>c. UAsleep c \<in> set (rc_users s) \<longrightarrow> \<not> connect_pred s)
   \<and> (rc_worker s = WAsleep \<longrightarrow> \<not> lost_pred s)
   \<and> (\<forall>a d. rc_worker s = WPause a d \<longrightarrow> \<not> pause_pred s)"

lemma sleepers_user: "user_step s s' \<Longrightarrow> sleepers_ok s \<Longrightarrow> sleepers_ok s'"
  by (induction rule: user_step.induct)
    (auto simp: sleepers_ok_def rc_defs rc_preds dest!: asleep_update split: if_splits option.splits)

lemma sleepers_worker: "worker_step pol s s' \<Longrightarrow> sleepers_ok s \<Longrightarrow> sleepers_ok s'"
  by (induction rule: worker_step.induct)
    (auto simp: sleepers_ok_def rc_defs rc_preds split: if_splits)

section \<open>The life of a connection\<close>

fun held :: "uthread \<Rightarrow> nat multiset" where
  "held (UState c n r) = {#n#}"
| "held (UDrop c n) = {#n#}"
| "held (CState (Some n)) = {#n#}"
| "held (CInner (Some n)) = {#n#}"
| "held t = {#}"

definition all_held :: "uthread list \<Rightarrow> nat multiset" where
  "all_held us = sum_list (map held us)"

text \<open>Every connection dialled is installed, held by the one thread about to close it, or closed once.\<close>

definition accounted :: "ReconnectPipe \<Rightarrow> bool" where
  "accounted s \<longleftrightarrow>
     mset (rc_dropped s) + mset_set (set_option (rc_inner s)) + all_held (rc_users s) = mset [0..<rc_dialled s]"

lemma all_held_replicate [simp]: "all_held (replicate n UOut) = {#}"
  by (induction n) (simp_all add: all_held_def)

lemma held_wake [simp]: "held (wake_user t) = held t"
  by (cases t) auto

lemma all_held_wake [simp]: "all_held (map wake_user us) = all_held us"
  by (simp add: all_held_def comp_def)

lemma held_after [simp]: "held (after_wait c s) = {#}" "held (after_inner c n st) = {#}"
  by (simp_all add: after_wait_def after_inner_def)

lemma all_held_update:
  "user_at s i t \<Longrightarrow> all_held ((rc_users s)[i := u]) + held t = all_held (rc_users s) + held u"
  unfolding user_at_def all_held_def
  by (subst (2) id_take_nth_drop [of i "rc_users s"]) (auto simp: upd_conv_take_nth_drop ac_simps)

lemma user_at_wake: "user_at s i t \<Longrightarrow> user_at (s\<lparr>rc_users := map wake_user (rc_users s)\<rparr>) i (wake_user t)"
  by (simp add: user_at_def)

fun dialling :: "wthread \<Rightarrow> bool" where
  "dialling WAnnounce = True"
| "dialling (WTry a d) = True"
| "dialling (WDialing a d) = True"
| "dialling (WError a d e) = True"
| "dialling (WPauseEnter a d) = True"
| "dialling (WPause a d) = True"
| "dialling (WPaused a d) = True"
| "dialling WGiveUp = True"
| "dialling WGivenUp = True"
| "dialling _ = False"

lemma dialling_wake [simp]: "dialling (wake_worker t) = dialling t"
  by (cases t) auto

lemma wake_worker_ends [simp]: "wake_worker t = WDone \<longleftrightarrow> t = WDone" "wake_worker t = WGivenUp \<longleftrightarrow> t = WGivenUp"
  by (cases t; simp)+

text \<open>Only the worker installs connections, and it gives up only without one.\<close>

definition phase_ok :: "ReconnectPipe \<Rightarrow> bool" where
  "phase_ok s \<longleftrightarrow>
     (dialling (rc_worker s) \<longrightarrow> rc_inner s = None)
   \<and> (rc_failed s \<longrightarrow> rc_inner s = None \<and> (rc_worker s = WGivenUp \<or> rc_worker s = WDone))
   \<and> (rc_worker s = WGivenUp \<longrightarrow> rc_failed s)
   \<and> (rc_worker s = WDone \<longrightarrow> rc_closed s \<or> rc_failed s)"

lemma phase_user: "user_step s s' \<Longrightarrow> phase_ok s \<Longrightarrow> phase_ok s'"
  by (induction rule: user_step.induct)
    (auto simp: phase_ok_def rc_defs split: if_splits option.splits)

lemma phase_worker: "worker_step pol s s' \<Longrightarrow> phase_ok s \<Longrightarrow> phase_ok s'"
  by (induction rule: worker_step.induct) (auto simp: phase_ok_def rc_defs split: if_splits)

lemma accounted_keep:
  "accounted s \<Longrightarrow> user_at s i t \<Longrightarrow> held u = held t \<Longrightarrow> accounted (user_to i u s)"
  using all_held_update [of s i t u] by (simp add: accounted_def user_to_def)

lemma accounted_set_state [simp]: "accounted (set_state st r s) = accounted s"
  by (simp add: accounted_def set_state_def)

lemma user_at_set_state [simp]: "user_at (set_state st r s) i t = user_at s i t"
  by (simp add: user_at_def set_state_def)

lemma accounted_user:
  assumes "user_step s s'" "accounted s"
  shows "accounted s'"
  using assms
proof (induction rule: user_step.induct)
  case (mark s i c n r s')
  then show ?case using all_held_update [OF user_at_wake [OF mark(1)], of "UState c n r"]
    by (auto simp: accounted_def mark_disconnected_def notify_all_def user_to_def ac_simps split: if_splits)
next
  case (mark_drop s i c n)
  then show ?case using all_held_update [OF mark_drop(1), of "UEnter c", symmetric]
    by (auto simp: accounted_def drop_conn_def user_to_def ac_simps)
next
  case (close_call s i s')
  then show ?case using all_held_update [OF user_at_wake [OF close_call(1)], of "CState (rc_inner s)"]
    by (cases "rc_inner s")
      (auto simp: accounted_def rc_close_def notify_all_def user_to_def ac_simps split: if_splits)
next
  case (close_state s i c)
  then show ?case by (cases c) (auto intro: accounted_keep [of _ i "CState c"])
next
  case (close_inner s i c)
  then show ?case using all_held_update [OF close_inner(1), of CJoin, symmetric]
    by (cases c) (auto simp: accounted_def drop_conn_def user_to_def ac_simps)
qed (auto intro: accounted_keep)

lemma accounted_worker: "worker_step pol s s' \<Longrightarrow> phase_ok s \<Longrightarrow> accounted s \<Longrightarrow> accounted s'"
  by (induction rule: worker_step.induct)
    (auto simp: accounted_def phase_ok_def rc_defs split: if_splits)

section \<open>Attempts and delays\<close>

text \<open>The delay after the given number of failures.\<close>

definition backoff :: "ReconnectPolicy \<Rightarrow> nat \<Rightarrow> millis" where
  "backoff pol k = (next_delay pol ^^ k) (initial_delay pol)"

text \<open>
  Before and during the dial after \<open>a\<close> failures the delay is \<open>backoff pol a\<close>; once it has failed too,
  \<open>a\<close> is one more and the pause is still that delay.
\<close>

fun attempt_ok :: "ReconnectPolicy \<Rightarrow> wthread \<Rightarrow> bool" where
  "attempt_ok pol (WTry a d) \<longleftrightarrow>
     0 \<le> a \<and> (max_attempts pol > 0 \<longrightarrow> a \<le> max_attempts pol) \<and> d = backoff pol (nat a)"
| "attempt_ok pol (WDialing a d) \<longleftrightarrow>
     0 \<le> a \<and> (max_attempts pol = 0 \<or> a < max_attempts pol) \<and> d = backoff pol (nat a)"
| "attempt_ok pol (WError a d e) \<longleftrightarrow>
     1 \<le> a \<and> (max_attempts pol > 0 \<longrightarrow> a \<le> max_attempts pol) \<and> d = backoff pol (nat a - 1)"
| "attempt_ok pol (WPauseEnter a d) \<longleftrightarrow>
     1 \<le> a \<and> (max_attempts pol > 0 \<longrightarrow> a \<le> max_attempts pol) \<and> d = backoff pol (nat a - 1)"
| "attempt_ok pol (WPause a d) \<longleftrightarrow>
     1 \<le> a \<and> (max_attempts pol > 0 \<longrightarrow> a \<le> max_attempts pol) \<and> d = backoff pol (nat a - 1)"
| "attempt_ok pol (WPaused a d) \<longleftrightarrow>
     1 \<le> a \<and> (max_attempts pol > 0 \<longrightarrow> a \<le> max_attempts pol) \<and> d = backoff pol (nat a - 1)"
| "attempt_ok pol WGiveUp \<longleftrightarrow> max_attempts pol \<noteq> 0"
| "attempt_ok pol WGivenUp \<longleftrightarrow> max_attempts pol \<noteq> 0"
| "attempt_ok pol _ \<longleftrightarrow> True"

lemma attempt_wake [simp]: "attempt_ok pol (wake_worker t) = attempt_ok pol t"
  by (cases t) auto

lemma backoff_0 [simp]: "backoff pol 0 = initial_delay pol"
  by (simp add: backoff_def)

lemma backoff_next: "1 \<le> a \<Longrightarrow> next_delay pol (backoff pol (nat a - Suc 0)) = backoff pol (nat a)"
  by (cases "nat a") (auto simp: backoff_def)

lemma attempts_user: "user_step s s' \<Longrightarrow> attempt_ok pol (rc_worker s) \<Longrightarrow> attempt_ok pol (rc_worker s')"
  by (induction rule: user_step.induct) (auto simp: rc_defs split: if_splits option.splits)

lemma attempts_worker: "worker_step pol s s' \<Longrightarrow> attempt_ok pol (rc_worker s) \<Longrightarrow> attempt_ok pol (rc_worker s')"
  by (induction rule: worker_step.induct) (auto simp: rc_defs backoff_next nat_add_distrib)

text \<open>With a whole multiplier the delays are a geometric sequence cut off at \<open>max_delay\<close>.\<close>

lemma next_delay_whole:
  "backoff_multiplier pol = rat_of_int m \<Longrightarrow> 0 \<le> m \<Longrightarrow> 0 \<le> d \<Longrightarrow> next_delay pol d = min (max_delay pol) (d * m)"
  by (simp add: next_delay_def trunc_rat_def flip: of_int_mult)

lemma min_mult_absorb:
  assumes "1 \<le> m" "0 \<le> x"
  shows "min x (min x y * m) = min x (y * (m :: int))"
proof (cases "x \<le> y")
  case True
  then have "x \<le> x * m" "y \<le> y * m"
    using assms mult_left_mono [of 1 m x] mult_left_mono [of 1 m y] by auto
  with True show ?thesis by (simp add: min_def)
qed simp

lemma backoff_geometric:
  assumes "backoff_multiplier pol = rat_of_int m" "1 \<le> m" "0 \<le> initial_delay pol" "initial_delay pol \<le> max_delay pol"
  shows "backoff pol k = min (max_delay pol) (initial_delay pol * m ^ k)"
proof (induction k)
  case (Suc k)
  have "0 \<le> backoff pol k" using Suc assms by simp
  then have "backoff pol (Suc k) = min (max_delay pol) (backoff pol k * m)"
    using next_delay_whole [OF assms(1)] assms(2) by (simp add: backoff_def)
  with Suc assms min_mult_absorb [of m "max_delay pol" "initial_delay pol * m ^ k"] show ?case
    by (simp add: ac_simps)
qed (use assms in simp)

lemma jitter_bound_half: "2 * jitter_bound d \<le> max 0 d"
  by (simp add: jitter_bound_def) arith

section \<open>State changes\<close>

definition changes_ok :: "ReconnectPipe \<Rightarrow> bool" where
  "changes_ok s \<longleftrightarrow>
     rc_changes s \<noteq> [] \<and> fst (last (rc_changes s)) = rc_state s \<and> distinct_adj (map fst (rc_changes s))"

lemma changes_set_state: "changes_ok s \<Longrightarrow> changes_ok (set_state st r s)"
  by (auto simp: changes_ok_def set_state_def distinct_adj_append_iff last_map)

lemma changes_frame [simp]:
  "changes_ok (user_to i t s) = changes_ok s" "changes_ok (worker_to w s) = changes_ok s"
  "changes_ok (notify_all s) = changes_ok s" "changes_ok (drop_conn c s) = changes_ok s"
  "changes_ok (rc_inner_update f s) = changes_ok s" "changes_ok (rc_error_update g s) = changes_ok s"
  "changes_ok (rc_closed_update h s) = changes_ok s" "changes_ok (rc_failed_update h s) = changes_ok s"
  "changes_ok (rc_ever_update h s) = changes_ok s" "changes_ok (rc_dialled_update k s) = changes_ok s"
  by (simp_all add: changes_ok_def user_to_def worker_to_def notify_all_def drop_conn_def split: option.splits)

lemma changes_user: "user_step s s' \<Longrightarrow> changes_ok s \<Longrightarrow> changes_ok s'"
  by (induction rule: user_step.induct)
    (auto simp: mark_disconnected_def rc_close_def split: if_splits intro: changes_set_state)

lemma changes_worker: "worker_step pol s s' \<Longrightarrow> changes_ok s \<Longrightarrow> changes_ok s'"
  by (induction rule: worker_step.induct)
    (auto simp: give_up_def install_def announce_def intro: changes_set_state)

section \<open>Closing\<close>

fun rank :: "wthread \<Rightarrow> nat" where
  "rank WDone = 0"
| "rank WTop = 1"
| "rank (WTry a d) = 1"
| "rank WGivenUp = 1"
| "rank WGiveUp = 2"
| "rank WInstalled = 2"
| "rank WWoken = 2"
| "rank (WPaused a d) = 2"
| "rank WAsleep = 3"
| "rank WAnnounce = 2"
| "rank (WPauseEnter a d) = 3"
| "rank (WPause a d) = 3"
| "rank WCheck = 3"
| "rank (WError a d e) = 4"
| "rank (WDialing a d) = 5"

lemma rank_le: "rank t \<le> 5"
  by (cases t) auto

lemma rank_wake: "rank (wake_worker t) \<le> rank t"
  by (cases t) auto

lemma closed_worker: "worker_step pol s s' \<Longrightarrow> rc_closed s \<Longrightarrow> rc_closed s' \<and> rank (rc_worker s') < rank (rc_worker s)"
  by (induction rule: worker_step.induct) (auto simp: rc_defs rc_preds)

lemma closed_user: "user_step s s' \<Longrightarrow> rc_closed s \<Longrightarrow> rc_closed s' \<and> rank (rc_worker s') \<le> rank (rc_worker s)"
  by (induction rule: user_step.induct) (auto simp: rc_defs split: option.splits)

lemma worker_enabled: "rc_worker s \<noteq> WDone \<Longrightarrow> \<exists>s'. worker_step pol s s'"
proof (cases "rc_worker s")
  case WCheck
  then show ?thesis by (meson check_lost check_wait check_failed check_dial)
next
  case (WTry a d)
  then show ?thesis by (meson try_closed try_exhausted try_dial not_le)
qed (auto intro: worker_step.intros, (meson worker_step.intros)+)

text \<open>A run with the number of steps the worker makes in it.\<close>

inductive rc_run :: "ReconnectPolicy \<Rightarrow> ReconnectPipe \<Rightarrow> nat \<Rightarrow> ReconnectPipe \<Rightarrow> bool" for pol where
  run_nil: "rc_run pol s 0 s"
| run_user: "rc_run pol s n s' \<Longrightarrow> user_step s' s'' \<Longrightarrow> rc_run pol s n s''"
| run_worker: "rc_run pol s n s' \<Longrightarrow> worker_step pol s' s'' \<Longrightarrow> rc_run pol s (Suc n) s''"

lemma closed_run:
  "rc_run pol s n s' \<Longrightarrow> rc_closed s \<Longrightarrow> rc_closed s' \<and> n + rank (rc_worker s') \<le> rank (rc_worker s)"
proof (induction rule: rc_run.induct)
  case (run_user s n s' s'')
  then show ?case using closed_user [OF run_user(2)] by simp
next
  case (run_worker s n s' s'')
  then show ?case using closed_worker [OF run_worker(2)] by simp
qed simp

text \<open>Where a call that begins after \<open>close\<close> can be.\<close>

definition shut_out :: "uthread \<Rightarrow> bool" where
  "shut_out t \<longleftrightarrow> (\<exists>c. t = UOut \<or> t = UEnter c \<or> t = UAsleep c \<or> t = UWoken c) \<or> t = UReturn (closed_status ''pipe closed'')"

lemma shut_out_wake: "shut_out t \<Longrightarrow> shut_out (wake_user t)"
  by (cases t) (auto simp: shut_out_def)

lemma shut_out_step:
  assumes "rc_step pol s s'" "rc_closed s" "i < length (rc_users s)" "shut_out (rc_users s ! i)"
  shows "rc_closed s' \<and> i < length (rc_users s') \<and> shut_out (rc_users s' ! i)"
proof (cases "worker_step pol s s'")
  case True
  then have "rc_users s' = rc_users s \<or> rc_users s' = map wake_user (rc_users s)"
    by (induction rule: worker_step.induct) (auto simp: rc_defs)
  with assms shut_out_wake closed_worker [OF True] show ?thesis by auto
next
  case False
  with assms have u: "user_step s s'" by (simp add: rc_step_def)
  have "i < length (rc_users s') \<and> shut_out (rc_users s' ! i)"
    using u assms(2-4)
  proof (induction rule: user_step.induct)
    case (wait_over s j c)
    then show ?case
      by (cases "i = j") (auto simp: user_to_def after_wait_def wait_result_def shut_out_def status_ok_def)
  next
    case (wait_timeout s j tag)
    then show ?case
      by (cases "i = j")
        (auto simp: user_to_def after_wait_def wait_result_def connect_pred_def shut_out_def status_ok_def)
  qed (auto simp: user_at_def user_to_def nth_list_update shut_out_def mark_disconnected_def rc_close_def
    drop_conn_def set_state_def split: if_splits option.splits)
  with closed_user [OF u assms(2)] show ?thesis by simp
qed

section \<open>Every reachable state\<close>

definition rc_inv :: "ReconnectPolicy \<Rightarrow> ReconnectPipe \<Rightarrow> bool" where
  "rc_inv pol s \<longleftrightarrow> sleepers_ok s \<and> phase_ok s \<and> accounted s \<and> attempt_ok pol (rc_worker s) \<and> changes_ok s"

lemma rc_inv_init: "rc_inv pol (mk_ReconnectPipe n)"
  by (simp add: rc_inv_def mk_ReconnectPipe_def set_state_def sleepers_ok_def phase_ok_def accounted_def
      changes_ok_def)

lemma rc_inv_step: "rc_step pol s s' \<Longrightarrow> rc_inv pol s \<Longrightarrow> rc_inv pol s'"
  unfolding rc_step_def rc_inv_def
  using sleepers_user sleepers_worker phase_user phase_worker accounted_user accounted_worker
    attempts_user attempts_worker changes_user changes_worker by metis

lemma rc_inv_reach: "(rc_step pol)\<^sup>*\<^sup>* (mk_ReconnectPipe n) s \<Longrightarrow> rc_inv pol s"
  by (induction rule: rtranclp_induct) (auto intro: rc_inv_init rc_inv_step)

section \<open>Properties of the reconnecting pipe\<close>

text \<open>
  C28: No wake-up is lost: in every reachable state a caller asleep in \<open>wait_connected\<close> has nothing
  to wake up for (the pipe is open, not connected and has not given up), and likewise the worker
  sleeps only while it is connected, or between two attempts while it is not.
\<close>

theorem reconnect_not_stranded:
  assumes "(rc_step pol)\<^sup>*\<^sup>* (mk_ReconnectPipe n) s"
  shows "(\<forall>c. UAsleep c \<in> set (rc_users s) \<longrightarrow> \<not> rc_closed s \<and> rc_inner s = None \<and> \<not> rc_failed s)
     \<and> (rc_worker s = WAsleep \<longrightarrow> \<not> rc_closed s \<and> rc_inner s \<noteq> None)
     \<and> (\<forall>a d. rc_worker s = WPause a d \<longrightarrow> \<not> rc_closed s \<and> rc_inner s = None)"
  using rc_inv_reach [OF assms] by (auto simp: rc_inv_def sleepers_ok_def rc_preds)

text \<open>
  C29: Connections are neither closed twice nor lost: in every reachable state each connection
  dialled so far is either the installed one, or in the hands of exactly one thread that is about
  to close it, or has been closed exactly once.
\<close>

theorem reconnect_connections:
  assumes "(rc_step pol)\<^sup>*\<^sup>* (mk_ReconnectPipe n) s"
  shows "mset (rc_dropped s) + mset_set (set_option (rc_inner s)) + all_held (rc_users s) = mset [0..<rc_dialled s]
     \<and> distinct (rc_dropped s)"
proof -
  have acc: "mset (rc_dropped s) + mset_set (set_option (rc_inner s)) + all_held (rc_users s) = mset [0..<rc_dialled s]"
    using rc_inv_reach [OF assms] by (simp add: rc_inv_def accounted_def)
  have "distinct (rc_dropped s)"
  proof (rule distinct_count_atmost_1 [THEN iffD2], intro allI)
    fix a
    have "count (mset (rc_dropped s)) a \<le> count (mset [0..<rc_dialled s]) a"
      unfolding acc [symmetric] by simp
    also have "\<dots> \<le> 1" using distinct_count_atmost_1 [of "[0..<rc_dialled s]"] by (simp split: if_splits)
    finally show "count (mset (rc_dropped s)) a = (if a \<in> set (rc_dropped s) then 1 else 0)"
      by (auto simp: count_eq_zero_iff le_Suc_eq simp flip: count_greater_zero_iff)
  qed
  with acc show ?thesis by simp
qed

text \<open>
  C30: A limit on the attempts is kept, and the backoff is the documented one: when a dial starts
  after \<open>a\<close> failures, \<open>a\<close> is below \<open>max_attempts\<close> (unless that is zero) and the delay of this
  attempt is the \<open>a\<close>-th of the sequence of delays; giving up happens only with a limit, without a
  connection, and is final; and two successive reported states always differ.
\<close>

theorem reconnect_attempts:
  assumes "(rc_step pol)\<^sup>*\<^sup>* (mk_ReconnectPipe n) s"
  shows "(\<forall>a d. rc_worker s = WDialing a d \<longrightarrow>
        0 \<le> a \<and> (max_attempts pol = 0 \<or> a < max_attempts pol) \<and> d = backoff pol (nat a))
     \<and> (rc_failed s \<longrightarrow> rc_inner s = None \<and> (rc_worker s = WGivenUp \<or> rc_worker s = WDone))
     \<and> (rc_worker s = WGivenUp \<longrightarrow> max_attempts pol \<noteq> 0)
     \<and> distinct_adj (map fst (rc_changes s))"
  using rc_inv_reach [OF assms] by (auto simp: rc_inv_def phase_ok_def changes_ok_def)

text \<open>
  With a whole multiplier (the default is 2) and an initial delay of at most \<open>max_delay\<close> the
  delays are \<open>initial_delay * multiplier ^ k\<close> cut off at \<open>max_delay\<close>, and with the jitter no pause is
  longer than one and a half times \<open>max_delay\<close>.
\<close>

theorem reconnect_backoff:
  assumes "backoff_multiplier pol = rat_of_int m" "1 \<le> m" "0 \<le> initial_delay pol" "initial_delay pol \<le> max_delay pol"
  shows "backoff pol k = min (max_delay pol) (initial_delay pol * m ^ k)
     \<and> 2 * (backoff pol k + jitter_bound (backoff pol k)) \<le> 3 * max_delay pol"
proof -
  have "backoff pol k \<le> max_delay pol" using backoff_geometric [OF assms] by simp
  moreover have "0 \<le> max_delay pol" using assms by simp
  ultimately have "2 * (backoff pol k + jitter_bound (backoff pol k)) \<le> 3 * max_delay pol"
    using jitter_bound_half [of "backoff pol k"] by (simp add: max_def split: if_splits)
  then show ?thesis using backoff_geometric [OF assms] by simp
qed


text \<open>
  A call made after \<open>close\<close> never reaches a connection: in every continuation it is still on
  its way in or returns \<open>kClosed\<close>.
\<close>

theorem reconnect_closed_calls:
  assumes "rc_closed s" "i < length (rc_users s)" "rc_users s ! i = UOut" "(rc_step pol)\<^sup>*\<^sup>* s s'"
  shows "shut_out (rc_users s' ! i)"
proof -
  have "rc_closed s' \<and> i < length (rc_users s') \<and> shut_out (rc_users s' ! i)"
    using assms(4)
  proof (induction rule: rtranclp_induct)
    case base
    then show ?case using assms(1-3) by (auto simp: shut_out_def)
  next
    case (step y z)
    then show ?case using shut_out_step by blast
  qed
  then show ?thesis by simp
qed

text \<open>
  Closing while the worker is inside \<open>dial_once\<close>: the connection is still installed and announced
  afterwards. When \<open>close\<close> has returned and the worker has ended, the last reported state is
  \<open>kConnected\<close> and the new connection is left open.
\<close>

definition race :: "bool \<Rightarrow> ConnectionState \<Rightarrow> nat option \<Rightarrow> wthread \<Rightarrow> uthread \<Rightarrow> state_event list \<Rightarrow> ReconnectPipe" where
  "race cl st inn w u ch =
     \<lparr>rc_closed = cl, rc_failed = False, rc_state = st, rc_ever = (inn \<noteq> None), rc_error = '''', rc_inner = inn,
      rc_worker = w, rc_users = [u], rc_dialled = (if inn = None then 0 else 1), rc_dropped = [],
      rc_changes = ch\<rparr>"

abbreviation race_events :: "state_event list" where
  "race_events \<equiv> [(kConnecting, ''initial connect''), (kStateClosed, ''closed'')]"

lemma race_dialling:
  "(rc_step ReconnectPolicy_default)\<^sup>*\<^sup>* (mk_ReconnectPipe 1)
     (race False kConnecting None (WDialing 0 100) UOut [(kConnecting, ''initial connect'')])"
proof -
  let ?p = ReconnectPolicy_default
  let ?r = "\<lambda>w. race False kConnecting None w UOut [(kConnecting, ''initial connect'')]"
  have init: "mk_ReconnectPipe 1 = ?r WTop"
    by (simp add: mk_ReconnectPipe_def set_state_def race_def)
  have "rc_step ?p (?r WTop) (?r WCheck)"
    using top_open [of "?r WTop" ?p] by (simp add: rc_step_def race_def worker_to_def)
  moreover have "rc_step ?p (?r WCheck) (?r WAnnounce)"
    using check_dial [of "?r WCheck" ?p] by (simp add: rc_step_def race_def worker_to_def)
  moreover have "rc_step ?p (?r WAnnounce) (?r (WTry 0 100))"
    using announced [of "?r WAnnounce" ?p]
    by (simp add: rc_step_def race_def rc_defs ReconnectPolicy_default_def)
  moreover have "rc_step ?p (?r (WTry 0 100)) (?r (WDialing 0 100))"
    using try_dial [of "?r (WTry 0 100)" 0 100 ?p]
    by (simp add: rc_step_def race_def worker_to_def ReconnectPolicy_default_def)
  ultimately show ?thesis unfolding init by (meson converse_rtranclp_into_rtranclp rtranclp.rtrancl_refl)
qed

lemma race_closed:
  "(rc_step ReconnectPolicy_default)\<^sup>*\<^sup>*
     (race False kConnecting None (WDialing 0 100) UOut [(kConnecting, ''initial connect'')])
     (race True kStateClosed None (WDialing 0 100) CJoin race_events)"
proof -
  let ?p = ReconnectPolicy_default
  let ?r = "\<lambda>u. race True kStateClosed None (WDialing 0 100) u race_events"
  let ?a = "race False kConnecting None (WDialing 0 100) UOut [(kConnecting, ''initial connect'')]"
  let ?b = "race True kConnecting None (WDialing 0 100) (CState None) [(kConnecting, ''initial connect'')]"
  have "rc_step ?p ?a ?b"
    using close_call [of ?a 0 "notify_all (?a\<lparr>rc_closed := True, rc_inner := None\<rparr>)"]
    by (simp add: rc_step_def user_at_def race_def rc_defs)
  moreover have "rc_step ?p ?b (?r (CInner None))"
    using close_state [of ?b 0 None] by (simp add: rc_step_def user_at_def race_def rc_defs)
  moreover have "rc_step ?p (?r (CInner None)) (?r CJoin)"
    using close_inner [of "?r (CInner None)" 0 None] by (simp add: rc_step_def user_at_def race_def rc_defs)
  ultimately show ?thesis by (meson converse_rtranclp_into_rtranclp rtranclp.rtrancl_refl)
qed

theorem reconnect_connected_after_close:
  "\<exists>s. (rc_step ReconnectPolicy_default)\<^sup>*\<^sup>* (mk_ReconnectPipe 1) s
     \<and> rc_closed s \<and> rc_worker s = WDone \<and> rc_users s = [UOut]
     \<and> map fst (rc_changes s) = [kConnecting, kStateClosed, kConnected]
     \<and> rc_inner s = Some 0 \<and> rc_dropped s = []"
proof -
  let ?p = ReconnectPolicy_default
  let ?e = "race_events @ [(kConnected, ''connected'')]"
  let ?a = "race True kStateClosed None (WDialing 0 100) CJoin race_events"
  let ?b = "race True kStateClosed (Some 0) WInstalled CJoin race_events"
  let ?c = "\<lambda>w u. race True kConnected (Some 0) w u ?e"
  have "rc_step ?p ?a ?b"
    using dial_ok [of ?a 0 100 ?p] by (simp add: rc_step_def race_def rc_defs)
  moreover have "rc_step ?p ?b (?c WTop CJoin)"
    using installed [of ?b ?p] by (simp add: rc_step_def race_def rc_defs)
  moreover have "rc_step ?p (?c WTop CJoin) (?c WDone CJoin)"
    using top_closed [of "?c WTop CJoin" ?p] by (simp add: rc_step_def race_def rc_defs)
  moreover have "rc_step ?p (?c WDone CJoin) (?c WDone UOut)"
    using close_join [of "?c WDone CJoin" 0] by (simp add: rc_step_def user_at_def race_def rc_defs)
  ultimately have "(rc_step ?p)\<^sup>*\<^sup>* ?a (?c WDone UOut)" 
    by (meson converse_rtranclp_into_rtranclp rtranclp.rtrancl_refl)
  with race_dialling race_closed have "(rc_step ?p)\<^sup>*\<^sup>* (mk_ReconnectPipe 1) (?c WDone UOut)"
    by (meson rtranclp_trans)
  then show ?thesis by (intro exI [of _ "?c WDone UOut"]) (simp add: race_def)
qed

section \<open>Concrete instances\<close>

lemma reconnect_not_stranded_witness:
  "\<exists>s. (rc_step ReconnectPolicy_default)\<^sup>*\<^sup>* (mk_ReconnectPipe 1) s \<and> rc_worker s = WDialing 0 100
     \<and> rc_users s = [UOut] \<and> UAsleep (True, ''send: '') \<notin> set (rc_users s)"
  using reconnect_not_stranded [OF race_dialling] race_dialling by (fastforce simp: race_def)

lemma reconnect_connections_witness:
  "\<exists>s. (rc_step ReconnectPolicy_default)\<^sup>*\<^sup>* (mk_ReconnectPipe 1) s \<and> rc_closed s \<and> distinct (rc_dropped s)
     \<and> mset (rc_dropped s) + mset_set (set_option (rc_inner s)) + all_held (rc_users s) = mset [0..<rc_dialled s]"
  using reconnect_connections [OF rtranclp_trans [OF race_dialling race_closed]]
    rtranclp_trans [OF race_dialling race_closed] by (fastforce simp: race_def)

lemma reconnect_attempts_witness:
  "\<exists>s. (rc_step ReconnectPolicy_default)\<^sup>*\<^sup>* (mk_ReconnectPipe 1) s
     \<and> rc_worker s = WDialing 0 (backoff ReconnectPolicy_default 0)"
proof -
  have "rc_worker (race False kConnecting None (WDialing 0 100) UOut [(kConnecting, ''initial connect'')]) = WDialing 0 100"
    by (simp add: race_def)
  with reconnect_attempts [OF race_dialling] race_dialling show ?thesis by force
qed

lemma reconnect_backoff_witness:
  "backoff ReconnectPolicy_default 3 = 800 \<and> backoff ReconnectPolicy_default 20 = 30000"
  using reconnect_backoff [of ReconnectPolicy_default 2] by (simp add: ReconnectPolicy_default_def)


lemma reconnect_closed_calls_witness:
  "\<exists>s s'. rc_closed s \<and> rc_users s = [UOut] \<and> (rc_step ReconnectPolicy_default)\<^sup>*\<^sup>* s s'
     \<and> rc_users s' = [UEnter (True, ''send: '')] \<and> shut_out (rc_users s' ! 0)"
proof -
  let ?a = "race True kStateClosed None WDone UOut race_events"
  have a: "rc_closed ?a" "rc_users ?a = [UOut]" by (simp_all add: race_def)
  then have s: "(rc_step ReconnectPolicy_default)\<^sup>*\<^sup>* ?a (user_to 0 (UEnter (True, ''send: '')) ?a)"
    using call_start [of ?a 0 True "''send: ''"] by (auto simp: rc_step_def user_at_def)
  from reconnect_closed_calls [OF a(1) _ _ s, of 0] a s show ?thesis
    by (intro exI [of _ ?a] exI [of _ "user_to 0 (UEnter (True, ''send: '')) ?a"]) (simp add: user_to_def)
qed

end
