(* ===== verification/Duct_Os.thy ===== *)
theory Duct_Os
  imports Duct_Status
begin

text \<open>
  The operating system as the library sees it. System calls are not code of the repository:
  the definitions that use them take them as parameters (functions on an opaque world
  \<open>'w\<close>), and what POSIX documents of them is stated here as locales. A blocking call is a
  function of the world that already knows what will arrive, so the model of a stream is the
  sequence of bytes the peer ever delivers.
\<close>

datatype errno = EINTR | EAGAIN | ETIMEDOUT | EINPROGRESS | EOTHER int

datatype send_ret = SendOk nat | SendFail errno

datatype recv_ret = RecvOk byte_seq | RecvFail errno

type_synonym 'w sys_send = "int \<Rightarrow> byte_seq \<Rightarrow> 'w \<Rightarrow> send_ret \<times> 'w"
type_synonym 'w sys_recv = "int \<Rightarrow> nat \<Rightarrow> 'w \<Rightarrow> recv_ret \<times> 'w"

text \<open>
  \<open>send(2)\<close> on a stream socket: the count it returns is at most the length of the buffer and
  those bytes were appended to the outgoing stream; a failing call appends nothing; only
  finitely many signals interrupt the caller (\<open>signals\<close> bounds them).
\<close>

locale stream_send =
  fixes osend :: "'w sys_send"
    and sent :: "int \<Rightarrow> 'w \<Rightarrow> byte_seq"
    and signals :: "'w \<Rightarrow> nat"
  assumes send_accepts:
      "osend fd p w = (SendOk k, w') \<Longrightarrow> k \<le> length p \<and> sent fd w' = sent fd w @ take k p"
    and send_fails: "osend fd p w = (SendFail e, w') \<Longrightarrow> sent fd w' = sent fd w"
    and send_intr: "osend fd p w = (SendFail EINTR, w') \<Longrightarrow> signals w' < signals w"

text \<open>
  \<open>recv(2)\<close> on a stream socket: it returns a non-empty front part of the pending stream of at
  most the requested length, and the empty result only at the end of the stream.
\<close>

locale stream_recv =
  fixes orecv :: "'w sys_recv"
    and pending :: "int \<Rightarrow> 'w \<Rightarrow> byte_seq"
    and signals :: "'w \<Rightarrow> nat"
  assumes recv_takes:
      "orecv fd n w = (RecvOk bs, w') \<Longrightarrow> length bs \<le> n \<and> pending fd w = bs @ pending fd w'"
    and recv_eof: "orecv fd n w = (RecvOk [], w') \<Longrightarrow> 0 < n \<Longrightarrow> pending fd w = []"
    and recv_fails: "orecv fd n w = (RecvFail e, w') \<Longrightarrow> pending fd w' = pending fd w"
    and recv_intr: "orecv fd n w = (RecvFail EINTR, w') \<Longrightarrow> signals w' < signals w"

section \<open>A scripted stream socket\<close>

text \<open>
  The socket used to exhibit the contracts: every call consumes one entry of a script, which
  says how many bytes the kernel moves (at least one) or how the call fails; once the script is
  used up, calls move everything. Every finite sequence of short transfers, interruptions and
  failures is some script.
\<close>

datatype io_event = Chunk nat | Fault errno

record sock_world =
  outgoing :: byte_seq
  incoming :: byte_seq
  script :: "io_event list"

definition script_send :: "sock_world sys_send" where
  "script_send fd p w =
     (case script w of
        [] \<Rightarrow> (SendOk (length p), w\<lparr>outgoing := outgoing w @ p\<rparr>)
      | Fault e # es \<Rightarrow> (SendFail e, w\<lparr>script := es\<rparr>)
      | Chunk k # es \<Rightarrow>
          let n = min (Suc k) (length p)
          in (SendOk n, w\<lparr>script := es, outgoing := outgoing w @ take n p\<rparr>))"

definition script_recv :: "sock_world sys_recv" where
  "script_recv fd n w =
     (case script w of
        [] \<Rightarrow> (RecvOk (take n (incoming w)), w\<lparr>incoming := drop n (incoming w)\<rparr>)
      | Fault e # es \<Rightarrow> (RecvFail e, w\<lparr>script := es\<rparr>)
      | Chunk k # es \<Rightarrow>
          let m = min (Suc k) n
          in (RecvOk (take m (incoming w)),
              w\<lparr>script := es, incoming := drop m (incoming w)\<rparr>))"

definition script_signals :: "sock_world \<Rightarrow> nat" where
  "script_signals w = length (script w)"

interpretation script_out: stream_send script_send "\<lambda>fd. outgoing" script_signals
  by unfold_locales
    (auto simp: script_send_def script_signals_def Let_def split: list.splits io_event.splits)

interpretation script_in: stream_recv script_recv "\<lambda>fd. incoming" script_signals
  by unfold_locales
    (auto simp: script_recv_def script_signals_def Let_def min_def
      split: list.splits io_event.splits if_splits)

end
