(* ===== verification/Duct_Shm_Ring.thy ===== *)
theory Duct_Shm_Ring
  imports Duct_Options Duct_Fifo Duct_Os
begin

text \<open>
  The shared-memory rings of \<^verbatim>\<open>src/shm_transport.cc\<close>: 64 slots of 64 KiB, free-running 32-bit
  \<open>head\<close> and \<open>tail\<close> counters and two semaphores per direction. First the pieces of
  \<open>ShmPipe::send\<close> and \<open>ShmPipe::recv\<close> as functions on the ring; then one sending and one
  receiving process that interleave at every access to shared memory or a semaphore, and the
  proof that the ring is a bounded FIFO, across the wrap-around of the counters.
\<close>

section \<open>Data\<close>

definition kSlotPayloadMax :: nat where
  "kSlotPayloadMax = 64 * 1024"

definition kSlotCount :: u32 where
  "kSlotCount = 64"

record Slot =
  slot_len :: u32
  slot_data :: byte_seq

record Ring =
  head :: u32
  tail :: u32
  slots :: "Slot list"

text \<open>The ring in freshly created, zeroed shared memory.\<close>

definition zero_Slot :: Slot where
  "zero_Slot = \<lparr>slot_len = 0, slot_data = replicate kSlotPayloadMax 0\<rparr>"

definition zero_Ring :: Ring where
  "zero_Ring = \<lparr>head = 0, tail = 0, slots = replicate (unat kSlotCount) zero_Slot\<rparr>"

section \<open>The pieces of \<open>send\<close> and \<open>recv\<close>\<close>

definition slot_index :: "u32 \<Rightarrow> nat" where
  "slot_index i = unat (i mod kSlotCount)"

definition write_slot :: "Message \<Rightarrow> Ring \<Rightarrow> Ring" where
  "write_slot msg r =
     (let idx = slot_index (head r);
          s = slots r ! idx;
          s = s\<lparr>slot_len := of_nat (msg_size msg)\<rparr>;
          s = (if msg_size msg \<noteq> 0 then s\<lparr>slot_data := memcpy_at (slot_data s) 0 (view msg)\<rparr> else s)
      in r\<lparr>slots := (slots r)[idx := s]\<rparr>)"

definition publish :: "Ring \<Rightarrow> Ring" where
  "publish r = r\<lparr>head := head r + 1\<rparr>"

definition read_slot :: "Ring \<Rightarrow> Message Result" where
  "read_slot r =
     (let s = slots r ! slot_index (tail r);
          len = slot_len s
      in if unat len > kSlotPayloadMax then ResErr (protocol_error ''shm slot len too large'')
         else ResVal (from_bytes (slot_data s) (unat len)))"

definition release :: "Ring \<Rightarrow> Ring" where
  "release r = r\<lparr>tail := tail r + 1\<rparr>"

section \<open>One sender and one receiver\<close>

text \<open>
  The sender is waiting for a space, has one, has written the slot, or has published it and must
  still post \<open>items\<close>; the receiver likewise. The ghost lists record the payloads in the order
  they were written and read.
\<close>

datatype producer = PIdle | PGot Message | PWritten | PPublished
datatype consumer = CIdle | CGot | CRead | CReleased

record ring_sys =
  ring :: Ring
  items :: nat
  spaces :: nat
  sender_pc :: producer
  receiver_pc :: consumer
  written :: "byte_seq list"
  taken :: "byte_seq list"

inductive ring_step :: "ring_sys \<Rightarrow> ring_sys \<Rightarrow> bool" where
  acquire_space: "sender_pc s = PIdle \<Longrightarrow> wf_Message msg \<Longrightarrow> msg_size msg \<le> kSlotPayloadMax \<Longrightarrow> 0 < spaces s \<Longrightarrow>
    ring_step s (s\<lparr>spaces := spaces s - 1, sender_pc := PGot msg\<rparr>)"
| write_message: "sender_pc s = PGot msg \<Longrightarrow>
    ring_step s (s\<lparr>ring := write_slot msg (ring s), sender_pc := PWritten, written := written s @ [view msg]\<rparr>)"
| publish_head: "sender_pc s = PWritten \<Longrightarrow>
    ring_step s (s\<lparr>ring := publish (ring s), sender_pc := PPublished\<rparr>)"
| post_items: "sender_pc s = PPublished \<Longrightarrow> ring_step s (s\<lparr>items := items s + 1, sender_pc := PIdle\<rparr>)"
| acquire_item: "receiver_pc s = CIdle \<Longrightarrow> 0 < items s \<Longrightarrow>
    ring_step s (s\<lparr>items := items s - 1, receiver_pc := CGot\<rparr>)"
| read_message: "receiver_pc s = CGot \<Longrightarrow> read_slot (ring s) = ResVal m \<Longrightarrow>
    ring_step s (s\<lparr>receiver_pc := CRead, taken := taken s @ [view m]\<rparr>)"
| reject_message: "receiver_pc s = CGot \<Longrightarrow> read_slot (ring s) = ResErr st \<Longrightarrow>
    ring_step s (s\<lparr>receiver_pc := CIdle\<rparr>)"
| release_tail: "receiver_pc s = CRead \<Longrightarrow>
    ring_step s (s\<lparr>ring := release (ring s), receiver_pc := CReleased\<rparr>)"
| post_spaces: "receiver_pc s = CReleased \<Longrightarrow> ring_step s (s\<lparr>spaces := spaces s + 1, receiver_pc := CIdle\<rparr>)"

definition ring_init :: ring_sys where
  "ring_init = \<lparr>ring = zero_Ring, items = 0, spaces = unat kSlotCount, sender_pc = PIdle, receiver_pc = CIdle,
     written = [], taken = []\<rparr>"

section \<open>The ring invariant\<close>

text \<open>Counters wrap at \<open>2 ^ 32\<close>, of which the number of slots is a divisor.\<close>

lemma slot_index_of_nat: "slot_index (of_nat n) = n mod 64"
proof -
  have "unat (of_nat n mod 64 :: u32) = (n mod 2 ^ 32) mod 64"
    by (simp add: unat_mod unat_of_nat take_bit_eq_mod)
  also have "\<dots> = n mod 64" by (simp add: mod_mod_cancel)
  finally show ?thesis by (simp add: slot_index_def kSlotCount_def)
qed

definition slot_payload :: "Slot \<Rightarrow> byte_seq" where
  "slot_payload s = take (unat (slot_len s)) (slot_data s)"

definition slots_wf :: "Ring \<Rightarrow> bool" where
  "slots_wf r \<longleftrightarrow> length (slots r) = 64
     \<and> (\<forall>s\<in>set (slots r). length (slot_data s) = kSlotPayloadMax \<and> unat (slot_len s) \<le> kSlotPayloadMax)"

text \<open>
  How many spaces the sender holds, how many written messages it has not yet counted in \<open>head\<close>
  and in \<open>items\<close>, and the same for the receiver.
\<close>

definition p_holds :: "producer \<Rightarrow> nat" where
  "p_holds p = (case p of PGot _ \<Rightarrow> 1 | _ \<Rightarrow> 0)"

definition p_unpublished :: "producer \<Rightarrow> nat" where
  "p_unpublished p = (case p of PWritten \<Rightarrow> 1 | _ \<Rightarrow> 0)"

definition p_unposted :: "producer \<Rightarrow> nat" where
  "p_unposted p = (case p of PWritten \<Rightarrow> 1 | PPublished \<Rightarrow> 1 | _ \<Rightarrow> 0)"

definition c_holds :: "consumer \<Rightarrow> nat" where
  "c_holds c = (case c of CGot \<Rightarrow> 1 | _ \<Rightarrow> 0)"

definition c_unreleased :: "consumer \<Rightarrow> nat" where
  "c_unreleased c = (case c of CRead \<Rightarrow> 1 | _ \<Rightarrow> 0)"

definition c_unposted :: "consumer \<Rightarrow> nat" where
  "c_unposted c = (case c of CRead \<Rightarrow> 1 | CReleased \<Rightarrow> 1 | _ \<Rightarrow> 0)"

lemmas pc_counts = p_holds_def p_unpublished_def p_unposted_def c_holds_def c_unreleased_def
  c_unposted_def

definition counts_ok :: "ring_sys \<Rightarrow> bool" where
  "counts_ok s \<longleftrightarrow>
     (\<exists>h t. length (written s) = h + p_unpublished (sender_pc s) \<and> head (ring s) = of_nat h
        \<and> length (taken s) = t + c_unreleased (receiver_pc s) \<and> tail (ring s) = of_nat t)
     \<and> items s + length (taken s) + c_holds (receiver_pc s) + p_unposted (sender_pc s) = length (written s)
     \<and> spaces s + length (written s) + p_holds (sender_pc s) + c_unposted (receiver_pc s) = 64 + length (taken s)"

definition slots_hold :: "ring_sys \<Rightarrow> bool" where
  "slots_hold s \<longleftrightarrow>
     (\<forall>k. length (taken s) \<le> k \<longrightarrow> k < length (written s) \<longrightarrow>
        slot_payload (slots (ring s) ! (k mod 64)) = written s ! k)"

definition producer_wf :: "producer \<Rightarrow> bool" where
  "producer_wf p = (case p of PGot m \<Rightarrow> wf_Message m \<and> msg_size m \<le> kSlotPayloadMax | _ \<Rightarrow> True)"

definition ring_inv :: "ring_sys \<Rightarrow> bool" where
  "ring_inv s \<longleftrightarrow> counts_ok s \<and> slots_hold s \<and> slots_wf (ring s) \<and> producer_wf (sender_pc s)
     \<and> taken s = take (length (taken s)) (written s)"

lemma slots_frame [simp]:
  "slots (publish r) = slots r" "slots (release r) = slots r"
  "slots_wf (publish r) = slots_wf r" "slots_wf (release r) = slots_wf r"
  by (simp_all add: publish_def release_def slots_wf_def)

text \<open>What the sender writes, and what the receiver reads, when the counters are as they should.\<close>

lemma write_slot_payload:
  assumes "slots_wf r" "wf_Message m" "msg_size m \<le> kSlotPayloadMax" "head r = of_nat h"
  shows "slots_wf (write_slot m r)" "slot_payload (slots (write_slot m r) ! (h mod 64)) = view m"
    and "j < 64 \<Longrightarrow> j \<noteq> h mod 64 \<Longrightarrow> slots (write_slot m r) ! j = slots r ! j"
    and "head (write_slot m r) = head r" "tail (write_slot m r) = tail r"
proof -
  let ?i = "h mod 64"
  have len: "length (slots r) = 64" and "slots r ! ?i \<in> set (slots r)"
    using assms(1) by (simp_all add: slots_wf_def)
  then have d: "length (slot_data (slots r ! ?i)) = kSlotPayloadMax"
    using assms(1) by (simp add: slots_wf_def)
  have u: "unat (of_nat (msg_size m) :: u32) = msg_size m"
    using assms(3) by (simp add: kSlotPayloadMax_def unat_of_nat_small)
  define s where "s = slots (write_slot m r) ! ?i"
  have w: "write_slot m r = r\<lparr>slots := (slots r)[?i := s]\<rparr>"
    using len by (simp add: s_def write_slot_def Let_def assms(4) slot_index_of_nat)
  have s: "slot_payload s = view m" "length (slot_data s) = kSlotPayloadMax" "unat (slot_len s) = msg_size m"
    using len d u assms(2,3) length_view [OF assms(2)] length_0_conv [of "view m"]
    by (auto simp: s_def write_slot_def Let_def assms(4) slot_index_of_nat slot_payload_def memcpy_at_def)
  show "slots_wf (write_slot m r)"
    using assms(1,3) s set_update_subset_insert [of "slots r" ?i s] unfolding w slots_wf_def by auto
  show "slot_payload (slots (write_slot m r) ! ?i) = view m" using s(1) by (simp add: s_def)
  show "slots (write_slot m r) ! j = slots r ! j" if "j < 64" "j \<noteq> ?i" using that w by simp
  show "head (write_slot m r) = head r" "tail (write_slot m r) = tail r" by (simp_all add: w)
qed

lemma read_slot_payload:
  assumes "slots_wf r" "tail r = of_nat t"
  shows "\<exists>m. read_slot r = ResVal m \<and> wf_Message m \<and> view m = slot_payload (slots r ! (t mod 64))"
proof -
  have "slots r ! (t mod 64) \<in> set (slots r)" using assms(1) by (simp add: slots_wf_def)
  then have "length (slot_data (slots r ! (t mod 64))) = kSlotPayloadMax"
    "unat (slot_len (slots r ! (t mod 64))) \<le> kSlotPayloadMax"
    using assms(1) by (auto simp: slots_wf_def)
  then show ?thesis
    by (auto simp: read_slot_def Let_def assms(2) slot_index_of_nat slot_payload_def)
qed

lemma mod_window: "k < n \<Longrightarrow> n < k + 64 \<Longrightarrow> k mod 64 \<noteq> n mod (64 :: nat)"
proof
  assume a: "k < n" "n < k + 64" "k mod 64 = n mod 64"
  then obtain d where "n = k + 64 * d" by (metis less_imp_le_nat mod_eq_nat2E)
  with a show False by (cases d) auto
qed

lemma write_message_inv:
  assumes "ring_inv s" "sender_pc s = PGot m"
  shows "ring_inv (s\<lparr>ring := write_slot m (ring s), sender_pc := PWritten, written := written s @ [view m]\<rparr>)"
proof -
  let ?n = "length (written s)" and ?r = "write_slot m (ring s)"
  have c: "counts_ok s" "slots_hold s" "slots_wf (ring s)" "wf_Message m" "msg_size m \<le> kSlotPayloadMax"
    "taken s = take (length (taken s)) (written s)"
    using assms by (simp_all add: ring_inv_def producer_wf_def)
  have h: "head (ring s) = of_nat ?n" using c(1) assms(2) by (simp add: counts_ok_def pc_counts)
  note w = write_slot_payload [OF c(3-5) h]
  have lt: "?n < length (taken s) + 64" "length (taken s) \<le> ?n"
    using c(1) assms(2) by (auto simp: counts_ok_def p_holds_def)
  have "slot_payload (slots ?r ! (k mod 64)) = (written s @ [view m]) ! k"
    if "length (taken s) \<le> k" "k < Suc ?n" for k
  proof (cases "k = ?n")
    case False
    with that have "k < ?n" by simp
    then show ?thesis
      using w(3) [of "k mod 64"] mod_window [of k ?n] that lt c(2)
      by (simp add: slots_hold_def nth_append)
  qed (simp add: w(2))
  moreover have "counts_ok (s\<lparr>ring := ?r, sender_pc := PWritten, written := written s @ [view m]\<rparr>)"
    using c(1) assms(2) w(4,5) by (auto simp: counts_ok_def pc_counts)
  ultimately show ?thesis
    using w(1) c(6) lt by (simp add: ring_inv_def slots_hold_def producer_wf_def)
qed

lemma read_message_inv:
  assumes "ring_inv s" "receiver_pc s = CGot"
  shows "\<exists>m. read_slot (ring s) = ResVal m \<and> view m = written s ! length (taken s)
     \<and> length (taken s) < length (written s)"
    and "read_slot (ring s) = ResVal m \<Longrightarrow>
      ring_inv (s\<lparr>receiver_pc := CRead, taken := taken s @ [view m]\<rparr>)"
proof -
  let ?t = "length (taken s)"
  have c: "counts_ok s" "slots_hold s" "slots_wf (ring s)" "taken s = take ?t (written s)" "producer_wf (sender_pc s)"
    using assms by (simp_all add: ring_inv_def)
  have t: "tail (ring s) = of_nat ?t" "?t < length (written s)"
    using c(1) assms(2) by (auto simp: counts_ok_def pc_counts)
  then obtain m' where m': "read_slot (ring s) = ResVal m'" "view m' = written s ! ?t"
    using read_slot_payload [OF c(3) t(1)] c(2) by (auto simp: slots_hold_def)
  then show "\<exists>m. read_slot (ring s) = ResVal m \<and> view m = written s ! ?t \<and> ?t < length (written s)"
    using t(2) by blast
  show "ring_inv (s\<lparr>receiver_pc := CRead, taken := taken s @ [view m]\<rparr>)" if "read_slot (ring s) = ResVal m"
  proof -
    have "view m = written s ! ?t" using that m' by simp
    then have "taken s @ [view m] = take (Suc ?t) (written s)"
      using c(4) t(2) by (metis take_Suc_conv_app_nth)
    moreover have "counts_ok (s\<lparr>receiver_pc := CRead, taken := taken s @ [view m]\<rparr>)"
      using c(1) assms(2) by (auto simp: counts_ok_def pc_counts)
    ultimately show ?thesis using c(2,3,5) t(2) by (simp add: ring_inv_def slots_hold_def min_def)
  qed
qed

lemma ring_inv_step:
  assumes "ring_step s s'" "ring_inv s" shows "ring_inv s'"
  using assms(1)
proof (cases rule: ring_step.cases)
  case (write_message msg)
  with write_message_inv [OF assms(2)] show ?thesis by simp
next
  case (read_message m)
  with read_message_inv(2) [OF assms(2)] show ?thesis by simp
next
  case (reject_message st)
  with read_message_inv(1) [OF assms(2)] show ?thesis by auto
next
  case publish_head
  then have "counts_ok s'"
    using assms(2) by (auto simp: ring_inv_def counts_ok_def pc_counts publish_def)
  with publish_head assms(2) show ?thesis
    by (simp add: ring_inv_def slots_hold_def producer_wf_def)
next
  case release_tail
  then have "counts_ok s'"
    using assms(2) by (auto simp: ring_inv_def counts_ok_def pc_counts release_def)
  with release_tail assms(2) show ?thesis by (simp add: ring_inv_def slots_hold_def)
qed (use assms(2) in \<open>auto simp: ring_inv_def counts_ok_def slots_hold_def producer_wf_def pc_counts\<close>)

lemma ring_inv_init: "ring_inv ring_init"
  by (simp add: ring_inv_def ring_init_def counts_ok_def slots_hold_def producer_wf_def pc_counts
      slots_wf_def zero_Ring_def zero_Slot_def kSlotCount_def)

lemma ring_inv_reach: "ring_step\<^sup>*\<^sup>* ring_init s \<Longrightarrow> ring_inv s"
  by (induction rule: rtranclp_induct) (auto intro: ring_inv_init ring_inv_step)

section \<open>Whole operations\<close>

text \<open>
  A ring with its two semaphores between operations, and \<open>send\<close>/\<open>recv\<close> run to completion on it;
  \<open>None\<close> when the operation refuses or would have to wait.
\<close>

record ring_chan =
  ch_ring :: Ring
  ch_items :: nat
  ch_spaces :: nat

definition chan_send :: "Message \<Rightarrow> ring_chan \<Rightarrow> ring_chan option" where
  "chan_send msg c =
     (if msg_size msg > kSlotPayloadMax \<or> ch_spaces c = 0 then None
      else Some \<lparr>ch_ring = publish (write_slot msg (ch_ring c)),
                 ch_items = ch_items c + 1, ch_spaces = ch_spaces c - 1\<rparr>)"

definition chan_recv :: "ring_chan \<Rightarrow> (Message \<times> ring_chan) option" where
  "chan_recv c =
     (if ch_items c = 0 then None
      else case read_slot (ch_ring c) of
        ResErr _ \<Rightarrow> None
      | ResVal m \<Rightarrow>
          Some (m, \<lparr>ch_ring = release (ch_ring c), ch_items = ch_items c - 1, ch_spaces = ch_spaces c + 1\<rparr>))"

text \<open>The payloads in the ring, oldest first.\<close>

definition chan_contents :: "ring_chan \<Rightarrow> byte_seq list" where
  "chan_contents c =
     map (\<lambda>k. slot_payload (slots (ch_ring c) ! slot_index (tail (ch_ring c) + of_nat k))) [0..<ch_items c]"

definition chan_inv :: "ring_chan \<Rightarrow> bool" where
  "chan_inv c \<longleftrightarrow> slots_wf (ch_ring c) \<and> ch_items c + ch_spaces c = 64
     \<and> head (ch_ring c) = tail (ch_ring c) + of_nat (ch_items c)"

lemma u32_as_of_nat: "\<exists>n. (w :: u32) = of_nat n"
  by (metis word_nchotomy)

lemma chan_send_contents:
  assumes "chan_inv c" "wf_Message m" "chan_send m c = Some c'"
  shows "chan_contents c' = chan_contents c @ [view m]" "chan_inv c'"
proof -
  obtain t where t: "tail (ch_ring c) = of_nat t" using u32_as_of_nat by blast
  let ?n = "ch_items c"
  have i: "slots_wf (ch_ring c)" "?n < 64" "head (ch_ring c) = of_nat (t + ?n)" "msg_size m \<le> kSlotPayloadMax"
    and c': "c' = \<lparr>ch_ring = publish (write_slot m (ch_ring c)), ch_items = ?n + 1, ch_spaces = ch_spaces c - 1\<rparr>"
    using assms t by (auto simp: chan_inv_def chan_send_def split: if_splits)
  note w = write_slot_payload [OF i(1) assms(2) i(4) i(3)]
  have "slots (write_slot m (ch_ring c)) ! ((t + k) mod 64) = slots (ch_ring c) ! ((t + k) mod 64)"
    if "k < ?n" for k
    using that w(3) [of "(t + k) mod 64"] mod_window [of "t + k" "t + ?n"] i(2) by simp
  then show "chan_contents c' = chan_contents c @ [view m]"
    using w(2,5) t unfolding c' chan_contents_def
    by (auto simp: publish_def slot_index_of_nat simp flip: of_nat_add)
  show "chan_inv c'"
    using assms(1,3) w(1,4,5) unfolding c'
    by (auto simp: chan_inv_def publish_def chan_send_def slots_wf_def split: if_splits)
qed

lemma chan_recv_contents:
  assumes "chan_inv c" "chan_recv c = Some (m, c')"
  shows "chan_contents c = view m # chan_contents c'" "chan_inv c'" "wf_Message m"
proof -
  obtain t where t: "tail (ch_ring c) = of_nat t" using u32_as_of_nat by blast
  obtain n where n: "ch_items c = Suc n" using assms(2) by (cases "ch_items c") (simp_all add: chan_recv_def)
  from assms(2) n have c': "c' = \<lparr>ch_ring = release (ch_ring c), ch_items = n, ch_spaces = ch_spaces c + 1\<rparr>"
    and m: "read_slot (ch_ring c) = ResVal m"
    by (auto simp: chan_recv_def split: Result.splits)
  from read_slot_payload [OF _ t] m assms(1)
  have v: "view m = slot_payload (slots (ch_ring c) ! (t mod 64))" "wf_Message m"
    by (auto simp: chan_inv_def)
  show "chan_contents c = view m # chan_contents c'"
    using v t n unfolding c' chan_contents_def
    by (auto simp: release_def slot_index_of_nat upt_conv_Cons map_Suc_upt [symmetric] comp_def add_ac
        simp del: upt_Suc simp flip: of_nat_Suc of_nat_add)
  show "chan_inv c'" using assms(1) n unfolding c' by (auto simp: chan_inv_def release_def slots_wf_def)
  show "wf_Message m" by (rule v(2))
qed

lemma chan_recv_none: "chan_inv c \<Longrightarrow> chan_recv c = None \<longleftrightarrow> ch_items c = 0"
proof -
  assume "chan_inv c"
  moreover obtain t where "tail (ch_ring c) = of_nat t" using u32_as_of_nat by blast
  ultimately obtain m where "read_slot (ch_ring c) = ResVal m"
    using read_slot_payload [of "ch_ring c" t] by (auto simp: chan_inv_def)
  then show ?thesis by (simp add: chan_recv_def)
qed

definition chan_put :: "byte_seq \<Rightarrow> ring_chan \<Rightarrow> ring_chan option" where
  "chan_put bs = chan_send (from_span bs)"

definition chan_get :: "ring_chan \<Rightarrow> (byte_seq \<times> ring_chan) option" where
  "chan_get c = map_option (\<lambda>(m, c'). (view m, c')) (chan_recv c)"

interpretation shm_fifo: fifo chan_inv chan_contents chan_put chan_get
proof
  show "chan_contents c' = chan_contents c @ [bs]" "chan_inv c'"
    if "chan_inv c" "chan_put bs c = Some c'" for c bs c'
    using that chan_send_contents [of c "from_span bs" c'] by (simp_all add: chan_put_def)
  show "chan_contents c = bs # chan_contents c'" "chan_inv c'"
    if "chan_inv c" "chan_get c = Some (bs, c')" for c bs c'
    using that chan_recv_contents [of c] by (auto simp: chan_get_def)
  show "(chan_get c = None) = (chan_contents c = [])" if "chan_inv c" for c
    using that chan_recv_none [OF that] by (simp add: chan_get_def chan_contents_def)
qed

text \<open>A whole \<open>send\<close> or \<open>recv\<close> is one of the interleavings: the one in which nobody intervenes.\<close>

definition quiet_sys :: "ring_chan \<Rightarrow> byte_seq list \<Rightarrow> byte_seq list \<Rightarrow> ring_sys" where
  "quiet_sys c ws ts = \<lparr>ring = ch_ring c, items = ch_items c, spaces = ch_spaces c, sender_pc = PIdle,
     receiver_pc = CIdle, written = ws, taken = ts\<rparr>"

lemma chan_send_steps:
  assumes "chan_send m c = Some c'" "wf_Message m"
  shows "ring_step\<^sup>*\<^sup>* (quiet_sys c ws ts) (quiet_sys c' (ws @ [view m]) ts)"
proof -
  let ?s = "quiet_sys c ws ts"
  let ?s1 = "?s\<lparr>spaces := spaces ?s - 1, sender_pc := PGot m\<rparr>"
  let ?s2 = "?s1\<lparr>ring := write_slot m (ring ?s1), sender_pc := PWritten, written := written ?s1 @ [view m]\<rparr>"
  let ?s3 = "?s2\<lparr>ring := publish (ring ?s2), sender_pc := PPublished\<rparr>"
  have "ring_step ?s ?s1"
    using assms by (intro acquire_space) (auto simp: quiet_sys_def chan_send_def split: if_splits)
  moreover have "ring_step ?s1 ?s2" by (rule write_message) simp
  moreover have "ring_step ?s2 ?s3" by (rule publish_head) simp
  moreover have "ring_step ?s3 (quiet_sys c' (ws @ [view m]) ts)"
    using post_items [of ?s3] assms by (auto simp: quiet_sys_def chan_send_def split: if_splits)
  ultimately show ?thesis by (meson converse_rtranclp_into_rtranclp rtranclp.rtrancl_refl)
qed

lemma chan_recv_steps:
  assumes "chan_recv c = Some (m, c')"
  shows "ring_step\<^sup>*\<^sup>* (quiet_sys c ws ts) (quiet_sys c' ws (ts @ [view m]))"
proof -
  let ?s = "quiet_sys c ws ts"
  let ?s1 = "?s\<lparr>items := items ?s - 1, receiver_pc := CGot\<rparr>"
  let ?s2 = "?s1\<lparr>receiver_pc := CRead, taken := taken ?s1 @ [view m]\<rparr>"
  let ?s3 = "?s2\<lparr>ring := release (ring ?s2), receiver_pc := CReleased\<rparr>"
  have r: "0 < ch_items c" "read_slot (ch_ring c) = ResVal m"
    using assms by (auto simp: chan_recv_def split: if_splits Result.splits)
  have "ring_step ?s ?s1" using r by (intro acquire_item) (auto simp: quiet_sys_def)
  moreover have "ring_step ?s1 ?s2" using r by (intro read_message) (auto simp: quiet_sys_def)
  moreover have "ring_step ?s2 ?s3" by (rule release_tail) simp
  moreover have "ring_step ?s3 (quiet_sys c' ws (ts @ [view m]))"
    using post_spaces [of ?s3] assms r by (auto simp: quiet_sys_def chan_recv_def)
  ultimately show ?thesis by (meson converse_rtranclp_into_rtranclp rtranclp.rtrancl_refl)
qed

definition chan_init :: ring_chan where
  "chan_init = \<lparr>ch_ring = zero_Ring, ch_items = 0, ch_spaces = unat kSlotCount\<rparr>"

lemma quiet_init: "quiet_sys chan_init [] [] = ring_init"
  by (simp add: quiet_sys_def chan_init_def ring_init_def)

lemma chan_inv_init: "chan_inv chan_init"
  by (simp add: chan_inv_def chan_init_def slots_wf_def zero_Ring_def zero_Slot_def kSlotCount_def)

section \<open>Properties of the ring\<close>

text \<open>
  C16: However the sending and the receiving process interleave, and however often the 32-bit
  counters wrap around, the payloads read are in order the payloads written, none twice and none
  skipped; never more than 64 messages are in the ring; and the receiver never finds a slot with
  an impossible length.
\<close>

theorem shm_ring_fifo:
  assumes "ring_step\<^sup>*\<^sup>* ring_init s"
  shows "prefix (taken s) (written s) \<and> length (written s) \<le> length (taken s) + 64
     \<and> (receiver_pc s = CGot \<longrightarrow> (\<exists>m. read_slot (ring s) = ResVal m \<and> prefix (taken s @ [view m]) (written s)))"
proof -
  have inv: "ring_inv s" by (rule ring_inv_reach [OF assms])
  then have p: "taken s = take (length (taken s)) (written s)" by (simp add: ring_inv_def)
  have "\<exists>m. read_slot (ring s) = ResVal m \<and> prefix (taken s @ [view m]) (written s)" if "receiver_pc s = CGot"
    using read_message_inv(1) [OF inv that] p by (metis take_Suc_conv_app_nth take_is_prefix)
  moreover have "length (written s) \<le> length (taken s) + 64"
    using inv by (auto simp: ring_inv_def counts_ok_def)
  ultimately show ?thesis using p by (metis take_is_prefix)
qed

text \<open>
  The sender never writes the slot the receiver is reading: when one has a space and the other
  an item, their slot indices differ.
\<close>

theorem shm_no_slot_race:
  assumes "ring_step\<^sup>*\<^sup>* ring_init s" "sender_pc s = PGot msg" "receiver_pc s = CGot"
  shows "slot_index (head (ring s)) \<noteq> slot_index (tail (ring s))"
proof -
  from ring_inv_reach [OF assms(1)] assms(2,3)
  have "head (ring s) = of_nat (length (written s))" "tail (ring s) = of_nat (length (taken s))"
    "length (taken s) < length (written s)" "length (written s) < length (taken s) + 64"
    by (auto simp: ring_inv_def counts_ok_def pc_counts)
  with mod_window show ?thesis by (metis slot_index_of_nat)
qed

text \<open>
  Between operations a ring is a FIFO of at most 64 payloads: for any sequence of sends and
  receives on any consistent ring (at any value of the counters), what came out followed by what
  is left is what was there followed by what was accepted.
\<close>

theorem shm_run_fifo:
  assumes "chan_inv c" "fifo_run chan_put chan_get ops c = (acc, del, c')"
  shows "del @ chan_contents c' = chan_contents c @ acc \<and> length (chan_contents c') \<le> 64"
  using shm_fifo.run_conserves [OF assms] by (auto simp: chan_inv_def chan_contents_def)

section \<open>Concrete instances\<close>

lemma one_sent:
  "\<exists>c. chan_send (from_string ''hi'') chan_init = Some c \<and> ch_items c = 1 \<and> ch_spaces c = 63"
  by (simp add: chan_send_def chan_init_def from_string_def kSlotPayloadMax_def kSlotCount_def)

lemma shm_ring_fifo_witness:
  "\<exists>s m. ring_step\<^sup>*\<^sup>* ring_init s \<and> read_slot (ring s) = ResVal m \<and> view m = bytes_of_string ''hi''"
proof -
  obtain c where c: "chan_send (from_string ''hi'') chan_init = Some c" "ch_items c = 1"
    using one_sent by blast
  let ?v = "view (from_string ''hi'')" and ?q = "quiet_sys c [view (from_string ''hi'')] []"
  let ?s = "?q\<lparr>items := items ?q - 1, receiver_pc := CGot\<rparr>"
  have "ring_step ?q ?s" using c(2) by (intro acquire_item) (simp_all add: quiet_sys_def)
  moreover have "ring_step\<^sup>*\<^sup>* ring_init ?q"
    using chan_send_steps [OF c(1), of "[]" "[]"] by (simp add: quiet_init)
  ultimately have r: "ring_step\<^sup>*\<^sup>* ring_init ?s" by (rule rtranclp.rtrancl_into_rtrancl [rotated])
  from shm_ring_fifo [OF r] obtain m where "read_slot (ring ?s) = ResVal m" "prefix [view m] [?v]"
    by (auto simp: quiet_sys_def)
  with r show ?thesis by (auto simp: from_string_def)
qed

lemma shm_no_slot_race_witness:
  "\<exists>s. ring_step\<^sup>*\<^sup>* ring_init s \<and> sender_pc s = PGot (from_string ''yo'') \<and> receiver_pc s = CGot
     \<and> slot_index (head (ring s)) \<noteq> slot_index (tail (ring s))"
proof -
  obtain c where c: "chan_send (from_string ''hi'') chan_init = Some c" "ch_items c = 1" "ch_spaces c = 63"
    using one_sent by blast
  let ?q = "quiet_sys c [view (from_string ''hi'')] []"
  let ?s = "?q\<lparr>items := items ?q - 1, receiver_pc := CGot\<rparr>"
  let ?t = "?s\<lparr>spaces := spaces ?s - 1, sender_pc := PGot (from_string ''yo'')\<rparr>"
  have "ring_step\<^sup>*\<^sup>* ring_init ?q"
    using chan_send_steps [OF c(1), of "[]" "[]"] by (simp add: quiet_init)
  moreover have "ring_step ?q ?s" using c(2) by (intro acquire_item) (simp_all add: quiet_sys_def)
  moreover have "ring_step ?s ?t" using c(3)
    by (intro acquire_space) (simp_all add: quiet_sys_def from_string_def kSlotPayloadMax_def)
  ultimately have r: "ring_step\<^sup>*\<^sup>* ring_init ?t" by (meson rtranclp.rtrancl_into_rtrancl)
  have "sender_pc ?t = PGot (from_string ''yo'')" "receiver_pc ?t = CGot" by simp_all
  with shm_no_slot_race [OF r this] r show ?thesis by blast
qed

text \<open>A consistent ring whose counters are about to wrap.\<close>

lemma shm_run_fifo_witness:
  "\<exists>acc del c'. fifo_run chan_put chan_get [Enq [1], Enq [2, 3], Deq, Enq [4]]
      (chan_init\<lparr>ch_ring := zero_Ring\<lparr>head := - 2, tail := - 2\<rparr>\<rparr>) = (acc, del, c')
    \<and> del @ chan_contents c' = acc"
proof -
  let ?c = "chan_init\<lparr>ch_ring := zero_Ring\<lparr>head := - 2, tail := - 2\<rparr>\<rparr>"
  have inv: "chan_inv ?c"
    using chan_inv_init by (simp add: chan_inv_def chan_init_def slots_wf_def)
  obtain acc del c' where r: "fifo_run chan_put chan_get [Enq [1], Enq [2, 3], Deq, Enq [4]] ?c = (acc, del, c')"
    by (metis surj_pair)
  with shm_run_fifo [OF inv r] show ?thesis by (auto simp: chan_contents_def chan_init_def)
qed

end
