(* ===== verification/Duct_Wire.thy ===== *)
theory Duct_Wire
  imports Duct_Os Duct_Message Duct_Address
begin

text \<open>
  \<^verbatim>\<open>include/duct/wire.h\<close> and \<^verbatim>\<open>src/wire.cc\<close> (POSIX build): the 16-byte frame header in
  network byte order, and the loops that move whole frames over a stream socket. The byte
  order of the host is a parameter, so that the header layout can be shown not to depend on
  it. A loop that keeps being interrupted does not return, so the loops are partial functions
  into \<open>option\<close>; the stream contracts give their termination.
\<close>

section \<open>Integers in memory\<close>

datatype endian = Little | Big

definition le16 :: "u16 \<Rightarrow> byte_seq" where
  "le16 w = [ucast w, ucast (drop_bit 8 w)]"

definition le32 :: "u32 \<Rightarrow> byte_seq" where
  "le32 w = [ucast w, ucast (drop_bit 8 w), ucast (drop_bit 16 w), ucast (drop_bit 24 w)]"

definition word16_le :: "byte_seq \<Rightarrow> u16" where
  "word16_le bs = ucast (bs ! 0) OR push_bit 8 (ucast (bs ! 1))"

definition word32_le :: "byte_seq \<Rightarrow> u32" where
  "word32_le bs =
     ucast (bs ! 0) OR push_bit 8 (ucast (bs ! 1)) OR push_bit 16 (ucast (bs ! 2))
     OR push_bit 24 (ucast (bs ! 3))"

text \<open>The bytes of an integer object on the host, and the integer a byte image denotes.\<close>

fun host16 :: "endian \<Rightarrow> u16 \<Rightarrow> byte_seq" where
  "host16 Little w = le16 w"
| "host16 Big w = rev (le16 w)"

fun host32 :: "endian \<Rightarrow> u32 \<Rightarrow> byte_seq" where
  "host32 Little w = le32 w"
| "host32 Big w = rev (le32 w)"

fun load16 :: "endian \<Rightarrow> byte_seq \<Rightarrow> u16" where
  "load16 Little bs = word16_le bs"
| "load16 Big bs = word16_le (rev bs)"

fun load32 :: "endian \<Rightarrow> byte_seq \<Rightarrow> u32" where
  "load32 Little bs = word32_le bs"
| "load32 Big bs = word32_le (rev bs)"

text \<open>\<open>htons\<close>/\<open>htonl\<close>, which are their own inverses \<open>ntohs\<close>/\<open>ntohl\<close>.\<close>

fun htons :: "endian \<Rightarrow> u16 \<Rightarrow> u16" where
  "htons Little w = word16_le (rev (le16 w))"
| "htons Big w = w"

fun htonl :: "endian \<Rightarrow> u32 \<Rightarrow> u32" where
  "htonl Little w = word32_le (rev (le32 w))"
| "htonl Big w = w"

section \<open>The frame header\<close>

definition kHeaderLen :: nat where
  "kHeaderLen = 16"

definition kMaxFramePayload :: nat where
  "kMaxFramePayload = 64 * 1024"

record FrameHeader =
  magic :: u32
  version :: u16
  header_len :: u16
  payload_len :: u32
  flags :: u32

definition encode_header :: "endian \<Rightarrow> FrameHeader \<Rightarrow> byte_seq \<Rightarrow> byte_seq" where
  "encode_header e h out =
     (let out = memcpy_at out 0 (host32 e (htonl e (magic h)));
          out = memcpy_at out 4 (host16 e (htons e (version h)));
          out = memcpy_at out 6 (host16 e (htons e (header_len h)));
          out = memcpy_at out 8 (host32 e (htonl e (payload_len h)));
          out = memcpy_at out 12 (host32 e (htonl e (flags h)))
      in out)"

definition decode_header :: "endian \<Rightarrow> byte_seq \<Rightarrow> FrameHeader Result" where
  "decode_header e inp =
     (let h = \<lparr>magic = htonl e (load32 e (sub_array inp 0 4)),
               version = htons e (load16 e (sub_array inp 4 2)),
               header_len = htons e (load16 e (sub_array inp 6 2)),
               payload_len = htonl e (load32 e (sub_array inp 8 4)),
               flags = htonl e (load32 e (sub_array inp 12 4))\<rparr>
      in if magic h \<noteq> kProtocolMagic then ResErr (protocol_error ''bad magic'')
         else if version h \<noteq> kProtocolVersion then
           ResErr (protocol_error ''unsupported version'')
         else if unat (header_len h) \<noteq> kHeaderLen then
           ResErr (protocol_error ''bad header_len'')
         else if unat (payload_len h) > kMaxFramePayload then
           ResErr (protocol_error ''payload too large (frame)'')
         else ResVal h)"

section \<open>Moving frames over a stream socket\<close>

partial_function (option) write_all ::
  "'w sys_send \<Rightarrow> int \<Rightarrow> byte_seq \<Rightarrow> 'w \<Rightarrow> (Status \<times> 'w) option" where
  "write_all osend fd p w =
     (if p = [] then Some (Status_Ok, w)
      else case osend fd p w of (r, w') \<Rightarrow>
        (case r of
           SendFail e \<Rightarrow>
             if e = EINTR then write_all osend fd p w'
             else Some (io_error ''send() failed'', w')
         | SendOk k \<Rightarrow>
             if k = 0 then Some (closed_status ''peer closed'', w')
             else write_all osend fd (drop k p) w'))"

partial_function (option) read_exact ::
  "'w sys_recv \<Rightarrow> int \<Rightarrow> nat \<Rightarrow> byte_seq \<Rightarrow> 'w \<Rightarrow> (Status \<times> byte_seq \<times> 'w) option" where
  "read_exact orecv fd n buf w =
     (if n = 0 then Some (Status_Ok, buf, w)
      else case orecv fd n w of (r, w') \<Rightarrow>
        (case r of
           RecvFail e \<Rightarrow>
             if e = EINTR then read_exact orecv fd n buf w'
             else Some (io_error ''recv() failed'', buf, w')
         | RecvOk bs \<Rightarrow>
             if bs = [] then Some (closed_status ''peer closed'', buf, w')
             else read_exact orecv fd (n - length bs) (buf @ bs) w'))"

definition frame_header :: "Message \<Rightarrow> u32 \<Rightarrow> FrameHeader" where
  "frame_header msg fl =
     \<lparr>magic = kProtocolMagic, version = kProtocolVersion,
      header_len = of_nat kHeaderLen, payload_len = of_nat (msg_size msg), flags = fl\<rparr>"

definition write_frame ::
  "endian \<Rightarrow> 'w sys_send \<Rightarrow> int \<Rightarrow> Message \<Rightarrow> u32 \<Rightarrow> 'w \<Rightarrow> (Status \<times> 'w) option" where
  "write_frame e osend fd msg fl w =
     (if msg_size msg > kMaxFramePayload then
        Some (invalid_argument ''message too large; enable fragmentation (todo)'', w)
      else
        let hdr = encode_header e (frame_header msg fl) (replicate kHeaderLen 0)
        in case write_all osend fd hdr w of
             None \<Rightarrow> None
           | Some (st, w') \<Rightarrow>
               if \<not> status_ok st then Some (st, w')
               else write_all osend fd (view msg) w')"

definition read_frame ::
  "endian \<Rightarrow> 'w sys_recv \<Rightarrow> int \<Rightarrow> 'w \<Rightarrow> (Message Result \<times> 'w) option" where
  "read_frame e orecv fd w =
     (case read_exact orecv fd kHeaderLen [] w of
        None \<Rightarrow> None
      | Some (st, hdr, w') \<Rightarrow>
          if \<not> status_ok st then Some (ResErr st, w')
          else case decode_header e hdr of
            ResErr s \<Rightarrow> Some (ResErr s, w')
          | ResVal h \<Rightarrow>
              if payload_len h \<noteq> 0 then
                (case read_exact orecv fd (unat (payload_len h)) [] w' of
                   None \<Rightarrow> None
                 | Some (st, buf, w'') \<Rightarrow>
                     if \<not> status_ok st then Some (ResErr st, w'')
                     else Some (ResVal (from_bytes buf (length buf)), w''))
              else Some (ResVal (from_bytes [] 0), w'))"

section \<open>Byte order\<close>

lemma length_host [simp]:
  "length (le16 w) = 2" "length (le32 v) = 4" "length (host16 e w) = 2" "length (host32 e v) = 4"
  by (cases e; simp add: le16_def le32_def)+

lemma word16_le_le16 [simp]: "word16_le (le16 w) = w"
  by (rule bit_word_eqI) (auto simp: word16_le_def le16_def bit_simps)

lemma word32_le_le32 [simp]: "word32_le (le32 w) = w"
proof (rule bit_word_eqI)
  fix n :: nat
  assume "n < LENGTH(32)"
  then consider "n < 8" | "8 \<le> n" "n < 16" | "16 \<le> n" "n < 24" | "24 \<le> n" "n < 32"
    by force
  then show "bit (word32_le (le32 w)) n = bit w n"
    by cases (auto simp: word32_le_def le32_def bit_simps)
qed

lemma le16_word16_le:
  assumes "length bs = 2"
  shows "le16 (word16_le bs) = bs"
proof -
  obtain a b where "bs = [a, b]"
    using assms by (auto simp: length_Suc_conv numeral_eq_Suc)
  then show ?thesis
    by (auto simp: le16_def word16_le_def bit_simps intro!: bit_word_eqI)
qed

lemma le32_word32_le:
  assumes "length bs = 4"
  shows "le32 (word32_le bs) = bs"
proof -
  obtain a b c d where "bs = [a, b, c, d]"
    using assms by (auto simp: length_Suc_conv numeral_eq_Suc)
  then show ?thesis
    by (auto simp: le32_def word32_le_def bit_simps intro!: bit_word_eqI)
qed

lemma host_to_network [wire_simps]:
  "host32 e (htonl e v) = rev (le32 v)" "host16 e (htons e w) = rev (le16 w)"
  by (cases e; simp add: le32_word32_le le16_word16_le)+

lemma network_to_host [wire_simps]:
  "length bs = 4 \<Longrightarrow> htonl e (load32 e bs) = word32_le (rev bs)"
  "length cs = 2 \<Longrightarrow> htons e (load16 e cs) = word16_le (rev cs)"
  by (cases e; simp add: le32_word32_le le16_word16_le)+

text \<open>The layout of a header on the wire: five big-endian fields, 16 bytes.\<close>

definition net_header :: "FrameHeader \<Rightarrow> byte_seq" where
  "net_header h = rev (le32 (magic h)) @ rev (le16 (version h)) @ rev (le16 (header_len h))
     @ rev (le32 (payload_len h)) @ rev (le32 (flags h))"

lemma length_net_header [simp]: "length (net_header h) = 16"
  by (simp add: net_header_def)

lemma encode_header_net: "length out = 16 \<Longrightarrow> encode_header e h out = net_header h"
  by (simp add: encode_header_def net_header_def memcpy_at_def Let_def wire_simps)

definition header_of_net :: "byte_seq \<Rightarrow> FrameHeader" where
  "header_of_net bs =
     \<lparr>magic = word32_le (rev (sub_array bs 0 4)), version = word16_le (rev (sub_array bs 4 2)),
      header_len = word16_le (rev (sub_array bs 6 2)),
      payload_len = word32_le (rev (sub_array bs 8 4)),
      flags = word32_le (rev (sub_array bs 12 4))\<rparr>"

definition acceptable_header :: "FrameHeader \<Rightarrow> bool" where
  "acceptable_header h \<longleftrightarrow> magic h = kProtocolMagic \<and> version h = kProtocolVersion
     \<and> unat (header_len h) = kHeaderLen \<and> unat (payload_len h) \<le> kMaxFramePayload"

lemma decode_header_net:
  "length bs = 16 \<Longrightarrow> decode_header e bs =
     (let h = header_of_net bs
      in if magic h \<noteq> kProtocolMagic then ResErr (protocol_error ''bad magic'')
         else if version h \<noteq> kProtocolVersion then
           ResErr (protocol_error ''unsupported version'')
         else if unat (header_len h) \<noteq> kHeaderLen then
           ResErr (protocol_error ''bad header_len'')
         else if unat (payload_len h) > kMaxFramePayload then
           ResErr (protocol_error ''payload too large (frame)'')
         else ResVal h)"
  by (simp add: decode_header_def header_of_net_def wire_simps)

lemma header_of_net_header [simp]: "header_of_net (net_header h) = h"
  by (simp add: header_of_net_def net_header_def sub_array_def)

lemma net_header_of_net: "length bs = 16 \<Longrightarrow> net_header (header_of_net bs) = bs"
  using append_take_drop_id [of 4 "drop 8 bs"] append_take_drop_id [of 2 "drop 6 bs"]
    append_take_drop_id [of 2 "drop 4 bs"]
  by (simp add: header_of_net_def net_header_def le32_word32_le le16_word16_le sub_array_def)

lemma decode_header_iff:
  "length bs = 16 \<Longrightarrow>
   decode_header e bs = ResVal h \<longleftrightarrow> acceptable_header h \<and> bs = net_header h"
  by (auto simp: decode_header_net Let_def acceptable_header_def net_header_of_net
      split: if_splits)

section \<open>The transfer loops against the stream contracts\<close>

definition frame_bytes :: "Message \<Rightarrow> u32 \<Rightarrow> byte_seq" where
  "frame_bytes msg fl = net_header (frame_header msg fl) @ view msg"

lemma acceptable_frame_header:
  "msg_size msg \<le> kMaxFramePayload \<Longrightarrow> acceptable_header (frame_header msg fl)"
  by (simp add: acceptable_header_def frame_header_def kMaxFramePayload_def kHeaderLen_def
      unat_of_nat_small)

lemma unat_payload_len_frame_header [simp]:
  "msg_size msg \<le> kMaxFramePayload \<Longrightarrow>
   unat (payload_len (frame_header msg fl)) = msg_size msg"
  by (simp add: frame_header_def kMaxFramePayload_def unat_of_nat_small)

context stream_send
begin

lemma write_all_returns:
  "\<exists>st w' k. write_all osend fd p w = Some (st, w') \<and> k \<le> length p
     \<and> sent fd w' = sent fd w @ take k p \<and> (status_ok st \<longleftrightarrow> k = length p)
     \<and> (\<not> status_ok st \<longrightarrow> code st = kIoError \<or> code st = kClosed)"
proof (induction "(p, w)" arbitrary: p w
    rule: wf_induct_rule [OF wf_measures [of "[\<lambda>(p, w). length p, \<lambda>(p, w). signals w]"]])
  case (1 p w)
  show ?case
  proof (cases "p = []")
    case True
    then show ?thesis by (simp add: write_all.simps)
  next
    case p: False
    obtain r w1 where call: "osend fd p w = (r, w1)" by force
    show ?thesis
    proof (cases r)
      case (SendFail e)
      then have same: "sent fd w1 = sent fd w" using call send_fails by simp
      show ?thesis
      proof (cases "e = EINTR")
        case True
        then have "((p, w1), (p, w)) \<in> measures [\<lambda>(p, w). length p, \<lambda>(p, w). signals w]"
          using SendFail call send_intr by auto
        from 1 [OF this] p call SendFail True same show ?thesis
          by (simp add: write_all.simps [of _ _ p w])
      next
        case False
        with p call SendFail same show ?thesis
          by (intro exI [of _ "io_error ''send() failed''"] exI [of _ w1] exI [of _ 0])
            (simp add: write_all.simps [of _ _ p w])
      qed
    next
      case (SendOk k)
      note acc = send_accepts [OF call [unfolded SendOk]]
      show ?thesis
      proof (cases "k = 0")
        case True
        with p call SendOk acc show ?thesis
          by (intro exI [of _ "closed_status ''peer closed''"] exI [of _ w1] exI [of _ 0])
            (simp add: write_all.simps [of _ _ p w])
      next
        case False
        then have "((drop k p, w1), (p, w)) \<in> measures [\<lambda>(p, w). length p, \<lambda>(p, w). signals w]"
          using p by simp
        from 1 [OF this] obtain st w' j where
          "write_all osend fd (drop k p) w1 = Some (st, w')" and "j \<le> length (drop k p)"
          and "sent fd w' = sent fd w1 @ take j (drop k p)"
          and "status_ok st \<longleftrightarrow> j = length (drop k p)"
          and "\<not> status_ok st \<longrightarrow> code st = kIoError \<or> code st = kClosed"
          by blast
        with False p call SendOk acc show ?thesis
          by (intro exI [of _ st] exI [of _ w'] exI [of _ "k + j"])
            (auto simp: write_all.simps [of _ _ p w] take_add)
      qed
    qed
  qed
qed

lemma write_frame_returns:
  assumes "wf_Message msg" and "msg_size msg \<le> kMaxFramePayload"
  shows "\<exists>st w' k. write_frame e osend fd msg fl w = Some (st, w') \<and> k \<le> length (frame_bytes msg fl)
     \<and> sent fd w' = sent fd w @ take k (frame_bytes msg fl)
     \<and> (status_ok st \<longleftrightarrow> k = length (frame_bytes msg fl))
     \<and> (\<not> status_ok st \<longrightarrow> code st = kIoError \<or> code st = kClosed)"
proof -
  let ?hdr = "net_header (frame_header msg fl)"
  obtain st w' k where h: "write_all osend fd ?hdr w = Some (st, w')" "k \<le> 16"
    "sent fd w' = sent fd w @ take k ?hdr" "status_ok st \<longleftrightarrow> k = 16"
    "\<not> status_ok st \<longrightarrow> code st = kIoError \<or> code st = kClosed"
    using write_all_returns [of fd ?hdr w] by auto
  have wf: "write_frame e osend fd msg fl w =
      (if \<not> status_ok st then Some (st, w') else write_all osend fd (view msg) w')"
    using assms h by (simp add: write_frame_def encode_header_net kHeaderLen_def)
  show ?thesis
  proof (cases "status_ok st")
    case True
    obtain st2 w2 j where "write_all osend fd (view msg) w' = Some (st2, w2)"
      "j \<le> length (view msg)" "sent fd w2 = sent fd w' @ take j (view msg)"
      "status_ok st2 \<longleftrightarrow> j = length (view msg)"
      "\<not> status_ok st2 \<longrightarrow> code st2 = kIoError \<or> code st2 = kClosed"
      using write_all_returns [of fd "view msg" w'] by auto
    with True h wf show ?thesis
      by (intro exI [of _ st2] exI [of _ w2] exI [of _ "16 + j"]) (auto simp: frame_bytes_def)
  next
    case False
    with h wf show ?thesis
      by (intro exI [of _ st] exI [of _ w'] exI [of _ k]) (auto simp: frame_bytes_def)
  qed
qed

end

context stream_recv
begin

lemma read_exact_returns:
  "\<exists>st bs w'. read_exact orecv fd n buf w = Some (st, buf @ bs, w')
     \<and> pending fd w = bs @ pending fd w' \<and> length bs \<le> n \<and> (status_ok st \<longleftrightarrow> length bs = n)
     \<and> (\<not> status_ok st \<longrightarrow> st = io_error ''recv() failed''
          \<or> st = closed_status ''peer closed'' \<and> pending fd w' = [])"
proof (induction "(n, w)" arbitrary: n buf w
    rule: wf_induct_rule [OF wf_measures [of "[\<lambda>(n, w). n, \<lambda>(n, w). signals w]"]])
  case (1 n w buf)
  show ?case
  proof (cases "n = 0")
    case True
    then show ?thesis by (simp add: read_exact.simps)
  next
    case n: False
    obtain r w1 where call: "orecv fd n w = (r, w1)" by force
    show ?thesis
    proof (cases r)
      case (RecvFail e)
      then have same: "pending fd w1 = pending fd w" using call recv_fails by simp
      show ?thesis
      proof (cases "e = EINTR")
        case True
        then have "((n, w1), (n, w)) \<in> measures [\<lambda>(n, w). n, \<lambda>(n, w). signals w]"
          using RecvFail call recv_intr by auto
        from 1 [OF this, of buf] n call RecvFail True same show ?thesis
          by (simp add: read_exact.simps [of _ _ n buf w])
      next
        case False
        with n call RecvFail same show ?thesis
          by (simp add: read_exact.simps [of _ _ n buf w])
      qed
    next
      case (RecvOk cs)
      note got = recv_takes [OF call [unfolded RecvOk]]
      show ?thesis
      proof (cases "cs = []")
        case True
        with n call RecvOk got recv_eof [of fd n w w1] show ?thesis
          by (simp add: read_exact.simps [of _ _ n buf w])
      next
        case False
        then have "((n - length cs, w1), (n, w)) \<in> measures [\<lambda>(n, w). n, \<lambda>(n, w). signals w]"
          using n by simp
        from 1 [OF this, of "buf @ cs"] obtain st bs w' where
          "read_exact orecv fd (n - length cs) (buf @ cs) w1 = Some (st, (buf @ cs) @ bs, w')"
          "pending fd w1 = bs @ pending fd w'" "length bs \<le> n - length cs"
          "status_ok st \<longleftrightarrow> length bs = n - length cs"
          "\<not> status_ok st \<longrightarrow> st = io_error ''recv() failed''
             \<or> st = closed_status ''peer closed'' \<and> pending fd w' = []"
          by blast
        with False n call RecvOk got show ?thesis
          by (intro exI [of _ st] exI [of _ "cs @ bs"] exI [of _ w'])
            (auto simp: read_exact.simps [of _ _ n buf w])
      qed
    qed
  qed
qed

lemma read_exact_prefix:
  assumes "pending fd w = xs @ rest" and "length xs = n"
  shows "\<exists>st buf w'. read_exact orecv fd n [] w = Some (st, buf, w')
     \<and> (status_ok st \<longrightarrow> buf = xs \<and> pending fd w' = rest)
     \<and> (\<not> status_ok st \<longrightarrow> st = io_error ''recv() failed'')"
proof -
  obtain st bs w' where r: "read_exact orecv fd n [] w = Some (st, bs, w')"
    "pending fd w = bs @ pending fd w'" "length bs \<le> n" "status_ok st \<longleftrightarrow> length bs = n"
    "\<not> status_ok st \<longrightarrow> st = io_error ''recv() failed''
       \<or> st = closed_status ''peer closed'' \<and> pending fd w' = []"
    using read_exact_returns [of fd n "[]" w] by auto
  from r(2) assms(1) have eq: "xs @ rest = bs @ pending fd w'" by simp
  have "status_ok st \<longrightarrow> bs = xs \<and> pending fd w' = rest"
    using append_eq_append_conv [of xs bs rest "pending fd w'"] eq r(4) assms(2) by metis
  moreover have "\<not> (\<not> status_ok st \<and> pending fd w' = [])"
    using arg_cong [OF eq, of length] r(3,4) assms(2) by auto
  ultimately show ?thesis using r(1,5) by auto
qed

lemma read_frame_frame:
  assumes wf: "wf_Message msg" and sz: "msg_size msg \<le> kMaxFramePayload"
    and stream: "pending fd w = frame_bytes msg fl @ rest"
  shows "\<exists>r w'. read_frame e orecv fd w = Some (r, w')
     \<and> (case r of ResVal m \<Rightarrow> wf_Message m \<and> view m = view msg \<and> pending fd w' = rest
         | ResErr s \<Rightarrow> s = io_error ''recv() failed'')"
proof -
  let ?h = "frame_header msg fl"
  have "pending fd w = net_header ?h @ (view msg @ rest)"
    using stream by (simp add: frame_bytes_def)
  then obtain st buf w' where h: "read_exact orecv fd 16 [] w = Some (st, buf, w')"
    "status_ok st \<longrightarrow> buf = net_header ?h \<and> pending fd w' = view msg @ rest"
    "\<not> status_ok st \<longrightarrow> st = io_error ''recv() failed''"
    using read_exact_prefix [of fd w "net_header ?h" _ 16] by force
  have dec: "decode_header e (net_header ?h) = ResVal ?h"
    using sz by (simp add: decode_header_iff acceptable_frame_header)
  have zero: "payload_len ?h = 0 \<longleftrightarrow> msg_size msg = 0"
    using sz by (metis unat_eq_zero unat_payload_len_frame_header)
  show ?thesis
  proof (cases "status_ok st")
    case False
    with h show ?thesis by (simp add: read_frame_def kHeaderLen_def)
  next
    case ok: True
    obtain st2 buf2 w2 where p: "read_exact orecv fd (msg_size msg) [] w' = Some (st2, buf2, w2)"
      "status_ok st2 \<longrightarrow> buf2 = view msg \<and> pending fd w2 = rest"
      "\<not> status_ok st2 \<longrightarrow> st2 = io_error ''recv() failed''"
      using read_exact_prefix [of fd w' "view msg" rest "msg_size msg"] ok h wf by auto
    have "view msg = []" if "msg_size msg = 0"
      using that wf by (metis length_0_conv length_view)
    with ok h p dec zero sz show ?thesis
      by (cases "status_ok st2") (auto simp: read_frame_def kHeaderLen_def)
  qed
qed

end

section \<open>What the transfers leave alone\<close>

text \<open>Whatever no \<open>send\<close> (no \<open>recv\<close>) changes, the loops built from it do not change either.\<close>

definition send_keeps :: "'w sys_send \<Rightarrow> ('w \<Rightarrow> 'x) \<Rightarrow> bool" where
  "send_keeps osend f \<longleftrightarrow> (\<forall>fd p w. f (snd (osend fd p w)) = f w)"

definition recv_keeps :: "'w sys_recv \<Rightarrow> ('w \<Rightarrow> 'x) \<Rightarrow> bool" where
  "recv_keeps orecv f \<longleftrightarrow> (\<forall>fd n w. f (snd (orecv fd n w)) = f w)"

lemma send_keepsD: "send_keeps osend f \<Longrightarrow> osend fd p w = (r, w') \<Longrightarrow> f w' = f w"
  by (metis send_keeps_def snd_conv)

lemma recv_keepsD: "recv_keeps orecv f \<Longrightarrow> orecv fd n w = (r, w') \<Longrightarrow> f w' = f w"
  by (metis recv_keeps_def snd_conv)

lemma write_all_keeps:
  assumes "write_all osend fd p w = Some r"
  shows "send_keeps osend f \<longrightarrow> f (snd r) = f w"
proof (rule write_all.raw_induct [where P = "\<lambda>os fd p w r. send_keeps os f \<longrightarrow> f (snd r) = f w", OF _ assms])
  fix wr os fd p w r
  assume IH: "\<And>os fd p w r. wr os fd p w = Some r \<Longrightarrow> send_keeps os f \<longrightarrow> f (snd r) = f w"
    and call: "(if p = [] then Some (Status_Ok, w) else case os fd p w of (r, w') \<Rightarrow>
      (case r of SendFail e \<Rightarrow> if e = EINTR then wr os fd p w' else Some (io_error ''send() failed'', w')
       | SendOk k \<Rightarrow> if k = 0 then Some (closed_status ''peer closed'', w') else wr os fd (drop k p) w')) = Some r"
  obtain x w1 where x: "os fd p w = (x, w1)" by force
  show "send_keeps os f \<longrightarrow> f (snd r) = f w"
    using call x send_keepsD [of os f fd p w x w1] IH [of os fd p w1] IH [of os fd _ w1]
    by (cases x) (auto split: if_splits)
qed

lemma read_exact_keeps:
  assumes "read_exact orecv fd n buf w = Some r"
  shows "recv_keeps orecv f \<longrightarrow> f (snd (snd r)) = f w"
proof (rule read_exact.raw_induct
    [where P = "\<lambda>os fd n buf w r. recv_keeps os f \<longrightarrow> f (snd (snd r)) = f w", OF _ assms])
  fix rd os fd n buf w r
  assume IH: "\<And>os fd n buf w r. rd os fd n buf w = Some r \<Longrightarrow> recv_keeps os f \<longrightarrow> f (snd (snd r)) = f w"
    and call: "(if n = 0 then Some (Status_Ok, buf, w) else case os fd n w of (r, w') \<Rightarrow>
      (case r of RecvFail e \<Rightarrow> if e = EINTR then rd os fd n buf w' else Some (io_error ''recv() failed'', buf, w')
       | RecvOk bs \<Rightarrow> if bs = [] then Some (closed_status ''peer closed'', buf, w')
                       else rd os fd (n - length bs) (buf @ bs) w')) = Some r"
  obtain x w1 where x: "os fd n w = (x, w1)" by force
  show "recv_keeps os f \<longrightarrow> f (snd (snd r)) = f w"
    using call x recv_keepsD [of os f fd n w x w1] IH [of os fd _ _ w1]
    by (cases x) (auto split: if_splits)
qed

lemma write_frame_keeps:
  "send_keeps osend f \<Longrightarrow> write_frame e osend fd msg fl w = Some (st, w') \<Longrightarrow> f w' = f w"
  by (auto simp: write_frame_def Let_def split: if_splits option.splits
      dest!: write_all_keeps [where f = f])

lemma read_frame_keeps:
  "recv_keeps orecv f \<Longrightarrow> read_frame e orecv fd w = Some (r, w') \<Longrightarrow> f w' = f w"
  by (auto simp: read_frame_def split: if_splits option.splits Result.splits
      dest!: read_exact_keeps [where f = f])

context stream_send
begin

lemma write_frame_some: "\<exists>st w'. write_frame e osend fd msg fl w = Some (st, w')"
proof (cases "msg_size msg > kMaxFramePayload")
  case False
  let ?hdr = "encode_header e (frame_header msg fl) (replicate kHeaderLen 0)"
  obtain st w1 where "write_all osend fd ?hdr w = Some (st, w1)"
    using write_all_returns [of fd ?hdr w] by blast
  moreover obtain st' w2 where "write_all osend fd (view msg) w1 = Some (st', w2)"
    using write_all_returns [of fd "view msg" w1] by blast
  ultimately show ?thesis using False by (simp add: write_frame_def)
qed (simp add: write_frame_def)

end

context stream_recv
begin

lemma read_frame_end:
  assumes "pending fd w = []"
  shows "\<exists>s w'. read_frame e orecv fd w = Some (ResErr s, w') \<and> (code s = kClosed \<or> code s = kIoError)"
proof -
  have pos: "kHeaderLen \<noteq> 0" by (simp add: kHeaderLen_def)
  obtain st bs w' where r: "read_exact orecv fd kHeaderLen [] w = Some (st, bs, w')"
    "pending fd w = bs @ pending fd w'" "status_ok st \<longleftrightarrow> length bs = kHeaderLen"
    "\<not> status_ok st \<longrightarrow> st = io_error ''recv() failed'' \<or> st = closed_status ''peer closed'' \<and> pending fd w' = []"
    using read_exact_returns [of fd kHeaderLen "[]" w] by auto
  then have "\<not> status_ok st" using assms pos by simp
  with r show ?thesis by (auto simp: read_frame_def)
qed

end

section \<open>Properties of the wire format\<close>

text \<open>a header encoded on one host and decoded on another, whatever the byte order of
  either, is the same header, and the bytes on the wire are the big-endian fields.\<close>

theorem header_roundtrip:
  assumes "length out = kHeaderLen" and "magic h = kProtocolMagic"
    and "version h = kProtocolVersion" and "unat (header_len h) = kHeaderLen"
    and "unat (payload_len h) \<le> kMaxFramePayload"
  shows "decode_header e' (encode_header e h out) = ResVal h
    \<and> encode_header e h out = net_header h"
  using assms by (simp add: encode_header_net kHeaderLen_def decode_header_iff acceptable_header_def)

theorem header_roundtrip_witness:
  "decode_header Big (encode_header Little
     \<lparr>magic = kProtocolMagic, version = kProtocolVersion, header_len = 16, payload_len = 5,
      flags = 0\<rparr> (replicate 16 0)) =
   ResVal \<lparr>magic = kProtocolMagic, version = kProtocolVersion, header_len = 16,
     payload_len = 5, flags = 0\<rparr>"
  by (rule header_roundtrip [THEN conjunct1]) (simp_all add: kHeaderLen_def kMaxFramePayload_def)

text \<open>C5: the decoder accepts exactly the encodings of acceptable headers (right magic,
  version and header length, payload at most 64 KiB); every rejection is a protocol error.\<close>

theorem decode_header_exact:
  assumes "length bs = kHeaderLen"
  shows "(decode_header e bs = ResVal h \<longleftrightarrow> acceptable_header h \<and> (\<forall>out. length out = kHeaderLen \<longrightarrow> encode_header e h out = bs))
    \<and> (\<forall>s. decode_header e bs = ResErr s \<longrightarrow> code s = kProtocolError)"
proof -
  have "(\<forall>out. length out = kHeaderLen \<longrightarrow> encode_header e h out = bs) \<longleftrightarrow> net_header h = bs"
    by (metis encode_header_net kHeaderLen_def length_replicate)
  then show ?thesis
    using assms
    by (auto simp: kHeaderLen_def decode_header_iff)
      (auto simp: decode_header_net Let_def split: if_splits)
qed

theorem decode_header_exact_witness:
  "\<exists>s. decode_header Little (replicate 16 0) = ResErr s \<and> code s = kProtocolError"
proof -
  have "decode_header Little (replicate 16 0) = ResErr (protocol_error ''bad magic'')"
    by code_simp
  with decode_header_exact [of "replicate 16 0" Little] show ?thesis
    by (simp only: kHeaderLen_def length_replicate) blast
qed

text \<open>C4: sending a frame over any stream socket returns; on success exactly the header and
  the payload were appended to the stream, on failure a proper prefix of them and the status is
  an I/O error or closed. An oversized message is refused and nothing is sent.\<close>

theorem write_frame_stream:
  assumes "stream_send osend sent signals" and "wf_Message msg"
  shows "if msg_size msg \<le> kMaxFramePayload then
      \<exists>st w' k. write_frame e osend fd msg fl w = Some (st, w')
        \<and> sent fd w' = sent fd w @ take k (net_header (frame_header msg fl) @ view msg)
        \<and> k \<le> kHeaderLen + msg_size msg
        \<and> (status_ok st \<longleftrightarrow> k = kHeaderLen + msg_size msg)
        \<and> (\<not> status_ok st \<longrightarrow> code st = kIoError \<or> code st = kClosed)
    else \<exists>s. write_frame e osend fd msg fl w = Some (s, w) \<and> code s = kInvalidArgument"
proof (cases "msg_size msg \<le> kMaxFramePayload")
  case True
  with stream_send.write_frame_returns [OF assms(1,2) True, of e fd fl w] assms(2) show ?thesis
    by (auto simp: frame_bytes_def kHeaderLen_def)
next
  case False
  then show ?thesis by (simp add: write_frame_def)
qed

theorem write_frame_stream_witness:
  "\<exists>st w' k. write_frame Little script_send 3 (from_string ''hello'') 0
      \<lparr>outgoing = [], incoming = [], script = [Fault EINTR, Chunk 2]\<rparr> = Some (st, w')
    \<and> outgoing w' = take k (net_header (frame_header (from_string ''hello'') 0)
        @ view (from_string ''hello'')) \<and> (status_ok st \<longleftrightarrow> k = 21)"
proof -
  have sz: "msg_size (from_string ''hello'') = 5" by (simp add: from_string_def)
  then have le: "msg_size (from_string ''hello'') \<le> kMaxFramePayload"
    by (simp add: kMaxFramePayload_def)
  let ?w = "\<lparr>outgoing = [], incoming = [], script = [Fault EINTR, Chunk 2]\<rparr>"
  note inst = write_frame_stream [OF script_out.stream_send_axioms wf_from_string,
      of "''hello''" Little 3 0 ?w, THEN if_P [OF le, THEN iffD1]]
  then show ?thesis unfolding sz kHeaderLen_def by fastforce
qed



end
