(* ===== verification/Duct_Sockets.thy ===== *)
theory Duct_Sockets
  imports Duct_Os Duct_Options
begin

text \<open>
  The socket system calls as an interface, and \<^verbatim>\<open>src/socket_utils.cc\<close> (POSIX build) on top of
  it. The calls are fields of a record of functions on an opaque world. What is documented of
  them with regard to the table of open descriptors is stated as a locale; the transports use
  it to show that no path leaks or double-closes a descriptor.
\<close>

section \<open>System calls\<close>

datatype sock_kind = UnixStream | Resolved int int int

record addrinfo =
  ai_kind :: sock_kind
  ai_addr :: string

datatype poll_event = POLLIN | POLLOUT

record poll_revents =
  pollhup :: bool
  pollerr :: bool
  pollnval :: bool

text \<open>
  Return values as in POSIX: a descriptor or \<open>-1\<close>; \<open>0\<close> or \<open>-1\<close>; \<open>connect\<close> with the \<open>errno\<close> of a
  failure; \<open>poll\<close> with its count and the returned events. \<open>getsockname\<close> yields the port of an IPv4 or
  IPv6 name in host order (\<open>None\<close> on failure or for another family).
\<close>

record 'w sock_sys =
  sys_socket :: "sock_kind \<Rightarrow> 'w \<Rightarrow> int \<times> 'w"
  sys_bind :: "int \<Rightarrow> string \<Rightarrow> 'w \<Rightarrow> int \<times> 'w"
  sys_listen :: "int \<Rightarrow> int \<Rightarrow> 'w \<Rightarrow> int \<times> 'w"
  sys_connect :: "int \<Rightarrow> string \<Rightarrow> 'w \<Rightarrow> errno option \<times> 'w"
  sys_accept :: "int \<Rightarrow> 'w \<Rightarrow> int \<times> 'w"
  sys_close :: "int \<Rightarrow> 'w \<Rightarrow> int \<times> 'w"
  sys_unlink :: "string \<Rightarrow> 'w \<Rightarrow> int \<times> 'w"
  sys_setsockopt :: "int \<Rightarrow> string \<Rightarrow> 'w \<Rightarrow> int \<times> 'w"
  sys_so_error :: "int \<Rightarrow> 'w \<Rightarrow> int option \<times> 'w"
  sys_getaddrinfo :: "string option \<Rightarrow> string \<Rightarrow> bool \<Rightarrow> 'w \<Rightarrow> addrinfo list option \<times> 'w"
  sys_getsockname :: "int \<Rightarrow> 'w \<Rightarrow> u16 option \<times> 'w"
  sys_poll :: "int \<Rightarrow> poll_event \<Rightarrow> int \<Rightarrow> 'w \<Rightarrow> (int \<times> poll_revents) \<times> 'w"
  sys_getfl :: "int \<Rightarrow> 'w \<Rightarrow> int \<times> 'w"
  sys_setfl :: "int \<Rightarrow> int \<Rightarrow> 'w \<Rightarrow> int \<times> 'w"
  sys_errno_text :: "'w \<Rightarrow> string"

section \<open>The descriptor table\<close>

text \<open>
  \<open>socket\<close> and \<open>accept\<close> return a descriptor that was not open, or a negative value and nothing
  changed; \<open>close\<close> removes its argument; the other calls do not touch the table.
\<close>

definition new_fd :: "('w \<Rightarrow> int set) \<Rightarrow> int \<times> 'w \<Rightarrow> 'w \<Rightarrow> bool" where
  "new_fd open_fds r w \<longleftrightarrow>
     (if fst r \<ge> 0 then fst r \<notin> open_fds w \<and> open_fds (snd r) = insert (fst r) (open_fds w)
      else fst r = -1 \<and> open_fds (snd r) = open_fds w)"

locale descriptors =
  fixes sys :: "'w sock_sys"
    and open_fds :: "'w \<Rightarrow> int set"
  assumes socket_fd: "new_fd open_fds (sys_socket sys k w) w"
    and accept_fd: "new_fd open_fds (sys_accept sys fd w) w"
    and close_fd: "open_fds (snd (sys_close sys fd w)) = open_fds w - {fd}"
    and bind_fds: "open_fds (snd (sys_bind sys fd a w)) = open_fds w"
    and listen_fds: "open_fds (snd (sys_listen sys fd b w)) = open_fds w"
    and connect_fds: "open_fds (snd (sys_connect sys fd a w)) = open_fds w"
    and unlink_fds: "open_fds (snd (sys_unlink sys p w)) = open_fds w"
    and setsockopt_fds: "open_fds (snd (sys_setsockopt sys fd n w)) = open_fds w"
    and so_error_fds: "open_fds (snd (sys_so_error sys fd w)) = open_fds w"
    and getaddrinfo_fds: "open_fds (snd (sys_getaddrinfo sys h p f w)) = open_fds w"
    and getsockname_fds: "open_fds (snd (sys_getsockname sys fd w)) = open_fds w"
    and poll_fds: "open_fds (snd (sys_poll sys fd e t w)) = open_fds w"
    and getfl_fds: "open_fds (snd (sys_getfl sys fd w)) = open_fds w"
    and setfl_fds: "open_fds (snd (sys_setfl sys fd fl w)) = open_fds w"

text \<open>
  What a function that opens a descriptor promises: on success the result is a new open
  descriptor, on failure the table is as before.
\<close>

definition opens_one :: "('w \<Rightarrow> int set) \<Rightarrow> 'w \<Rightarrow> int Result \<times> 'w \<Rightarrow> bool" where
  "opens_one open_fds w r \<longleftrightarrow>
     (case fst r of
        ResVal fd \<Rightarrow> 0 \<le> fd \<and> fd \<notin> open_fds w \<and> open_fds (snd r) = insert fd (open_fds w)
      | ResErr s \<Rightarrow> \<not> status_ok s \<and> open_fds (snd r) = open_fds w)"

section \<open>\<^verbatim>\<open>socket_utils\<close>\<close>

definition kInvalidSocket :: int where
  "kInvalidSocket = -1"

definition ensure_networking :: Status where
  "ensure_networking = Status_Ok"

text \<open>\<open>static_cast<int>\<close> of a 64-bit count keeps the low 32 bits, read as a signed number.\<close>

definition int_cast32 :: "int \<Rightarrow> int" where
  "int_cast32 n = (n + 2 ^ 31) mod 2 ^ 32 - 2 ^ 31"

definition poll_wait ::
  "string \<Rightarrow> poll_event \<Rightarrow> 'w sock_sys \<Rightarrow> int \<Rightarrow> millis \<Rightarrow> 'w \<Rightarrow> Status \<times> 'w" where
  "poll_wait what ev sys fd timeout w =
     (if timeout = 0 then (Status_Ok, w)
      else case sys_poll sys fd ev (int_cast32 timeout) w of
        ((rc, revents), w') \<Rightarrow>
          (if rc < 0 then io_error ''poll() failed''
           else if rc = 0 then timeout_status (what @ '' timed out'')
           else if pollhup revents then closed_status ''peer closed''
           else if pollerr revents \<or> pollnval revents then io_error ''poll() reported error on fd''
           else Status_Ok,
           w'))"

definition wait_readable :: "'w sock_sys \<Rightarrow> int \<Rightarrow> millis \<Rightarrow> 'w \<Rightarrow> Status \<times> 'w" where
  "wait_readable = poll_wait ''read'' POLLIN"

definition wait_writable :: "'w sock_sys \<Rightarrow> int \<Rightarrow> millis \<Rightarrow> 'w \<Rightarrow> Status \<times> 'w" where
  "wait_writable = poll_wait ''write'' POLLOUT"

text \<open>\<open>O_NONBLOCK\<close> is bit 11 of the file status flags (Linux).\<close>

definition O_NONBLOCK :: int where
  "O_NONBLOCK = 2048"

definition set_nonblocking :: "'w sock_sys \<Rightarrow> int \<Rightarrow> bool \<Rightarrow> 'w \<Rightarrow> Status \<times> 'w" where
  "set_nonblocking sys fd nonblock w =
     (case sys_getfl sys fd w of (flags, w1) \<Rightarrow>
        if flags < 0 then (io_error ''fcntl(F_GETFL) failed'', w1)
        else
          let flags = (if nonblock then flags OR O_NONBLOCK else flags AND NOT O_NONBLOCK)
          in case sys_setfl sys fd flags w1 of (rc, w2) \<Rightarrow>
               (if rc < 0 then io_error ''fcntl(F_SETFL) failed'' else Status_Ok, w2))"

definition close_socket :: "'w sock_sys \<Rightarrow> int \<Rightarrow> 'w \<Rightarrow> Status \<times> 'w" where
  "close_socket sys fd w =
     (if fd < 0 then (Status_Ok, w)
      else case sys_close sys fd w of (rc, w') \<Rightarrow>
        (if rc \<noteq> 0 then io_error ''close() failed'' else Status_Ok, w'))"

context descriptors
begin

lemma opened:
  "sys_socket sys k w = (fd, w') \<Longrightarrow>
     (if 0 \<le> fd then fd \<notin> open_fds w \<and> open_fds w' = insert fd (open_fds w)
      else fd = -1 \<and> open_fds w' = open_fds w)"
  "sys_accept sys l w = (fd, w') \<Longrightarrow>
     (if 0 \<le> fd then fd \<notin> open_fds w \<and> open_fds w' = insert fd (open_fds w)
      else fd = -1 \<and> open_fds w' = open_fds w)"
  using socket_fd [of k w] accept_fd [of l w] by (auto simp: new_fd_def split: if_splits)

lemma closed_fds: "sys_close sys fd w = (rc, w') \<Longrightarrow> open_fds w' = open_fds w - {fd}"
  using close_fd [of fd w] by simp

lemma unchanged:
  "sys_bind sys fd a w = (rc, w') \<Longrightarrow> open_fds w' = open_fds w"
  "sys_listen sys fd b w = (rc, w') \<Longrightarrow> open_fds w' = open_fds w"
  "sys_connect sys fd a w = (e, w') \<Longrightarrow> open_fds w' = open_fds w"
  "sys_unlink sys p w = (rc, w') \<Longrightarrow> open_fds w' = open_fds w"
  "sys_setsockopt sys fd n w = (rc, w') \<Longrightarrow> open_fds w' = open_fds w"
  "sys_so_error sys fd w = (err, w') \<Longrightarrow> open_fds w' = open_fds w"
  "sys_getaddrinfo sys h p f w = (res, w') \<Longrightarrow> open_fds w' = open_fds w"
  "sys_getsockname sys fd w = (prt, w') \<Longrightarrow> open_fds w' = open_fds w"
  "sys_poll sys fd ev t w = (pr, w') \<Longrightarrow> open_fds w' = open_fds w"
  "sys_getfl sys fd w = (rc, w') \<Longrightarrow> open_fds w' = open_fds w"
  "sys_setfl sys fd fl w = (rc, w') \<Longrightarrow> open_fds w' = open_fds w"
  using bind_fds [of fd a w] listen_fds [of fd b w] connect_fds [of fd a w] unlink_fds [of p w]
    setsockopt_fds [of fd n w] so_error_fds [of fd w] getaddrinfo_fds [of h p f w]
    getsockname_fds [of fd w] poll_fds [of fd ev t w] getfl_fds [of fd w] setfl_fds [of fd fl w]
  by simp_all

lemma set_nonblocking_fds: "set_nonblocking sys fd b w = (st, w') \<Longrightarrow> open_fds w' = open_fds w"
  by (auto simp: set_nonblocking_def Let_def split: prod.splits if_splits dest!: unchanged)

lemma poll_wait_fds: "poll_wait what ev sys fd t w = (st, w') \<Longrightarrow> open_fds w' = open_fds w"
  by (auto simp: poll_wait_def split: prod.splits if_splits dest!: unchanged)

lemma wait_fds:
  "wait_readable sys fd t w = (st, w') \<Longrightarrow> open_fds w' = open_fds w"
  "wait_writable sys fd t w = (st, w') \<Longrightarrow> open_fds w' = open_fds w"
  by (simp_all add: wait_readable_def wait_writable_def poll_wait_fds)

end

section \<open>A scripted system\<close>

text \<open>
  A system whose answers are given in advance: a counter of descriptors, the open ones, and a
  list of outcomes consumed one per call (\<open>True\<close>: the call succeeds). Without an outcome left,
  calls succeed. Names resolve to two addresses.
\<close>

record fd_world =
  next_fd :: nat
  fds :: "int set"
  outcomes :: "bool list"

definition outcome :: "fd_world \<Rightarrow> bool \<times> fd_world" where
  "outcome w = (case outcomes w of [] \<Rightarrow> (True, w) | b # bs \<Rightarrow> (b, w\<lparr>outcomes := bs\<rparr>))"

definition script_rc :: "fd_world \<Rightarrow> int \<times> fd_world" where
  "script_rc w = (case outcome w of (b, w') \<Rightarrow> (if b then 0 else -1, w'))"

definition script_open :: "fd_world \<Rightarrow> int \<times> fd_world" where
  "script_open w =
     (case outcome w of (b, w') \<Rightarrow>
        if b \<and> int (next_fd w') \<notin> fds w'
        then (int (next_fd w'), w'\<lparr>next_fd := next_fd w' + 1, fds := insert (int (next_fd w')) (fds w')\<rparr>)
        else (-1, w'))"

definition script_sys :: "fd_world sock_sys" where
  "script_sys =
     \<lparr>sys_socket = (\<lambda>k. script_open), sys_bind = (\<lambda>fd a. script_rc), sys_listen = (\<lambda>fd b. script_rc),
      sys_connect = (\<lambda>fd a w. case outcome w of (b, w') \<Rightarrow> (if b then None else Some EINPROGRESS, w')),
      sys_accept = (\<lambda>fd. script_open),
      sys_close = (\<lambda>fd w. (0, w\<lparr>fds := fds w - {fd}\<rparr>)), sys_unlink = (\<lambda>p. script_rc),
      sys_setsockopt = (\<lambda>fd n. script_rc),
      sys_so_error = (\<lambda>fd w. case outcome w of (b, w') \<Rightarrow> (Some (if b then 0 else 111), w')),
      sys_getaddrinfo = (\<lambda>h p f w. case outcome w of (b, w') \<Rightarrow>
        (if b then Some [\<lparr>ai_kind = Resolved 10 1 6, ai_addr = ''v6''\<rparr>, \<lparr>ai_kind = Resolved 2 1 6, ai_addr = ''v4''\<rparr>]
         else None, w')),
      sys_getsockname = (\<lambda>fd w. (Some 40000, w)),
      sys_poll = (\<lambda>fd ev t w. case outcome w of (b, w') \<Rightarrow>
        ((if b then 1 else 0, \<lparr>pollhup = False, pollerr = False, pollnval = False\<rparr>), w')),
      sys_getfl = (\<lambda>fd. script_rc), sys_setfl = (\<lambda>fd fl. script_rc), sys_errno_text = (\<lambda>w. '' (errno)'')\<rparr>"

lemma outcome_fds [simp]: "fds (snd (outcome w)) = fds w" "next_fd (snd (outcome w)) = next_fd w"
  by (simp_all add: outcome_def split: list.splits)

interpretation script_fds: descriptors script_sys fds
  using outcome_fds
  by unfold_locales
    (auto simp: script_sys_def new_fd_def script_open_def script_rc_def outcome_def
      split: prod.splits list.splits)

end
