(* ===== verification/Duct_Tcp.thy ===== *)
theory Duct_Tcp
  imports Duct_Wire Duct_Sockets Duct_Pipe
begin

text \<open>
  \<^verbatim>\<open>src/tcp_transport.cc\<close> (POSIX build): the pipe and the listener over a connected or listening
  stream socket, and the functions that resolve, connect and bind. A pipe is its descriptor;
  its state as a \<open>Pipe\<close> is the descriptor together with the world.
\<close>

section \<open>Pipe\<close>

record TcpPipe =
  tcp_fd :: int

definition tcp_send ::
  "endian \<Rightarrow> 'w sys_send \<Rightarrow> Message \<Rightarrow> SendOptions \<Rightarrow> TcpPipe \<times> 'w \<Rightarrow> (Status \<times> TcpPipe \<times> 'w) option" where
  "tcp_send e osend msg opt pw =
     (case pw of (p, w) \<Rightarrow>
        if tcp_fd p = kInvalidSocket then Some (closed_status ''pipe closed'', p, w)
        else map_option (\<lambda>(st, w'). (st, p, w')) (write_frame e osend (tcp_fd p) msg 0 w))"

definition tcp_recv ::
  "endian \<Rightarrow> 'w sys_recv \<Rightarrow> RecvOptions \<Rightarrow> TcpPipe \<times> 'w \<Rightarrow> (Message Result \<times> TcpPipe \<times> 'w) option" where
  "tcp_recv e orecv opt pw =
     (case pw of (p, w) \<Rightarrow>
        if tcp_fd p = kInvalidSocket then Some (ResErr (closed_status ''pipe closed''), p, w)
        else map_option (\<lambda>(r, w'). (r, p, w')) (read_frame e orecv (tcp_fd p) w))"

definition tcp_close :: "(int \<Rightarrow> 'w \<Rightarrow> int \<times> 'w) \<Rightarrow> TcpPipe \<times> 'w \<Rightarrow> TcpPipe \<times> 'w" where
  "tcp_close oclose pw =
     (case pw of (p, w) \<Rightarrow>
        if tcp_fd p \<noteq> kInvalidSocket
        then (p\<lparr>tcp_fd := kInvalidSocket\<rparr>, snd (oclose (tcp_fd p) w))
        else (p, w))"

definition tcp_closed :: "TcpPipe \<times> 'w \<Rightarrow> bool" where
  "tcp_closed pw \<longleftrightarrow> tcp_fd (fst pw) = kInvalidSocket"

section \<open>Connecting and listening\<close>

fun connect_first :: "'w sock_sys \<Rightarrow> addrinfo list \<Rightarrow> 'w \<Rightarrow> int \<times> 'w" where
  "connect_first sys [] w = (kInvalidSocket, w)"
| "connect_first sys (p # ps) w =
     (case sys_socket sys (ai_kind p) w of (fd, w1) \<Rightarrow>
        if fd = kInvalidSocket then connect_first sys ps w1
        else
          (case sys_setsockopt sys fd ''TCP_NODELAY'' w1 of (_, w2) \<Rightarrow>
             (case sys_connect sys fd (ai_addr p) w2 of (err, w3) \<Rightarrow>
                if err = None then (fd, w3)
                else connect_first sys ps (snd (sys_close sys fd w3)))))"

definition connect_tcp :: "'w sock_sys \<Rightarrow> string \<Rightarrow> u16 \<Rightarrow> 'w \<Rightarrow> int Result \<times> 'w" where
  "connect_tcp sys hst prt w =
     (case sys_getaddrinfo sys (Some hst) (to_string_nat (unat prt)) False w of (res, w1) \<Rightarrow>
        (case res of
           None \<Rightarrow> (ResErr (io_error ''getaddrinfo() failed''), w1)
         | Some ps \<Rightarrow>
             (case connect_first sys ps w1 of (fd, w2) \<Rightarrow>
                (if fd = kInvalidSocket then ResErr (io_error ''connect() failed'') else ResVal fd, w2))))"

fun bind_first :: "'w sock_sys \<Rightarrow> int \<Rightarrow> addrinfo list \<Rightarrow> 'w \<Rightarrow> int \<times> 'w" where
  "bind_first sys bl [] w = (kInvalidSocket, w)"
| "bind_first sys bl (p # ps) w =
     (case sys_socket sys (ai_kind p) w of (fd, w1) \<Rightarrow>
        if fd = kInvalidSocket then bind_first sys bl ps w1
        else
          (case sys_setsockopt sys fd ''SO_REUSEADDR'' w1 of (_, w2) \<Rightarrow>
             (case sys_bind sys fd (ai_addr p) w2 of (rc, w3) \<Rightarrow>
                if rc = 0 then
                  (case sys_listen sys fd bl w3 of (rc2, w4) \<Rightarrow>
                     if rc2 = 0 then (fd, w4)
                     else bind_first sys bl ps (snd (sys_close sys fd w4)))
                else bind_first sys bl ps (snd (sys_close sys fd w3)))))"

definition listen_tcp :: "'w sock_sys \<Rightarrow> string \<Rightarrow> u16 \<Rightarrow> int \<Rightarrow> 'w \<Rightarrow> int Result \<times> 'w" where
  "listen_tcp sys hst prt bl w =
     (case sys_getaddrinfo sys (if hst = [] then None else Some hst) (to_string_nat (unat prt)) True w of
        (res, w1) \<Rightarrow>
        (case res of
           None \<Rightarrow> (ResErr (io_error ''getaddrinfo() failed''), w1)
         | Some ps \<Rightarrow>
             (case bind_first sys bl ps w1 of (fd, w2) \<Rightarrow>
                (if fd = kInvalidSocket then ResErr (io_error ''bind/listen failed'') else ResVal fd, w2))))"

record TcpListener =
  tl_fd :: int
  tl_host :: string
  tl_port :: u16

definition tcp_listen :: "'w sock_sys \<Rightarrow> TcpAddress \<Rightarrow> ListenOptions \<Rightarrow> 'w \<Rightarrow> TcpListener Result \<times> 'w" where
  "tcp_listen sys addr opt w =
     (case listen_tcp sys (host addr) (port addr) (backlog opt) w of (r, w1) \<Rightarrow>
        (case r of
           ResErr s \<Rightarrow> (ResErr s, w1)
         | ResVal fd \<Rightarrow>
             if port addr = 0 then
               (case sys_getsockname sys fd w1 of (po, w2) \<Rightarrow>
                  (ResVal \<lparr>tl_fd = fd, tl_host = host addr,
                           tl_port = (case po of None \<Rightarrow> port addr | Some q \<Rightarrow> q)\<rparr>, w2))
             else (ResVal \<lparr>tl_fd = fd, tl_host = host addr, tl_port = port addr\<rparr>, w1)))"

definition tcp_dial :: "'w sock_sys \<Rightarrow> TcpAddress \<Rightarrow> DialOptions \<Rightarrow> 'w \<Rightarrow> TcpPipe Result \<times> 'w" where
  "tcp_dial sys addr opt w =
     (case connect_tcp sys (host addr) (port addr) w of (r, w1) \<Rightarrow>
        (case r of ResErr s \<Rightarrow> (ResErr s, w1) | ResVal fd \<Rightarrow> (ResVal \<lparr>tcp_fd = fd\<rparr>, w1)))"

definition tcp_accept :: "'w sock_sys \<Rightarrow> TcpListener \<Rightarrow> 'w \<Rightarrow> TcpPipe Result \<times> 'w" where
  "tcp_accept sys l w =
     (if tl_fd l = kInvalidSocket then (ResErr (closed_status ''listener closed''), w)
      else case sys_accept sys (tl_fd l) w of (cfd, w1) \<Rightarrow>
        (if cfd = kInvalidSocket then ResErr (io_error ''accept() failed'')
         else ResVal \<lparr>tcp_fd = cfd\<rparr>, w1))"

definition tcp_local_address :: "TcpListener \<Rightarrow> string Result" where
  "tcp_local_address l =
     (if tl_fd l = kInvalidSocket then ResErr (closed_status ''listener closed'')
      else ResVal (''tcp://'' @ (if tl_host l = [] then ''127.0.0.1'' else tl_host l) @ '':''
                   @ to_string_nat (unat (tl_port l))))"

definition tcp_listener_close :: "'w sock_sys \<Rightarrow> TcpListener \<Rightarrow> 'w \<Rightarrow> TcpListener \<times> 'w" where
  "tcp_listener_close sys l w =
     (if tl_fd l \<noteq> kInvalidSocket
      then (l\<lparr>tl_fd := kInvalidSocket\<rparr>, snd (sys_close sys (tl_fd l) w)) else (l, w))"

section \<open>Descriptors\<close>

text \<open>The loops end with one new descriptor or with none.\<close>

definition one_new :: "('w \<Rightarrow> int set) \<Rightarrow> 'w \<Rightarrow> int \<times> 'w \<Rightarrow> bool" where
  "one_new open_fds w r \<longleftrightarrow>
     (if fst r = kInvalidSocket then open_fds (snd r) = open_fds w
      else 0 \<le> fst r \<and> fst r \<notin> open_fds w \<and> open_fds (snd r) = insert (fst r) (open_fds w))"

context descriptors
begin

lemma socket_new:
  assumes "sys_socket sys k w = (fd, w')" "fd \<noteq> kInvalidSocket"
  shows "0 \<le> fd" "fd \<notin> open_fds w" "open_fds w' = insert fd (open_fds w)"
  using opened(1) [OF assms(1)] assms(2) by (auto simp: kInvalidSocket_def split: if_splits)

lemma socket_none: "sys_socket sys k w = (kInvalidSocket, w') \<Longrightarrow> open_fds w' = open_fds w"
  using opened(1) [of k w] by (auto simp: kInvalidSocket_def)

lemma one_new_start: "open_fds w' = open_fds w \<Longrightarrow> one_new open_fds w' r \<Longrightarrow> one_new open_fds w r"
  by (auto simp: one_new_def)

lemma new_then_closed:
  assumes "sys_socket sys k w = (fd, w1)" "fd \<noteq> kInvalidSocket" "open_fds w2 = open_fds w1"
  shows "open_fds (snd (sys_close sys fd w2)) = open_fds w"
  using socket_new [OF assms(1,2)] assms(3) close_fd [of fd w2] by simp

lemma connect_first_new: "one_new open_fds w (connect_first sys ps w)"
proof (induction ps arbitrary: w)
  case (Cons p ps)
  obtain fd w1 where s: "sys_socket sys (ai_kind p) w = (fd, w1)" by force
  obtain x w2 where o: "sys_setsockopt sys fd ''TCP_NODELAY'' w1 = (x, w2)" by force
  obtain err w3 where c: "sys_connect sys fd (ai_addr p) w2 = (err, w3)" by force
  have same: "open_fds w3 = open_fds w1" using o c by (metis unchanged(3,5))
  show ?case
  proof (cases "fd = kInvalidSocket")
    case True
    with s one_new_start [OF socket_none Cons.IH] show ?thesis by simp
  next
    case False
    then show ?thesis
      using s o c same socket_new [OF s False] one_new_start [OF new_then_closed [OF s False same] Cons.IH]
      by (cases err) (simp_all add: one_new_def)
  qed
qed (simp add: one_new_def)

lemma bind_first_new: "one_new open_fds w (bind_first sys bl ps w)"
proof (induction ps arbitrary: w)
  case (Cons p ps)
  obtain fd w1 where s: "sys_socket sys (ai_kind p) w = (fd, w1)" by force
  obtain x w2 where o: "sys_setsockopt sys fd ''SO_REUSEADDR'' w1 = (x, w2)" by force
  obtain rc w3 where b: "sys_bind sys fd (ai_addr p) w2 = (rc, w3)" by force
  obtain rc2 w4 where l: "sys_listen sys fd bl w3 = (rc2, w4)" by force
  have same: "open_fds w3 = open_fds w1" "open_fds w4 = open_fds w1"
    using o b l by (metis unchanged(1,5), metis unchanged(1,2,5))
  show ?case
  proof (cases "fd = kInvalidSocket")
    case True
    with s one_new_start [OF socket_none Cons.IH] show ?thesis by simp
  next
    case False
    then show ?thesis
      using s o b l same socket_new [OF s False]
        one_new_start [OF new_then_closed [OF s False same(1)] Cons.IH]
        one_new_start [OF new_then_closed [OF s False same(2)] Cons.IH]
      by (auto simp: one_new_def)
  qed
qed (simp add: one_new_def)

lemma opens_one_found:
  "open_fds w1 = open_fds w \<Longrightarrow> one_new open_fds w1 r \<Longrightarrow>
   opens_one open_fds w
     (case r of (fd, w2) \<Rightarrow> (if fd = kInvalidSocket then ResErr (io_error m) else ResVal fd, w2))"
  "open_fds w1 = open_fds w \<Longrightarrow> opens_one open_fds w (ResErr (io_error m), w1)"
  by (cases r, simp add: opens_one_def one_new_def split: if_splits) (simp add: opens_one_def)

lemma connect_tcp_opens: "opens_one open_fds w (connect_tcp sys h p w)"
proof -
  obtain res w1 where g: "sys_getaddrinfo sys (Some h) (to_string_nat (unat p)) False w = (res, w1)" by force
  then have "open_fds w1 = open_fds w" by (rule unchanged(7))
  moreover have "one_new open_fds w1 (connect_first sys ps w1)" for ps by (rule connect_first_new)
  ultimately show ?thesis using g
    by (cases res) (simp_all add: connect_tcp_def opens_one_found)
qed

lemma listen_tcp_opens: "opens_one open_fds w (listen_tcp sys h p bl w)"
proof -
  obtain res w1 where g: "sys_getaddrinfo sys (if h = [] then None else Some h) (to_string_nat (unat p)) True w
      = (res, w1)" by force
  then have "open_fds w1 = open_fds w" by (rule unchanged(7))
  moreover have "one_new open_fds w1 (bind_first sys bl ps w1)" for ps by (rule bind_first_new)
  ultimately show ?thesis using g
    by (cases res) (simp_all add: listen_tcp_def opens_one_found)
qed

end

section \<open>The pipe over a stream socket\<close>

text \<open>A stream socket: both directions, which do not disturb each other.\<close>

locale stream_socket = stream_send osend sent signals + stream_recv orecv pending signals
  for osend :: "'w sys_send" and sent :: "int \<Rightarrow> 'w \<Rightarrow> byte_seq" and signals :: "'w \<Rightarrow> nat"
    and orecv :: "'w sys_recv" and pending :: "int \<Rightarrow> 'w \<Rightarrow> byte_seq" +
  assumes send_pending: "send_keeps osend (pending fd)"
    and recv_sent: "recv_keeps orecv (sent fd)"

text \<open>The bytes a payload occupies on the wire.\<close>

definition tcp_record :: "byte_seq \<Rightarrow> byte_seq" where
  "tcp_record bs = frame_bytes (from_span bs) 0"

lemma frame_bytes_record: "wf_Message m \<Longrightarrow> frame_bytes m 0 = tcp_record (view m)"
  by (simp add: tcp_record_def frame_bytes_def frame_header_def from_span_def)

locale tcp_stream = stream_socket osend sent signals orecv pending
  for osend :: "'w sys_send" and sent :: "int \<Rightarrow> 'w \<Rightarrow> byte_seq" and signals :: "'w \<Rightarrow> nat"
    and orecv :: "'w sys_recv" and pending :: "int \<Rightarrow> 'w \<Rightarrow> byte_seq" +
  fixes e :: endian
    and oclose :: "int \<Rightarrow> 'w \<Rightarrow> int \<times> 'w"

sublocale tcp_stream \<subseteq> framed_pipe "tcp_send e osend" "tcp_recv e orecv" "tcp_close oclose" tcp_closed "\<lambda>_. True"
  "\<lambda>pw. sent (tcp_fd (fst pw)) (snd pw)" "\<lambda>pw. pending (tcp_fd (fst pw)) (snd pw)" tcp_record
  "\<lambda>bs. length bs \<le> kMaxFramePayload"
proof
  fix p :: "TcpPipe \<times> 'w" and m opt ropt s r p'
  show "tcp_closed (tcp_close oclose p)" by (auto simp: tcp_closed_def tcp_close_def split: prod.splits)
  show "\<exists>s p'. tcp_send e osend m opt p = Some (s, p')"
    using write_frame_some [of e "tcp_fd (fst p)" m 0 "snd p"]
    by (auto simp: tcp_send_def split: prod.splits)
  show "tcp_close oclose p = p" if "tcp_closed p"
    using that by (auto simp: tcp_closed_def tcp_close_def split: prod.splits)
  show "\<exists>s. tcp_send e osend m opt p = Some (s, p) \<and> code s = kClosed" if "tcp_closed p"
    using that by (auto simp: tcp_closed_def tcp_send_def split: prod.splits)
  show "\<exists>s. tcp_recv e orecv ropt p = Some (ResErr s, p) \<and> code s = kClosed" if "tcp_closed p"
    using that by (auto simp: tcp_closed_def tcp_recv_def split: prod.splits)
  show "\<not> tcp_closed p'" if "\<not> tcp_closed p" "tcp_send e osend m opt p = Some (s, p')"
    using that by (auto simp: tcp_closed_def tcp_send_def split: prod.splits)
  show "\<not> tcp_closed p'" if "\<not> tcp_closed p" "tcp_recv e orecv ropt p = Some (r, p')"
    using that by (auto simp: tcp_closed_def tcp_recv_def split: prod.splits)
  show "sent (tcp_fd (fst p')) (snd p') = sent (tcp_fd (fst p)) (snd p) @ tcp_record (view m)
      \<and> pending (tcp_fd (fst p')) (snd p') = pending (tcp_fd (fst p)) (snd p)"
    if wf: "wf_Message m" and send: "tcp_send e osend m opt p = Some (s, p')" and ok: "status_ok s"
  proof -
    obtain w' where w: "write_frame e osend (tcp_fd (fst p)) m 0 (snd p) = Some (s, w')" "p' = (fst p, w')"
      using send ok by (auto simp: tcp_send_def status_ok_def split: prod.splits if_splits)
    then have "msg_size m \<le> kMaxFramePayload"
      using ok by (auto simp: write_frame_def status_ok_def split: if_splits)
    with write_frame_returns [OF wf, of e "tcp_fd (fst p)" 0 "snd p"] w ok
      write_frame_keeps [OF send_pending w(1)] show ?thesis
      by (auto simp: frame_bytes_record [OF wf])
  qed
  show "\<exists>r p'. tcp_recv e orecv ropt p = Some (r, p')
      \<and> sent (tcp_fd (fst p')) (snd p') = sent (tcp_fd (fst p)) (snd p) \<and>
      (case r of ResVal m \<Rightarrow> wf_Message m \<and> view m = bs \<and> pending (tcp_fd (fst p')) (snd p') = rest
       | ResErr s \<Rightarrow> code s = kIoError)"
    if o: "\<not> tcp_closed p" "length bs \<le> kMaxFramePayload"
      and inp: "pending (tcp_fd (fst p)) (snd p) = tcp_record bs @ rest" for bs rest
  proof -
    obtain r w' where r: "read_frame e orecv (tcp_fd (fst p)) (snd p) = Some (r, w')"
      "case r of ResVal m \<Rightarrow> wf_Message m \<and> view m = bs \<and> pending (tcp_fd (fst p)) w' = rest
         | ResErr s \<Rightarrow> s = io_error ''recv() failed''"
      using read_frame_frame [of "from_span bs" "tcp_fd (fst p)" "snd p" 0 rest e, unfolded view_from_span]
        o(2) inp
      by (auto simp: tcp_record_def)
    with o(1) read_frame_keeps [OF recv_sent r(1)] show ?thesis
      by (cases p; cases r) (auto simp: tcp_recv_def tcp_closed_def)
  qed
  show "\<exists>s p'. tcp_recv e orecv ropt p = Some (ResErr s, p')
      \<and> sent (tcp_fd (fst p')) (snd p') = sent (tcp_fd (fst p)) (snd p)
      \<and> (code s = kClosed \<or> code s = kIoError)"
    if op: "\<not> tcp_closed p" and mt: "pending (tcp_fd (fst p)) (snd p) = []"
  proof -
    obtain s w' where "read_frame e orecv (tcp_fd (fst p)) (snd p) = Some (ResErr s, w')"
      "code s = kClosed \<or> code s = kIoError"
      using read_frame_end [OF mt] by blast
    with op read_frame_keeps [OF recv_sent this(1)] show ?thesis
      by (cases p) (auto simp: tcp_recv_def tcp_closed_def)
  qed
qed

context tcp_stream
begin

lemmas tcp_send_loop = send_loop_stream
lemmas tcp_recv_loop = recv_loop_stream
lemmas tcp_echo = echo_server_stream

end

interpretation script_tcp: tcp_stream script_send "\<lambda>fd. outgoing" script_signals script_recv "\<lambda>fd. incoming"
  Little "\<lambda>fd w. (0, w)"
  by unfold_locales
    (auto simp: send_keeps_def recv_keeps_def script_send_def script_recv_def Let_def
      split: list.splits io_event.splits)

text \<open>Closing a TCP pipe keeps the contract of every pipe, whatever the socket does.\<close>

interpretation tcp_pipe: pipe "tcp_send e osend" "tcp_recv e orecv" "tcp_close oclose" tcp_closed "\<lambda>_. True"
  for e osend orecv oclose
  by unfold_locales (auto simp: tcp_closed_def tcp_send_def tcp_recv_def tcp_close_def split: prod.splits)

section \<open>Properties of the TCP transport\<close>

text \<open>
  C24: Connecting and listening never leak a descriptor: on success exactly the returned
  descriptor, which was not open before, has been added to the open ones, and on every failure
  path (resolution, \<open>socket\<close>, \<open>connect\<close>, \<open>bind\<close>, \<open>listen\<close>, for any number of addresses) the open
  descriptors are those from before.
\<close>

theorem tcp_no_descriptor_leak:
  assumes "descriptors sys open_fds"
  shows "opens_one open_fds w (connect_tcp sys h p w) \<and> opens_one open_fds w (listen_tcp sys h p bl w)"
  using descriptors.connect_tcp_opens [OF assms] descriptors.listen_tcp_opens [OF assms] by blast

text \<open>
  A batch sent over one TCP pipe arrives at the peer: \<open>send_batch\<close> returns, and if it succeeds,
  the peer whose incoming stream is what was sent gets, from \<open>recv_batch\<close> with the same count, the
  same payloads in the same order (or an I/O error of its own socket), however the stream is
  split on the way.
\<close>

theorem tcp_batch_transfer:
  assumes "stream_socket osend sent signals orecv pending"
    and "\<forall>m\<in>set ms. wf_Message m \<and> msg_size m \<le> kMaxFramePayload"
    and "tcp_fd b \<noteq> kInvalidSocket"
  shows "\<exists>r pw'. send_batch (tcp_send e osend) ms (a, wa) = Some (r, pw') \<and>
     (case r of
        ResErr s \<Rightarrow> \<not> status_ok s
      | ResVal n \<Rightarrow> n = length ms \<and>
          (\<exists>stream. sent (tcp_fd (fst pw')) (snd pw') = sent (tcp_fd a) wa @ stream \<and>
             (\<forall>wb rest. pending (tcp_fd b) wb = stream @ rest \<longrightarrow>
                (\<exists>q pb. recv_batch (tcp_recv e' orecv) n t (b, wb) = Some (q, pb) \<and>
                   (case q of ResVal got \<Rightarrow> map view got = map view ms \<and> pending (tcp_fd (fst pb)) (snd pb) = rest
                            | ResErr s \<Rightarrow> code s = kIoError)))))"
proof -
  have ts: "tcp_stream osend sent signals orecv pending" using assms(1) by (simp add: tcp_stream_def)
  let ?bss = "map view ms" and ?stream = "concat (map (tcp_record \<circ> view) ms)"
  obtain r pw' where s: "send_loop (tcp_send e osend) ms 0 (a, wa) = Some (r, pw')"
    "case r of ResVal n \<Rightarrow> n = 0 + length ms
        \<and> sent (tcp_fd (fst pw')) (snd pw') = sent (tcp_fd (fst (a, wa))) (snd (a, wa)) @ ?stream
      | ResErr s \<Rightarrow> \<not> status_ok s"
    using tcp_stream.tcp_send_loop [OF ts, of ms e 0 "(a, wa)"] assms(2)
    by auto
  have "\<exists>q pb. recv_loop (tcp_recv e' orecv) (length ms) t [] (b, wb) = Some (q, pb) \<and>
      (case q of ResVal got \<Rightarrow> map view got = map view ms \<and> pending (tcp_fd (fst pb)) (snd pb) = rest
       | ResErr s \<Rightarrow> code s = kIoError)"
    if "pending (tcp_fd b) wb = ?stream @ rest" for wb rest
    using tcp_stream.tcp_recv_loop [OF ts, of "(b, wb)" ?bss rest e' t "[]", unfolded list.map append_Nil] that assms(2,3)
    by (simp add: tcp_closed_def comp_assoc)
  with s show ?thesis
    by (cases r) (auto simp: send_batch_def recv_batch_def)
qed

text \<open>
  An echo server on a TCP pipe returns, and if it ends without an error it has sent back
  exactly the stream of frames it received.
\<close>

theorem tcp_echo_server:
  assumes "stream_socket osend sent signals orecv pending"
    and "tcp_fd p \<noteq> kInvalidSocket" "\<forall>bs\<in>set bss. length bs \<le> kMaxFramePayload"
    and "pending (tcp_fd p) w = concat (map tcp_record bss)"
  shows "\<exists>s pw'. echo_server (tcp_send e osend) (tcp_recv e orecv) (p, w) = Some (s, pw') \<and>
     (status_ok s \<longrightarrow>
        sent (tcp_fd (fst pw')) (snd pw') = sent (tcp_fd p) w @ pending (tcp_fd p) w)"
proof -
  have ts: "tcp_stream osend sent signals orecv pending" using assms(1) by (simp add: tcp_stream_def)
  from tcp_stream.tcp_echo [OF ts, of "(p, w)" bss e] assms(2-4) show ?thesis
    by (simp add: tcp_closed_def)
qed

lemma tcp_no_descriptor_leak_witness:
  "opens_one fds \<lparr>next_fd = 3, fds = {0, 1, 2}, outcomes = [True, True, True, False, True, True, False]\<rparr>
     (connect_tcp script_sys ''h'' 80
        \<lparr>next_fd = 3, fds = {0, 1, 2}, outcomes = [True, True, True, False, True, True, False]\<rparr>)"
  using tcp_no_descriptor_leak [OF script_fds.descriptors_axioms] by blast

lemma tcp_batch_transfer_witness:
  "\<exists>r pw'. send_batch (tcp_send Little script_send) [from_string ''a'', from_string ''bc'']
      (\<lparr>tcp_fd = 3\<rparr>, \<lparr>outgoing = [], incoming = [], script = [Chunk 1, Fault EINTR]\<rparr>) = Some (r, pw') \<and>
     (case r of ResErr s \<Rightarrow> \<not> status_ok s | ResVal n \<Rightarrow> n = 2)"
proof -
  have "\<forall>m\<in>set [from_string ''a'', from_string ''bc'']. wf_Message m \<and> msg_size m \<le> kMaxFramePayload"
    by (simp add: from_string_def kMaxFramePayload_def)
  moreover have "tcp_fd \<lparr>tcp_fd = 4\<rparr> \<noteq> kInvalidSocket" by (simp add: kInvalidSocket_def)
  ultimately show ?thesis
    using tcp_batch_transfer [OF script_tcp.stream_socket_axioms, of "[from_string ''a'', from_string ''bc'']"
        "\<lparr>tcp_fd = 4\<rparr>" Little "\<lparr>tcp_fd = 3\<rparr>" "\<lparr>outgoing = [], incoming = [], script = [Chunk 1, Fault EINTR]\<rparr>"
        Little 0]
    by (fastforce split: Result.splits)
qed

lemma tcp_echo_server_witness:
  "\<exists>s pw'. echo_server (tcp_send Little script_send) (tcp_recv Little script_recv)
      (\<lparr>tcp_fd = 3\<rparr>, \<lparr>outgoing = [], incoming = tcp_record [1, 2] @ tcp_record [], script = [Chunk 4]\<rparr>)
        = Some (s, pw') \<and>
      (if status_ok s then outgoing (snd pw') = tcp_record [1, 2] @ tcp_record [] else True)"
  using tcp_echo_server [OF script_tcp.stream_socket_axioms, of "\<lparr>tcp_fd = 3\<rparr>" "[[1, 2], []]"
      "\<lparr>outgoing = [], incoming = tcp_record [1, 2] @ tcp_record [], script = [Chunk 4]\<rparr>" Little]
  by (auto simp: kInvalidSocket_def kMaxFramePayload_def)

end
