(* ===== verification/Duct_Uds.thy ===== *)
theory Duct_Uds
  imports Duct_Tcp
begin

text \<open>
  \<^verbatim>\<open>src/uds_transport.cc\<close> (POSIX build): the pipe, the listener, and connecting with and without a
  timeout over Unix domain sockets.
\<close>

section \<open>Pipe\<close>

record UdsPipe =
  uds_fd :: int

definition uds_send ::
  "endian \<Rightarrow> 'w sys_send \<Rightarrow> 'w sock_sys \<Rightarrow> Message \<Rightarrow> SendOptions \<Rightarrow> UdsPipe \<times> 'w
     \<Rightarrow> (Status \<times> UdsPipe \<times> 'w) option" where
  "uds_send e osend sys msg opt pw =
     (case pw of (p, w) \<Rightarrow>
        if uds_fd p < 0 then Some (closed_status ''pipe closed'', p, w)
        else
          (case (if snd_timeout opt > 0 then wait_writable sys (uds_fd p) (snd_timeout opt) w
                 else (Status_Ok, w)) of
             (st, w1) \<Rightarrow>
               if \<not> status_ok st then Some (st, p, w1)
               else map_option (\<lambda>(st, w'). (st, p, w')) (write_frame e osend (uds_fd p) msg 0 w1)))"

definition uds_recv ::
  "endian \<Rightarrow> 'w sys_recv \<Rightarrow> 'w sock_sys \<Rightarrow> RecvOptions \<Rightarrow> UdsPipe \<times> 'w
     \<Rightarrow> (Message Result \<times> UdsPipe \<times> 'w) option" where
  "uds_recv e orecv sys opt pw =
     (case pw of (p, w) \<Rightarrow>
        if uds_fd p < 0 then Some (ResErr (closed_status ''pipe closed''), p, w)
        else
          (case (if rcv_timeout opt > 0 then wait_readable sys (uds_fd p) (rcv_timeout opt) w
                 else (Status_Ok, w)) of
             (st, w1) \<Rightarrow>
               if \<not> status_ok st then Some (ResErr st, p, w1)
               else map_option (\<lambda>(r, w'). (r, p, w')) (read_frame e orecv (uds_fd p) w1)))"

definition uds_close :: "(int \<Rightarrow> 'w \<Rightarrow> int \<times> 'w) \<Rightarrow> UdsPipe \<times> 'w \<Rightarrow> UdsPipe \<times> 'w" where
  "uds_close oclose pw =
     (case pw of (p, w) \<Rightarrow>
        if uds_fd p \<ge> 0 then (p\<lparr>uds_fd := -1\<rparr>, snd (oclose (uds_fd p) w)) else (p, w))"

section \<open>Connecting and listening\<close>

definition sun_path_size :: nat where
  "sun_path_size = 108"

text \<open>What \<open>c_str()\<close> shows of a string: everything before the first zero byte.\<close>

definition c_str :: "string \<Rightarrow> string" where
  "c_str s = takeWhile (\<lambda>c. of_char c \<noteq> (0 :: nat)) s"

definition close_with :: "'w sock_sys \<Rightarrow> int \<Rightarrow> Status \<Rightarrow> 'w \<Rightarrow> int Result \<times> 'w" where
  "close_with sys fd st w = (ResErr st, snd (sys_close sys fd w))"

definition connect_uds :: "'w sock_sys \<Rightarrow> string \<Rightarrow> millis \<Rightarrow> 'w \<Rightarrow> int Result \<times> 'w" where
  "connect_uds sys path timeout w =
     (case sys_socket sys UnixStream w of (fd, w1) \<Rightarrow>
        if fd < 0 then (ResErr (io_error ''socket(AF_UNIX) failed''), w1)
        else if length path \<ge> sun_path_size then
          close_with sys fd (invalid_argument ''uds path too long'') w1
        else if timeout > 0 then
          (case set_nonblocking sys fd True w1 of (st, w2) \<Rightarrow>
             if \<not> status_ok st then close_with sys fd st w2
             else
               (case sys_connect sys fd (c_str path) w2 of (err, w3) \<Rightarrow>
                  (case err of
                     None \<Rightarrow> (ResVal fd, snd (set_nonblocking sys fd False w3))
                   | Some er \<Rightarrow>
                       if er \<noteq> EINPROGRESS then
                         close_with sys fd (io_error (''connect() failed for uds path: '' @ path)) w3
                       else
                         (case wait_writable sys fd timeout w3 of (st, w4) \<Rightarrow>
                            if \<not> status_ok st then close_with sys fd st w4
                            else
                              (case sys_so_error sys fd w4 of (so, w5) \<Rightarrow>
                                 if so \<noteq> Some 0 then
                                   close_with sys fd (io_error (''connect() failed for uds path: '' @ path)) w5
                                 else (ResVal fd, snd (set_nonblocking sys fd False w5)))))))
        else
          (case sys_connect sys fd (c_str path) w1 of (err, w2) \<Rightarrow>
             if err \<noteq> None then
               close_with sys fd (io_error (''connect() failed for uds path: '' @ path)) w2
             else (ResVal fd, w2)))"

definition listen_uds :: "'w sock_sys \<Rightarrow> string \<Rightarrow> int \<Rightarrow> 'w \<Rightarrow> int Result \<times> 'w" where
  "listen_uds sys path bl w =
     (case sys_socket sys UnixStream w of (fd, w1) \<Rightarrow>
        if fd < 0 then (ResErr (io_error ''socket(AF_UNIX) failed''), w1)
        else
          (case sys_unlink sys (c_str path) w1 of (_, w2) \<Rightarrow>
             if length path \<ge> sun_path_size then
               close_with sys fd (invalid_argument ''uds path too long'') w2
             else
               (case sys_bind sys fd (c_str path) w2 of (rc, w3) \<Rightarrow>
                  if rc \<noteq> 0 then close_with sys fd (io_error (''bind() failed for uds path: '' @ path)) w3
                  else
                    (case sys_listen sys fd bl w3 of (rc2, w4) \<Rightarrow>
                       if rc2 \<noteq> 0 then
                         (case close_with sys fd (io_error (''listen() failed for uds path: '' @ path)) w4 of
                            (r, w5) \<Rightarrow> (r, snd (sys_unlink sys (c_str path) w5)))
                       else (ResVal fd, w4)))))"

record UdsListener =
  ul_fd :: int
  ul_path :: string

definition uds_listen :: "'w sock_sys \<Rightarrow> string \<Rightarrow> ListenOptions \<Rightarrow> 'w \<Rightarrow> UdsListener Result \<times> 'w" where
  "uds_listen sys path opt w =
     (case listen_uds sys path (backlog opt) w of (r, w1) \<Rightarrow>
        (case r of ResErr s \<Rightarrow> (ResErr s, w1) | ResVal fd \<Rightarrow> (ResVal \<lparr>ul_fd = fd, ul_path = path\<rparr>, w1)))"

definition uds_dial :: "'w sock_sys \<Rightarrow> string \<Rightarrow> DialOptions \<Rightarrow> 'w \<Rightarrow> UdsPipe Result \<times> 'w" where
  "uds_dial sys path opt w =
     (case connect_uds sys path (dial_timeout opt) w of (r, w1) \<Rightarrow>
        (case r of ResErr s \<Rightarrow> (ResErr s, w1) | ResVal fd \<Rightarrow> (ResVal \<lparr>uds_fd = fd\<rparr>, w1)))"

definition uds_accept :: "'w sock_sys \<Rightarrow> UdsListener \<Rightarrow> 'w \<Rightarrow> UdsPipe Result \<times> 'w" where
  "uds_accept sys l w =
     (if ul_fd l < 0 then (ResErr (closed_status ''listener closed''), w)
      else case sys_accept sys (ul_fd l) w of (cfd, w1) \<Rightarrow>
        (if cfd < 0 then ResErr (io_error ''accept() failed'') else ResVal \<lparr>uds_fd = cfd\<rparr>, w1))"

definition uds_local_address :: "UdsListener \<Rightarrow> string Result" where
  "uds_local_address l =
     (if ul_fd l < 0 then ResErr (closed_status ''listener closed'') else ResVal (''uds://'' @ ul_path l))"

definition uds_listener_close :: "'w sock_sys \<Rightarrow> UdsListener \<Rightarrow> 'w \<Rightarrow> UdsListener \<times> 'w" where
  "uds_listener_close sys l w =
     (if ul_fd l \<ge> 0
      then (l\<lparr>ul_fd := -1\<rparr>, snd (sys_unlink sys (c_str (ul_path l)) (snd (sys_close sys (ul_fd l) w))))
      else (l, w))"

section \<open>Descriptors\<close>

context descriptors
begin

lemma unix_socket:
  assumes "sys_socket sys UnixStream w = (fd, w')"
  shows "fd < 0 \<Longrightarrow> open_fds w' = open_fds w"
    and "\<not> fd < 0 \<Longrightarrow> 0 \<le> fd \<and> fd \<notin> open_fds w \<and> open_fds w' = insert fd (open_fds w)"
  using opened(1) [OF assms] by (simp_all split: if_splits)

text \<open>The two ways a function that has just opened \<open>fd\<close> ends.\<close>

lemma end_closed:
  assumes "sys_socket sys UnixStream w = (fd, w1)" "\<not> fd < 0" "open_fds w2 = open_fds w1" "\<not> status_ok st"
  shows "opens_one open_fds w (close_with sys fd st w2)"
    and "open_fds (snd (sys_unlink sys p (snd (close_with sys fd st w2)))) = open_fds w"
  using unix_socket [OF assms(1)] assms(2-4) close_fd [of fd w2] unlink_fds
  by (simp_all add: opens_one_def close_with_def)

lemma end_open:
  assumes "sys_socket sys UnixStream w = (fd, w1)" "\<not> fd < 0" "open_fds w2 = open_fds w1"
  shows "opens_one open_fds w (ResVal fd, w2)"
  using unix_socket(2) [OF assms(1,2)] assms(3) by (simp add: opens_one_def)

lemma end_failed:
  "sys_socket sys UnixStream w = (fd, w1) \<Longrightarrow> fd < 0 \<Longrightarrow> opens_one open_fds w (ResErr (io_error m), w1)"
  using unix_socket(1) by (simp add: opens_one_def)

lemma set_nonblocking_snd: "open_fds (snd (set_nonblocking sys fd b w)) = open_fds w"
  using set_nonblocking_fds by (metis prod.collapse)

lemma connect_uds_opens: "opens_one open_fds w (connect_uds sys path t w)"
proof -
  obtain fd w1 where s: "sys_socket sys UnixStream w = (fd, w1)" by force
  obtain st w2 where n: "set_nonblocking sys fd True w1 = (st, w2)" by force
  obtain err w3 where c: "sys_connect sys fd (c_str path) w2 = (err, w3)" by force
  obtain st' w4 where p: "wait_writable sys fd t w3 = (st', w4)" by force
  obtain so w5 where o: "sys_so_error sys fd w4 = (so, w5)" by force
  obtain err' w2' where b: "sys_connect sys fd (c_str path) w1 = (err', w2')" by force
  have same: "open_fds w2 = open_fds w1" "open_fds w3 = open_fds w1" "open_fds w4 = open_fds w1"
    "open_fds w5 = open_fds w1" "open_fds w2' = open_fds w1"
    using set_nonblocking_fds [OF n] unchanged(3) [OF c] wait_fds(2) [OF p] unchanged(6) [OF o]
      unchanged(3) [OF b] by simp_all
  have snb: "open_fds (snd (set_nonblocking sys fd False w')) = open_fds w1" if "open_fds w' = open_fds w1" for w'
    using that by (simp add: set_nonblocking_snd)
  show ?thesis
  proof (cases "fd < 0")
    case True
    with s end_failed show ?thesis by (simp add: connect_uds_def)
  next
    case False
    note cl = end_closed(1) [OF s False] and op = end_open [OF s False]
    show ?thesis
      using s n c p o b False cl same op snb
      by (cases err) (simp_all add: connect_uds_def)
  qed
qed

lemma listen_uds_opens: "opens_one open_fds w (listen_uds sys path bl w)"
proof -
  obtain fd w1 where s: "sys_socket sys UnixStream w = (fd, w1)" by force
  obtain x w2 where u: "sys_unlink sys (c_str path) w1 = (x, w2)" by force
  obtain rc w3 where b: "sys_bind sys fd (c_str path) w2 = (rc, w3)" by force
  obtain rc2 w4 where l: "sys_listen sys fd bl w3 = (rc2, w4)" by force
  have same: "open_fds w2 = open_fds w1" "open_fds w3 = open_fds w1" "open_fds w4 = open_fds w1"
    using unchanged(4) [OF u] unchanged(1) [OF b] unchanged(2) [OF l] by simp_all
  show ?thesis
  proof (cases "fd < 0")
    case True
    with s end_failed show ?thesis by (simp add: listen_uds_def)
  next
    case False
    note cl = end_closed [OF s False] and op = end_open [OF s False]
    have "opens_one open_fds w
        (case close_with sys fd (io_error m) w4 of (r, w5) \<Rightarrow> (r, snd (sys_unlink sys (c_str path) w5)))" for m
      using cl(2) [OF same(3), of "io_error m" "c_str path"]
      by (simp add: close_with_def opens_one_def)
    with s u b l False cl(1) same op show ?thesis by (simp add: listen_uds_def)
  qed
qed

end

section \<open>The pipe contract\<close>

definition uds_closed :: "UdsPipe \<times> 'w \<Rightarrow> bool" where
  "uds_closed pw \<longleftrightarrow> uds_fd (fst pw) < 0"

interpretation uds_pipe: pipe "uds_send e osend sys" "uds_recv e orecv sys" "uds_close oclose" uds_closed "\<lambda>_. True"
  for e osend orecv sys oclose
  by unfold_locales (auto simp: uds_closed_def uds_send_def uds_recv_def uds_close_def split: prod.splits)

section \<open>Properties of the Unix socket transport\<close>

text \<open>
  Connecting (blocking, or non-blocking with a timeout) and listening on a Unix socket leave
  exactly the returned descriptor open on success and none on any failure path.
\<close>

theorem uds_no_descriptor_leak:
  assumes "descriptors sys open_fds"
  shows "opens_one open_fds w (connect_uds sys path t w) \<and> opens_one open_fds w (listen_uds sys path bl w)"
  using descriptors.connect_uds_opens [OF assms] descriptors.listen_uds_opens [OF assms] by blast

text \<open>
  A receive with a timeout on a connection the peer has closed reports \<open>kClosed\<close> without
  reading, even when frames of the peer are still waiting to be read: nothing of the stream is
  consumed after \<open>poll\<close> reported the hang-up.
\<close>

theorem uds_hangup_skips_data:
  assumes "0 \<le> uds_fd p" "0 < rcv_timeout opt"
    and "sys_poll sys (uds_fd p) POLLIN (int_cast32 (rcv_timeout opt)) w = ((rc, revents), w')"
    and "0 < rc" "pollhup revents"
  shows "uds_recv e orecv sys opt (p, w) = Some (ResErr (closed_status ''peer closed''), p, w')"
  using assms by (simp add: uds_recv_def wait_readable_def poll_wait_def status_ok_def)

lemma uds_no_descriptor_leak_witness:
  "opens_one fds \<lparr>next_fd = 3, fds = {0, 1, 2}, outcomes = [True, True, True, False, False]\<rparr>
     (connect_uds script_sys ''/tmp/s'' 50 \<lparr>next_fd = 3, fds = {0, 1, 2}, outcomes = [True, True, True, False, False]\<rparr>)"
  using uds_no_descriptor_leak [OF script_fds.descriptors_axioms] by blast

lemma uds_hangup_skips_data_witness:
  "let sys = script_sys\<lparr>sys_poll := (\<lambda>fd ev t w. ((1, \<lparr>pollhup = True, pollerr = False, pollnval = False\<rparr>), w))\<rparr>;
       w = \<lparr>next_fd = 4, fds = {3}, outcomes = []\<rparr>
   in uds_recv Little (\<lambda>fd n w. (RecvOk [], w)) sys \<lparr>rcv_timeout = 10\<rparr> (\<lparr>uds_fd = 3\<rparr>, w)
        = Some (ResErr (closed_status ''peer closed''), \<lparr>uds_fd = 3\<rparr>, w)"
  using uds_hangup_skips_data [of "\<lparr>uds_fd = 3\<rparr>" "\<lparr>rcv_timeout = 10\<rparr>"
      "script_sys\<lparr>sys_poll := (\<lambda>fd ev t w. ((1, \<lparr>pollhup = True, pollerr = False, pollnval = False\<rparr>), w))\<rparr>"
      "\<lparr>next_fd = 4, fds = {3}, outcomes = []\<rparr>" 1 "\<lparr>pollhup = True, pollerr = False, pollnval = False\<rparr>"
      "\<lparr>next_fd = 4, fds = {3}, outcomes = []\<rparr>" Little]
  by (simp add: Let_def)

end
