(* ===== verification/Duct_Shm.thy ===== *)
theory Duct_Shm
  imports Duct_Shm_Ring Duct_Uds
begin

text \<open>
  The rest of \<^verbatim>\<open>src/shm_transport.cc\<close> (POSIX build, not macOS): names, semaphore waits, the pipe,
  creating, opening and releasing the shared resources, the bootstrap over a Unix socket, the
  listener and \<open>shm_dial\<close>. The ring itself is in \<open>Duct_Shm_Ring\<close>.
\<close>

section \<open>Names\<close>

definition name_char :: "char \<Rightarrow> bool" where
  "name_char c \<longleftrightarrow>
     (let n = (of_char c :: nat)
      in (97 \<le> n \<and> n \<le> 122) \<or> (65 \<le> n \<and> n \<le> 90) \<or> (48 \<le> n \<and> n \<le> 57) \<or> c = CHR ''_'')"

definition sanitize_name :: "string \<Rightarrow> string" where
  "sanitize_name s =
     (let out = map (\<lambda>c. if name_char c then c else CHR ''_'') s
      in if out = [] then ''duct'' else out)"

text \<open>\<open>snprintf\<close> with \<open>%0<n>x\<close> of a value of \<open>n\<close> hexadecimal digits.\<close>

definition hex_digit :: "nat \<Rightarrow> char" where
  "hex_digit d = ''0123456789abcdef'' ! d"

fun hex_digits :: "nat \<Rightarrow> nat \<Rightarrow> string" where
  "hex_digits 0 v = []"
| "hex_digits (Suc n) v = hex_digits n (v div 16) @ [hex_digit (v mod 16)]"

definition hex8 :: "u32 \<Rightarrow> string" where
  "hex8 v = hex_digits 8 (unat v)"

text \<open>The two readings of \<open>std::random_device\<close> are arguments.\<close>

definition random_conn_id_hex16 :: "u32 \<Rightarrow> u32 \<Rightarrow> string" where
  "random_conn_id_hex16 rd1 rd2 =
     (let v = push_bit 32 (ucast rd1 :: u64) XOR (ucast rd2 :: u64) in hex_digits 16 (unat v))"

definition fnv1a_32 :: "string \<Rightarrow> u32" where
  "fnv1a_32 s = fold (\<lambda>c h. (h XOR of_nat (of_char c)) * 16777619) s 2166136261"

record ShmNames =
  base :: string
  connid :: string
  shm_name :: string
  c2s_items_sem :: string
  c2s_spaces_sem :: string
  s2c_items_sem :: string
  s2c_spaces_sem :: string
  bootstrap_path :: string

definition make_names :: "string \<Rightarrow> string \<Rightarrow> ShmNames" where
  "make_names bus_name cid =
     (let b = sanitize_name bus_name;
          hash8 = hex8 (fnv1a_32 b);
          conn8 = take 8 cid;
          prefix = ''d'' @ hash8 @ conn8
      in \<lparr>base = b, connid = cid, shm_name = ''/'' @ prefix @ ''m'',
          c2s_items_sem = ''/'' @ prefix @ ''a'', c2s_spaces_sem = ''/'' @ prefix @ ''b'',
          s2c_items_sem = ''/'' @ prefix @ ''c'', s2c_spaces_sem = ''/'' @ prefix @ ''d'',
          bootstrap_path = ''/tmp/duct_shm_'' @ hash8 @ ''.sock''\<rparr>)"

section \<open>Semaphore waits\<close>

record timespec =
  tv_sec :: int
  tv_nsec :: int

text \<open>C++ integer division truncates towards zero.\<close>

definition cdiv :: "int \<Rightarrow> int \<Rightarrow> int" where
  "cdiv a b = sgn a * sgn b * (\<bar>a\<bar> div \<bar>b\<bar>)"

definition crem :: "int \<Rightarrow> int \<Rightarrow> int" where
  "crem a b = a - cdiv a b * b"

definition to_abs_timespec :: "timespec \<Rightarrow> millis \<Rightarrow> timespec" where
  "to_abs_timespec now dur =
     (let ns = ms_to_ns dur;
          ts = now\<lparr>tv_sec := tv_sec now + cdiv ns 1000000000, tv_nsec := tv_nsec now + crem ns 1000000000\<rparr>
      in if tv_nsec ts \<ge> 1000000000 then ts\<lparr>tv_sec := tv_sec ts + 1, tv_nsec := tv_nsec ts - 1000000000\<rparr>
         else ts)"

text \<open>
  The semaphore calls: the result is \<open>None\<close> for success and the \<open>errno\<close> otherwise. A semaphore is
  named by a number.
\<close>

record 'w sem_sys =
  os_sem_wait :: "nat \<Rightarrow> 'w \<Rightarrow> errno option \<times> 'w"
  os_sem_timedwait :: "nat \<Rightarrow> timespec \<Rightarrow> 'w \<Rightarrow> errno option \<times> 'w"
  os_sem_post :: "nat \<Rightarrow> 'w \<Rightarrow> 'w"
  os_clock_realtime :: "'w \<Rightarrow> timespec"

partial_function (option) sem_wait_loop :: "'w sem_sys \<Rightarrow> nat \<Rightarrow> 'w \<Rightarrow> (Status \<times> 'w) option" where
  "sem_wait_loop os sem w =
     (case os_sem_wait os sem w of (r, w') \<Rightarrow>
        (case r of
           None \<Rightarrow> Some (Status_Ok, w')
         | Some er \<Rightarrow>
             if er = EINTR then sem_wait_loop os sem w' else Some (io_error ''sem_wait failed'', w')))"

partial_function (option) sem_timedwait_loop ::
  "'w sem_sys \<Rightarrow> nat \<Rightarrow> timespec \<Rightarrow> 'w \<Rightarrow> (Status \<times> 'w) option" where
  "sem_timedwait_loop os sem ts w =
     (case os_sem_timedwait os sem ts w of (r, w') \<Rightarrow>
        (case r of
           None \<Rightarrow> Some (Status_Ok, w')
         | Some er \<Rightarrow>
             if er = EINTR then sem_timedwait_loop os sem ts w'
             else if er = ETIMEDOUT then Some (timeout_status ''sem_timedwait timeout'', w')
             else Some (io_error ''sem_timedwait failed'', w')))"

definition sem_wait_opt :: "'w sem_sys \<Rightarrow> nat \<Rightarrow> millis \<Rightarrow> 'w \<Rightarrow> (Status \<times> 'w) option" where
  "sem_wait_opt os sem timeout w =
     (if timeout = 0 then sem_wait_loop os sem w
      else sem_timedwait_loop os sem (to_abs_timespec (os_clock_realtime os w) timeout) w)"

section \<open>The pipe\<close>

record ShmLayout =
  c2s :: Ring
  s2c :: Ring

record ShmHandles =
  shm_fd :: int
  mem :: bool
  c2s_items :: "nat option"
  c2s_spaces :: "nat option"
  s2c_items :: "nat option"
  s2c_spaces :: "nat option"

definition ShmHandles_default :: ShmHandles where
  "ShmHandles_default =
     \<lparr>shm_fd = -1, mem = False, c2s_items = None, c2s_spaces = None, s2c_items = None, s2c_spaces = None\<rparr>"

record ShmPipe =
  handles :: ShmHandles
  names :: ShmNames
  owner :: bool
  is_client :: bool

text \<open>
  The pipe's view of the world: the mapped memory and the rest. A handle that is missing while the
  memory is mapped does not occur (\<open>create_resources\<close> and \<open>open_resources\<close> hand out all or none).
\<close>

definition tx_ring :: "bool \<Rightarrow> ShmLayout \<Rightarrow> Ring" where
  "tx_ring client m = (if client then c2s m else s2c m)"

definition set_tx_ring :: "bool \<Rightarrow> Ring \<Rightarrow> ShmLayout \<Rightarrow> ShmLayout" where
  "set_tx_ring client r m = (if client then m\<lparr>c2s := r\<rparr> else m\<lparr>s2c := r\<rparr>)"

definition shm_send ::
  "'w sem_sys \<Rightarrow> Message \<Rightarrow> SendOptions \<Rightarrow> ShmPipe \<Rightarrow> ShmLayout \<times> 'w \<Rightarrow> (Status \<times> ShmLayout \<times> 'w) option"
where
  "shm_send os msg opt p mw =
     (case mw of (m, w) \<Rightarrow>
        if \<not> mem (handles p) then Some (closed_status ''pipe closed'', m, w)
        else if msg_size msg > kSlotPayloadMax then
          Some (invalid_argument ''message too large; fragmentation TODO'', m, w)
        else
          let h = handles p;
              spaces = the (if is_client p then c2s_spaces h else s2c_spaces h);
              items = the (if is_client p then c2s_items h else s2c_items h)
          in case sem_wait_opt os spaces (snd_timeout opt) w of
               None \<Rightarrow> None
             | Some (st, w1) \<Rightarrow>
                 if \<not> status_ok st then Some (st, m, w1)
                 else
                   let r = publish (write_slot msg (tx_ring (is_client p) m))
                   in Some (Status_Ok, set_tx_ring (is_client p) r m, os_sem_post os items w1))"

definition shm_recv ::
  "'w sem_sys \<Rightarrow> RecvOptions \<Rightarrow> ShmPipe \<Rightarrow> ShmLayout \<times> 'w \<Rightarrow> (Message Result \<times> ShmLayout \<times> 'w) option"
where
  "shm_recv os opt p mw =
     (case mw of (m, w) \<Rightarrow>
        if \<not> mem (handles p) then Some (ResErr (closed_status ''pipe closed''), m, w)
        else
          let h = handles p;
              rx = tx_ring (\<not> is_client p) m;
              items = the (if is_client p then s2c_items h else c2s_items h);
              spaces = the (if is_client p then s2c_spaces h else c2s_spaces h)
          in case sem_wait_opt os items (rcv_timeout opt) w of
               None \<Rightarrow> None
             | Some (st, w1) \<Rightarrow>
                 if \<not> status_ok st then Some (ResErr st, m, w1)
                 else
                   (case read_slot rx of
                      ResErr s \<Rightarrow> Some (ResErr s, m, w1)
                    | ResVal msg \<Rightarrow>
                        Some (ResVal msg, set_tx_ring (\<not> is_client p) (release rx) m, os_sem_post os spaces w1)))"

section \<open>Shared resources\<close>

text \<open>The calls that create, open and remove shared memory objects and named semaphores.\<close>

record 'w shm_sys =
  os_shm_create :: "string \<Rightarrow> 'w \<Rightarrow> int \<times> 'w"
  os_shm_open :: "string \<Rightarrow> 'w \<Rightarrow> int \<times> 'w"
  os_ftruncate :: "int \<Rightarrow> 'w \<Rightarrow> int \<times> 'w"
  os_mmap :: "int \<Rightarrow> 'w \<Rightarrow> bool \<times> 'w"
  os_memset_zero :: "'w \<Rightarrow> 'w"
  os_munmap :: "'w \<Rightarrow> 'w"
  os_fd_close :: "int \<Rightarrow> 'w \<Rightarrow> 'w"
  os_sem_create :: "string \<Rightarrow> nat \<Rightarrow> 'w \<Rightarrow> nat option \<times> 'w"
  os_sem_open :: "string \<Rightarrow> 'w \<Rightarrow> nat option \<times> 'w"
  os_sem_close :: "nat \<Rightarrow> 'w \<Rightarrow> 'w"
  os_sem_unlink :: "string \<Rightarrow> 'w \<Rightarrow> 'w"
  os_shm_unlink :: "string \<Rightarrow> 'w \<Rightarrow> 'w"
  os_errno_suffix :: "'w \<Rightarrow> string"

definition close_sem :: "'w shm_sys \<Rightarrow> nat option \<Rightarrow> 'w \<Rightarrow> 'w" where
  "close_sem os s w = (case s of None \<Rightarrow> w | Some k \<Rightarrow> os_sem_close os k w)"

definition close_handles :: "'w shm_sys \<Rightarrow> ShmHandles \<Rightarrow> 'w \<Rightarrow> ShmHandles \<times> 'w" where
  "close_handles os h w =
     (let w = (if mem h then os_munmap os w else w);
          w = (if shm_fd h \<ge> 0 then os_fd_close os (shm_fd h) w else w);
          w = close_sem os (c2s_items h) w;
          w = close_sem os (c2s_spaces h) w;
          w = close_sem os (s2c_items h) w;
          w = close_sem os (s2c_spaces h) w
      in (ShmHandles_default, w))"

definition unlink_names :: "'w shm_sys \<Rightarrow> ShmNames \<Rightarrow> 'w \<Rightarrow> 'w" where
  "unlink_names os n w =
     os_shm_unlink os (shm_name n)
       (os_sem_unlink os (s2c_spaces_sem n) (os_sem_unlink os (s2c_items_sem n)
          (os_sem_unlink os (c2s_spaces_sem n) (os_sem_unlink os (c2s_items_sem n) w))))"

definition create_resources :: "'w shm_sys \<Rightarrow> ShmNames \<Rightarrow> 'w \<Rightarrow> ShmHandles Result \<times> 'w" where
  "create_resources os n w =
     (case os_shm_create os (shm_name n) w of (fd, w1) \<Rightarrow>
        if fd < 0 then
          (ResErr (io_error (''shm_open(create) failed: '' @ shm_name n @ os_errno_suffix os w1)), w1)
        else
          let h = ShmHandles_default\<lparr>shm_fd := fd\<rparr>
          in case os_ftruncate os fd w1 of (rc, w2) \<Rightarrow>
            if rc \<noteq> 0 then
              (let w3 = os_shm_unlink os (shm_name n) (snd (close_handles os h w2))
               in (ResErr (io_error (''ftruncate(shm) failed'' @ os_errno_suffix os w3)), w3))
            else case os_mmap os fd w2 of (ok, w3) \<Rightarrow>
              if \<not> ok then
                (let w4 = os_shm_unlink os (shm_name n) (snd (close_handles os h w3))
                 in (ResErr (io_error (''mmap(shm) failed'' @ os_errno_suffix os w4)), w4))
              else
                (case os_sem_create os (c2s_items_sem n) 0 (os_memset_zero os w3) of (a, wa) \<Rightarrow>
                 case os_sem_create os (c2s_spaces_sem n) (unat kSlotCount) wa of (b, wb) \<Rightarrow>
                 case os_sem_create os (s2c_items_sem n) 0 wb of (c, wc) \<Rightarrow>
                 case os_sem_create os (s2c_spaces_sem n) (unat kSlotCount) wc of (d, wd) \<Rightarrow>
                   let h = h\<lparr>mem := True, c2s_items := a, c2s_spaces := b, s2c_items := c, s2c_spaces := d\<rparr>
                   in if a = None \<or> b = None \<or> c = None \<or> d = None then
                        (let w' = unlink_names os n (snd (close_handles os h wd))
                         in (ResErr (io_error (''sem_open(create) failed'' @ os_errno_suffix os w')), w'))
                      else (ResVal h, wd)))"

definition open_resources :: "'w shm_sys \<Rightarrow> ShmNames \<Rightarrow> 'w \<Rightarrow> ShmHandles Result \<times> 'w" where
  "open_resources os n w =
     (case os_shm_open os (shm_name n) w of (fd, w1) \<Rightarrow>
        if fd < 0 then
          (ResErr (io_error (''shm_open(open) failed: '' @ shm_name n @ os_errno_suffix os w1)), w1)
        else
          let h = ShmHandles_default\<lparr>shm_fd := fd\<rparr>
          in case os_mmap os fd w1 of (ok, w2) \<Rightarrow>
            if \<not> ok then
              (let w3 = snd (close_handles os h w2)
               in (ResErr (io_error (''mmap(shm) failed'' @ os_errno_suffix os w3)), w3))
            else
              (case os_sem_open os (c2s_items_sem n) w2 of (a, wa) \<Rightarrow>
               case os_sem_open os (c2s_spaces_sem n) wa of (b, wb) \<Rightarrow>
               case os_sem_open os (s2c_items_sem n) wb of (c, wc) \<Rightarrow>
               case os_sem_open os (s2c_spaces_sem n) wc of (d, wd) \<Rightarrow>
                 let h = h\<lparr>mem := True, c2s_items := a, c2s_spaces := b, s2c_items := c, s2c_spaces := d\<rparr>
                 in if a = None \<or> b = None \<or> c = None \<or> d = None then
                      (let w' = snd (close_handles os h wd)
                       in (ResErr (io_error (''sem_open(open) failed'' @ os_errno_suffix os w')), w'))
                    else (ResVal h, wd)))"

definition shm_close :: "'w shm_sys \<Rightarrow> ShmPipe \<Rightarrow> 'w \<Rightarrow> ShmPipe \<times> 'w" where
  "shm_close os p w =
     (if \<not> mem (handles p) \<and> shm_fd (handles p) < 0 then (p, w)
      else case close_handles os (handles p) w of (h, w1) \<Rightarrow>
        (p\<lparr>handles := h\<rparr>, if owner p then unlink_names os (names p) w1 else w1))"

section \<open>Bootstrap socket, listener and dial\<close>

definition shm_uds_listen :: "'w sock_sys \<Rightarrow> string \<Rightarrow> int \<Rightarrow> 'w \<Rightarrow> int Result \<times> 'w" where
  "shm_uds_listen sys path bl w =
     (case sys_socket sys UnixStream w of (fd, w1) \<Rightarrow>
        if fd < 0 then (ResErr (io_error (''socket(AF_UNIX) failed'' @ sys_errno_text sys w1)), w1)
        else if length path \<ge> sun_path_size then
          close_with sys fd (invalid_argument ''uds path too long'') w1
        else
          (case sys_unlink sys (c_str path) w1 of (_, w2) \<Rightarrow>
             (case sys_bind sys fd (c_str path) w2 of (rc, w3) \<Rightarrow>
                if rc \<noteq> 0 then
                  (let w4 = snd (sys_close sys fd w3)
                   in (ResErr (io_error (''bind(AF_UNIX) failed'' @ sys_errno_text sys w4)), w4))
                else
                  (case sys_listen sys fd bl w3 of (rc2, w4) \<Rightarrow>
                     if rc2 \<noteq> 0 then
                       (let w5 = snd (sys_close sys fd w4)
                        in (ResErr (io_error (''listen(AF_UNIX) failed'' @ sys_errno_text sys w5)), w5))
                     else (ResVal fd, w4)))))"

definition shm_uds_connect :: "'w sock_sys \<Rightarrow> string \<Rightarrow> 'w \<Rightarrow> int Result \<times> 'w" where
  "shm_uds_connect sys path w =
     (case sys_socket sys UnixStream w of (fd, w1) \<Rightarrow>
        if fd < 0 then (ResErr (io_error (''socket(AF_UNIX) failed'' @ sys_errno_text sys w1)), w1)
        else if length path \<ge> sun_path_size then
          close_with sys fd (invalid_argument ''uds path too long'') w1
        else
          (case sys_connect sys fd (c_str path) w1 of (err, w2) \<Rightarrow>
             if err \<noteq> None then
               (let w3 = snd (sys_close sys fd w2)
                in (ResErr (io_error (''connect(AF_UNIX) failed'' @ sys_errno_text sys w3)), w3))
             else (ResVal fd, w2)))"

partial_function (option) shm_write_all ::
  "'w sock_sys \<Rightarrow> 'w sys_send \<Rightarrow> int \<Rightarrow> byte_seq \<Rightarrow> 'w \<Rightarrow> (Status \<times> 'w) option" where
  "shm_write_all sys osend fd p w =
     (if p = [] then Some (Status_Ok, w)
      else case osend fd p w of (r, w') \<Rightarrow>
        (case r of
           SendFail er \<Rightarrow>
             if er = EINTR then shm_write_all sys osend fd p w'
             else Some (io_error (''send() failed'' @ sys_errno_text sys w'), w')
         | SendOk k \<Rightarrow>
             if k = 0 then Some (closed_status ''peer closed'', w')
             else shm_write_all sys osend fd (drop k p) w'))"

partial_function (option) shm_read_exact ::
  "'w sock_sys \<Rightarrow> 'w sys_recv \<Rightarrow> int \<Rightarrow> nat \<Rightarrow> byte_seq \<Rightarrow> 'w \<Rightarrow> (Status \<times> byte_seq \<times> 'w) option" where
  "shm_read_exact sys orecv fd n buf w =
     (if n = 0 then Some (Status_Ok, buf, w)
      else case orecv fd n w of (r, w') \<Rightarrow>
        (case r of
           RecvFail er \<Rightarrow>
             if er = EINTR then shm_read_exact sys orecv fd n buf w'
             else Some (io_error (''recv() failed'' @ sys_errno_text sys w'), buf, w')
         | RecvOk bs \<Rightarrow>
             if bs = [] then Some (closed_status ''peer closed'', buf, w')
             else shm_read_exact sys orecv fd (n - length bs) (buf @ bs) w'))"

record ShmListener =
  sl_names :: ShmNames
  sl_fd :: int

definition shm_accept ::
  "'w sock_sys \<Rightarrow> 'w shm_sys \<Rightarrow> 'w sys_recv \<Rightarrow> ShmListener \<Rightarrow> 'w \<Rightarrow> (ShmPipe Result \<times> 'w) option" where
  "shm_accept sys os orecv l w =
     (if sl_fd l < 0 then Some (ResErr (closed_status ''listener closed''), w)
      else case sys_accept sys (sl_fd l) w of (cfd, w1) \<Rightarrow>
        if cfd < 0 then Some (ResErr (io_error (''accept(uds bootstrap) failed'' @ sys_errno_text sys w1)), w1)
        else case shm_read_exact sys orecv cfd 16 [] w1 of
          None \<Rightarrow> None
        | Some (st, cid, w2) \<Rightarrow>
            let w3 = snd (sys_close sys cfd w2)
            in if \<not> status_ok st then Some (ResErr st, w3)
               else
                 let n = make_names (base (sl_names l)) (string_of_bytes cid)
                 in case open_resources os n w3 of (h, w4) \<Rightarrow>
                      (case h of
                         ResErr s \<Rightarrow> Some (ResErr s, w4)
                       | ResVal hs \<Rightarrow>
                           Some (ResVal \<lparr>handles = hs, names = n, owner = False, is_client = False\<rparr>, w4)))"

definition shm_local_address :: "ShmListener \<Rightarrow> string Result" where
  "shm_local_address l = ResVal (''shm://'' @ base (sl_names l))"

definition shm_listener_close :: "'w sock_sys \<Rightarrow> ShmListener \<Rightarrow> 'w \<Rightarrow> ShmListener \<times> 'w" where
  "shm_listener_close sys l w =
     (if sl_fd l \<ge> 0
      then (l\<lparr>sl_fd := -1\<rparr>,
            snd (sys_unlink sys (c_str (bootstrap_path (sl_names l))) (snd (sys_close sys (sl_fd l) w))))
      else (l, w))"

definition shm_listen :: "'w sock_sys \<Rightarrow> string \<Rightarrow> ListenOptions \<Rightarrow> 'w \<Rightarrow> ShmListener Result \<times> 'w" where
  "shm_listen sys nm opt w =
     (let n = make_names nm ''0000000000000000''
      in case shm_uds_listen sys (bootstrap_path n) (backlog opt) w of (r, w1) \<Rightarrow>
           (case r of ResErr s \<Rightarrow> (ResErr s, w1) | ResVal fd \<Rightarrow> (ResVal \<lparr>sl_names = n, sl_fd = fd\<rparr>, w1)))"

text \<open>Giving up a half-made connection: release the handles, remove the names.\<close>

definition shm_abandon :: "'w shm_sys \<Rightarrow> ShmNames \<Rightarrow> ShmHandles \<Rightarrow> 'w \<Rightarrow> 'w" where
  "shm_abandon os n h w = unlink_names os n (snd (close_handles os h w))"

definition shm_dial ::
  "'w sock_sys \<Rightarrow> 'w shm_sys \<Rightarrow> 'w sys_send \<Rightarrow> u32 \<Rightarrow> u32 \<Rightarrow> string \<Rightarrow> DialOptions \<Rightarrow> 'w
     \<Rightarrow> (ShmPipe Result \<times> 'w) option" where
  "shm_dial sys os osend rd1 rd2 nm opt w =
     (let cid = random_conn_id_hex16 rd1 rd2;
          n = make_names nm cid
      in case create_resources os n w of (created, w1) \<Rightarrow>
        (case created of
           ResErr s \<Rightarrow> Some (ResErr s, w1)
         | ResVal h \<Rightarrow>
             (case shm_uds_connect sys (bootstrap_path n) w1 of (cfd, w2) \<Rightarrow>
                (case cfd of
                   ResErr s \<Rightarrow> Some (ResErr s, shm_abandon os n h w2)
                 | ResVal fd \<Rightarrow>
                     (case shm_write_all sys osend fd (bytes_of_string cid) w2 of
                        None \<Rightarrow> None
                      | Some (st, w3) \<Rightarrow>
                          let w4 = snd (sys_close sys fd w3)
                          in if \<not> status_ok st then Some (ResErr st, shm_abandon os n h w4)
                             else Some (ResVal \<lparr>handles = h, names = n, owner = True, is_client = True\<rparr>, w4))))))"

section \<open>Names: the two sides agree, and the names are usable\<close>

lemma sanitize_chars: "c \<in> set (sanitize_name s) \<Longrightarrow> name_char c"
  by (auto simp: sanitize_name_def Let_def name_char_def split: if_splits)

lemma sanitize_clean: "s \<noteq> [] \<Longrightarrow> \<forall>c\<in>set s. name_char c \<Longrightarrow> sanitize_name s = s"
  by (simp add: sanitize_name_def Let_def map_idI)

lemma sanitize_idem [simp]: "sanitize_name (sanitize_name s) = sanitize_name s"
  by (rule sanitize_clean) (auto simp: sanitize_chars, simp add: sanitize_name_def Let_def split: if_splits)

lemma length_hex_digits [simp]: "length (hex_digits n v) = n"
  by (induction n arbitrary: v) simp_all

lemma make_names_base [simp]: "make_names (base (make_names nm cid)) cid' = make_names nm cid'"
  by (simp add: make_names_def Let_def)

definition sem_names :: "ShmNames \<Rightarrow> string list" where
  "sem_names n = [c2s_items_sem n, c2s_spaces_sem n, s2c_items_sem n, s2c_spaces_sem n]"

lemma sem_names_distinct: "distinct (sem_names (make_names nm cid))"
  by (simp add: sem_names_def make_names_def Let_def)

section \<open>The pipe operations implement the ring operations\<close>

text \<open>
  Counting semaphores: a successful wait takes one unit, a failed one nothing, a post adds one, and
  only finitely many signals interrupt the waits. As a blocking call returns only when the unit is
  there, \<open>val\<close> counts what will have been posted when the call returns.
\<close>

locale semaphores =
  fixes os :: "'w sem_sys"
    and val :: "nat \<Rightarrow> 'w \<Rightarrow> nat"
    and signals :: "'w \<Rightarrow> nat"
  assumes wait_takes: "os_sem_wait os s w = (None, w') \<Longrightarrow>
      val s w = Suc (val s w') \<and> (\<forall>x. x \<noteq> s \<longrightarrow> val x w' = val x w)"
    and wait_fails: "os_sem_wait os s w = (Some er, w') \<Longrightarrow> val x w' = val x w"
    and wait_intr: "os_sem_wait os s w = (Some EINTR, w') \<Longrightarrow> signals w' < signals w"
    and timed_takes: "os_sem_timedwait os s ts w = (None, w') \<Longrightarrow>
      val s w = Suc (val s w') \<and> (\<forall>x. x \<noteq> s \<longrightarrow> val x w' = val x w)"
    and timed_fails: "os_sem_timedwait os s ts w = (Some er, w') \<Longrightarrow> val x w' = val x w"
    and timed_intr: "os_sem_timedwait os s ts w = (Some EINTR, w') \<Longrightarrow> signals w' < signals w"
    and post_adds: "val x (os_sem_post os s w) = (if x = s then Suc (val x w) else val x w)"

text \<open>What a wait that returned has done.\<close>

definition wait_outcome :: "('s \<Rightarrow> 'w \<Rightarrow> nat) \<Rightarrow> 's \<Rightarrow> bool \<Rightarrow> 'w \<Rightarrow> Status \<Rightarrow> 'w \<Rightarrow> bool" where
  "wait_outcome val s timed w st w' \<longleftrightarrow>
     (if status_ok st then val s w = Suc (val s w') \<and> (\<forall>x. x \<noteq> s \<longrightarrow> val x w' = val x w)
      else (\<forall>x. val x w' = val x w) \<and> (code st = kIoError \<or> timed \<and> code st = kTimeout))"

lemma wait_outcome_start:
  "(\<forall>x. val x w1 = val x w) \<Longrightarrow> wait_outcome val s timed w1 st w' \<Longrightarrow> wait_outcome val s timed w st w'"
  by (auto simp: wait_outcome_def split: if_splits)

context semaphores
begin

lemma sem_wait_loop_returns:
  "\<exists>st w'. sem_wait_loop os s w = Some (st, w') \<and> wait_outcome val s False w st w'"
proof (induction "signals w" arbitrary: w rule: less_induct)
  case less
  obtain r w1 where r: "os_sem_wait os s w = (r, w1)" by force
  show ?case
  proof (cases r)
    case None
    with r wait_takes show ?thesis by (simp add: sem_wait_loop.simps [of os s w] wait_outcome_def)
  next
    case (Some er)
    then have same: "\<forall>x. val x w1 = val x w" using r wait_fails by blast
    show ?thesis
    proof (cases "er = EINTR")
      case True
      then obtain st w' where "sem_wait_loop os s w1 = Some (st, w')" "wait_outcome val s False w1 st w'"
        using less [of w1] wait_intr r Some by blast
      with r Some True wait_outcome_start [OF same] show ?thesis
        by (simp add: sem_wait_loop.simps [of os s w])
    next
      case False
      with r Some same show ?thesis by (simp add: sem_wait_loop.simps [of os s w] wait_outcome_def)
    qed
  qed
qed

lemma sem_timedwait_loop_returns:
  "\<exists>st w'. sem_timedwait_loop os s ts w = Some (st, w') \<and> wait_outcome val s True w st w'"
proof (induction "signals w" arbitrary: w rule: less_induct)
  case less
  obtain r w1 where r: "os_sem_timedwait os s ts w = (r, w1)" by force
  show ?case
  proof (cases r)
    case None
    with r timed_takes show ?thesis by (simp add: sem_timedwait_loop.simps [of os s ts w] wait_outcome_def)
  next
    case (Some er)
    then have same: "\<forall>x. val x w1 = val x w" using r timed_fails by blast
    show ?thesis
    proof (cases "er = EINTR")
      case True
      then obtain st w' where "sem_timedwait_loop os s ts w1 = Some (st, w')" "wait_outcome val s True w1 st w'"
        using less [of w1] timed_intr r Some by blast
      with r Some True wait_outcome_start [OF same] show ?thesis
        by (simp add: sem_timedwait_loop.simps [of os s ts w])
    next
      case False
      with r Some same show ?thesis
        by (auto simp: sem_timedwait_loop.simps [of os s ts w] wait_outcome_def)
    qed
  qed
qed

lemma sem_wait_opt_returns:
  "\<exists>st w'. sem_wait_opt os s t w = Some (st, w') \<and> wait_outcome val s (t \<noteq> 0) w st w'"
  using sem_wait_loop_returns [of s w]
    sem_timedwait_loop_returns [of s "to_abs_timespec (os_clock_realtime os w) t" w]
  by (cases "t = 0") (auto simp: sem_wait_opt_def)

end

text \<open>The ring a pipe sends on (\<open>dir\<close>: client to server), as a channel with its semaphores.\<close>

definition chan_of :: "(nat \<Rightarrow> 'w \<Rightarrow> nat) \<Rightarrow> bool \<Rightarrow> ShmHandles \<Rightarrow> ShmLayout \<times> 'w \<Rightarrow> ring_chan" where
  "chan_of val dir h mw =
     \<lparr>ch_ring = tx_ring dir (fst mw),
      ch_items = val (the (if dir then c2s_items h else s2c_items h)) (snd mw),
      ch_spaces = val (the (if dir then c2s_spaces h else s2c_spaces h)) (snd mw)\<rparr>"

definition handles_ok :: "ShmHandles \<Rightarrow> bool" where
  "handles_ok h \<longleftrightarrow> mem h \<and>
     (\<exists>a b c d. c2s_items h = Some a \<and> c2s_spaces h = Some b \<and> s2c_items h = Some c \<and> s2c_spaces h = Some d
        \<and> distinct [a, b, c, d])"

lemma tx_ring_set [simp]:
  "tx_ring d (set_tx_ring d' r m) = (if d = d' then r else tx_ring d m)"
  by (simp add: tx_ring_def set_tx_ring_def)

context semaphores
begin

lemma shm_send_refines:
  assumes "handles_ok (handles p)" "msg_size msg \<le> kSlotPayloadMax"
  shows "\<exists>st mw'. shm_send os msg opt p mw = Some (st, mw') \<and>
     (if status_ok st then
        chan_send msg (chan_of val (is_client p) (handles p) mw) = Some (chan_of val (is_client p) (handles p) mw')
        \<and> chan_of val (\<not> is_client p) (handles p) mw' = chan_of val (\<not> is_client p) (handles p) mw
      else (\<forall>d. chan_of val d (handles p) mw' = chan_of val d (handles p) mw)
        \<and> (code st = kIoError \<or> snd_timeout opt \<noteq> 0 \<and> code st = kTimeout))"
proof -
  obtain m w where mw: "mw = (m, w)" by force
  let ?h = "handles p"
  let ?s = "the (if is_client p then c2s_spaces ?h else s2c_spaces ?h)"
  obtain st w1 where r: "sem_wait_opt os ?s (snd_timeout opt) w = Some (st, w1)"
    "wait_outcome val ?s (snd_timeout opt \<noteq> 0) w st w1" using sem_wait_opt_returns by blast
  obtain a b c d where h: "mem ?h" "c2s_items ?h = Some a" "c2s_spaces ?h = Some b" "s2c_items ?h = Some c"
    "s2c_spaces ?h = Some d" "distinct [a, b, c, d]" using assms(1) by (auto simp: handles_ok_def)
  show ?thesis
    using r h assms(2) mw
    by (cases "is_client p"; cases "status_ok st")
      (auto simp: shm_send_def Let_def chan_of_def chan_send_def wait_outcome_def post_adds tx_ring_def
        set_tx_ring_def)
qed

lemma shm_recv_refines:
  assumes "handles_ok (handles p)" "chan_inv (chan_of val (\<not> is_client p) (handles p) mw)"
  shows "\<exists>r mw'. shm_recv os opt p mw = Some (r, mw') \<and>
     (case r of
        ResVal msg \<Rightarrow>
          chan_recv (chan_of val (\<not> is_client p) (handles p) mw)
            = Some (msg, chan_of val (\<not> is_client p) (handles p) mw')
          \<and> chan_of val (is_client p) (handles p) mw' = chan_of val (is_client p) (handles p) mw
      | ResErr st \<Rightarrow> (\<forall>d. chan_of val d (handles p) mw' = chan_of val d (handles p) mw)
          \<and> (code st = kIoError \<or> rcv_timeout opt \<noteq> 0 \<and> code st = kTimeout))"
proof -
  obtain m w where mw: "mw = (m, w)" by force
  let ?h = "handles p"
  let ?s = "the (if is_client p then s2c_items ?h else c2s_items ?h)"
  obtain st w1 where r: "sem_wait_opt os ?s (rcv_timeout opt) w = Some (st, w1)"
    "wait_outcome val ?s (rcv_timeout opt \<noteq> 0) w st w1" using sem_wait_opt_returns by blast
  obtain a b c d where h: "mem ?h" "c2s_items ?h = Some a" "c2s_spaces ?h = Some b" "s2c_items ?h = Some c"
    "s2c_spaces ?h = Some d" "distinct [a, b, c, d]" using assms(1) by (auto simp: handles_ok_def)
  obtain t where "tail (tx_ring (\<not> is_client p) m) = of_nat t" using u32_as_of_nat by blast
  then obtain msg where msg: "read_slot (tx_ring (\<not> is_client p) m) = ResVal msg"
    using read_slot_payload assms(2) mw by (auto simp: chan_inv_def chan_of_def)
  show ?thesis
    using r h msg mw
    by (cases "is_client p"; cases "status_ok st")
      (auto simp: shm_recv_def Let_def chan_of_def chan_recv_def wait_outcome_def post_adds tx_ring_def
        set_tx_ring_def)
qed

end

section \<open>Creating and releasing the resources\<close>

text \<open>
  What the calls do to the names in the system (shared memory objects, named semaphores with
  their initial values) and to the number of handles the process holds (descriptor, mapping,
  semaphores). A failed call changes nothing.
\<close>

record shm_state =
  objs :: "string set"
  sems :: "string \<Rightarrow> nat option"
  held :: nat

locale shm_objects =
  fixes os :: "'w shm_sys"
    and st :: "'w \<Rightarrow> shm_state"
  assumes shm_create: "os_shm_create os n w = (fd, w') \<Longrightarrow>
      (if 0 \<le> fd then n \<notin> objs (st w) \<and>
         st w' = (st w)\<lparr>objs := insert n (objs (st w)), held := held (st w) + 1\<rparr> else st w' = st w)"
    and shm_open: "os_shm_open os n w = (fd, w') \<Longrightarrow>
      st w' = (if 0 \<le> fd then (st w)\<lparr>held := held (st w) + 1\<rparr> else st w)"
    and truncate: "os_ftruncate os fd w = (rc, w') \<Longrightarrow> st w' = st w"
    and map_mem: "os_mmap os fd w = (ok, w') \<Longrightarrow>
      st w' = (if ok then (st w)\<lparr>held := held (st w) + 1\<rparr> else st w)"
    and zero_mem: "st (os_memset_zero os w) = st w"
    and unmap_mem: "st (os_munmap os w) = (st w)\<lparr>held := held (st w) - 1\<rparr>"
    and close_mem: "st (os_fd_close os fd w) = (st w)\<lparr>held := held (st w) - 1\<rparr>"
    and sem_create: "os_sem_create os n v w = (s, w') \<Longrightarrow>
      (if s = None then st w' = st w
       else sems (st w) n = None
         \<and> st w' = (st w)\<lparr>sems := (sems (st w))(n \<mapsto> v), held := held (st w) + 1\<rparr>)"
    and sem_open: "os_sem_open os n w = (s, w') \<Longrightarrow>
      st w' = (if s = None then st w else (st w)\<lparr>held := held (st w) + 1\<rparr>)"
    and sem_close: "st (os_sem_close os k w) = (st w)\<lparr>held := held (st w) - 1\<rparr>"
    and sem_unlink: "st (os_sem_unlink os n w) = (st w)\<lparr>sems := (sems (st w))(n := None)\<rparr>"
    and shm_unlink: "st (os_shm_unlink os n w) = (st w)\<lparr>objs := objs (st w) - {n}\<rparr>"

text \<open>The number of handles in a \<open>ShmHandles\<close>, and the names removed by \<open>unlink_names\<close>.\<close>

definition handle_count :: "ShmHandles \<Rightarrow> nat" where
  "handle_count h = (if mem h then 1 else 0) + (if 0 \<le> shm_fd h then 1 else 0)
     + length (filter (\<lambda>s. s \<noteq> None) [c2s_items h, c2s_spaces h, s2c_items h, s2c_spaces h])"

definition without_names :: "ShmNames \<Rightarrow> shm_state \<Rightarrow> shm_state" where
  "without_names n s = s\<lparr>objs := objs s - {shm_name n}, sems := (\<lambda>x. if x \<in> set (sem_names n) then None else sems s x)\<rparr>"

context shm_objects
begin

lemma close_sem_state: "st (close_sem os s w) = (st w)\<lparr>held := held (st w) - (if s = None then 0 else 1)\<rparr>"
  by (cases s) (simp_all add: close_sem_def sem_close)

lemma close_handles_state:
  "st (snd (close_handles os h w)) = (st w)\<lparr>held := held (st w) - handle_count h\<rparr>"
  by (simp add: close_handles_def Let_def close_sem_state unmap_mem close_mem handle_count_def)

lemma unlink_names_state: "st (unlink_names os n w) = without_names n (st w)"
  by (auto simp: unlink_names_def sem_unlink shm_unlink without_names_def sem_names_def fun_upd_def
      intro!: shm_state.equality)

end

text \<open>The state after all resources of \<open>n\<close> have been created.\<close>

definition with_names :: "ShmNames \<Rightarrow> shm_state \<Rightarrow> shm_state" where
  "with_names n s = s\<lparr>objs := insert (shm_name n) (objs s),
     sems := (sems s)(c2s_items_sem n \<mapsto> 0, c2s_spaces_sem n \<mapsto> 64, s2c_items_sem n \<mapsto> 0, s2c_spaces_sem n \<mapsto> 64),
     held := held s + 6\<rparr>"

definition names_free :: "ShmNames \<Rightarrow> shm_state \<Rightarrow> bool" where
  "names_free n s \<longleftrightarrow> shm_name n \<notin> objs s \<and> (\<forall>x\<in>set (sem_names n). sems s x = None)"

definition all_handles :: "ShmHandles \<Rightarrow> bool" where
  "all_handles h \<longleftrightarrow> mem h \<and> 0 \<le> shm_fd h \<and> c2s_items h \<noteq> None \<and> c2s_spaces h \<noteq> None
     \<and> s2c_items h \<noteq> None \<and> s2c_spaces h \<noteq> None"

text \<open>
  A failed creation leaves the objects and the handles as they were. If it failed at the
  semaphores, the four semaphore names are gone, whoever had created them.
\<close>

definition sems_removed :: "ShmNames \<Rightarrow> shm_state \<Rightarrow> shm_state" where
  "sems_removed n s = s\<lparr>sems := (\<lambda>x. if x \<in> set (sem_names n) then None else sems s x)\<rparr>"

definition create_outcome :: "ShmNames \<Rightarrow> shm_state \<Rightarrow> ShmHandles Result \<Rightarrow> shm_state \<Rightarrow> bool" where
  "create_outcome n s r s' \<longleftrightarrow>
     (case r of
        ResVal h \<Rightarrow> all_handles h \<and> names_free n s \<and> s' = with_names n s
      | ResErr e \<Rightarrow> \<not> status_ok e \<and> (s' = s \<or> s' = sems_removed n s))"

lemma all_handles_count: "all_handles h \<Longrightarrow> handle_count h = 6"
  by (simp add: all_handles_def handle_count_def)

lemma names_round_trip: "names_free n s \<Longrightarrow> (without_names n (with_names n s))\<lparr>held := held s\<rparr> = s"
  by (cases s) (auto simp: names_free_def without_names_def with_names_def sem_names_def)

context shm_objects
begin

lemma sems_created:
  assumes a: "os_sem_create os (c2s_items_sem n) 0 w = (a, wa)"
    and b: "os_sem_create os (c2s_spaces_sem n) 64 wa = (b, wb)"
    and c: "os_sem_create os (s2c_items_sem n) 0 wb = (c, wc)"
    and d: "os_sem_create os (s2c_spaces_sem n) 64 wc = (d, wd)"
    and dist: "distinct (sem_names n)"
  shows "objs (st wd) = objs (st w)"
    and "held (st wd) = held (st w) + length (filter (\<lambda>s. s \<noteq> None) [a, b, c, d])"
    and "x \<notin> set (sem_names n) \<Longrightarrow> sems (st wd) x = sems (st w) x"
    and "a \<noteq> None \<and> b \<noteq> None \<and> c \<noteq> None \<and> d \<noteq> None \<Longrightarrow>
      (\<forall>x\<in>set (sem_names n). sems (st w) x = None) \<and>
      sems (st wd) = (sems (st w))(c2s_items_sem n \<mapsto> 0, c2s_spaces_sem n \<mapsto> 64, s2c_items_sem n \<mapsto> 0, s2c_spaces_sem n \<mapsto> 64)"
  using sem_create [OF a] sem_create [OF b] sem_create [OF c] sem_create [OF d] dist
  by (auto simp: sem_names_def split: if_splits)

lemma create_resources_state:
  assumes "create_resources os n w = (r, w')" "distinct (sem_names n)"
  shows "create_outcome n (st w) r (st w')"
proof -
  obtain fd w1 where f: "os_shm_create os (shm_name n) w = (fd, w1)" by force
  obtain rc w2 where t: "os_ftruncate os fd w1 = (rc, w2)" by force
  obtain ok w3 where m: "os_mmap os fd w2 = (ok, w3)" by force
  obtain a wa where a: "os_sem_create os (c2s_items_sem n) 0 (os_memset_zero os w3) = (a, wa)" by force
  obtain b wb where b: "os_sem_create os (c2s_spaces_sem n) 64 wa = (b, wb)" by force
  obtain c wc where c: "os_sem_create os (s2c_items_sem n) 0 wb = (c, wc)" by force
  obtain d wd where d: "os_sem_create os (s2c_spaces_sem n) 64 wc = (d, wd)" by force
  note sc = sems_created [OF a b c d assms(2)]
  let ?h = "ShmHandles_default\<lparr>shm_fd := fd, mem := True, c2s_items := a, c2s_spaces := b, s2c_items := c, s2c_spaces := d\<rparr>"
  have k: "unat kSlotCount = 64" by (simp add: kSlotCount_def)
  show ?thesis
  proof (cases "0 \<le> fd \<and> rc = 0 \<and> ok")
    case False
    then show ?thesis
      using assms(1) f t m shm_create [OF f] truncate [OF t] map_mem [OF m]
      by (cases "st w"; cases "0 \<le> fd"; cases "rc = 0")
        (auto simp: create_resources_def Let_def create_outcome_def shm_unlink close_handles_state
          handle_count_def ShmHandles_default_def)
  next
    case True
    then have s3: "shm_name n \<notin> objs (st w)"
      "st w3 = (st w)\<lparr>objs := insert (shm_name n) (objs (st w)), held := held (st w) + 2\<rparr>"
      using shm_create [OF f] truncate [OF t] map_mem [OF m] by auto
    show ?thesis
    proof (cases "a = None \<or> b = None \<or> c = None \<or> d = None")
      case some_failed: True
      have hc: "handle_count ?h = 2 + length (filter (\<lambda>s. s \<noteq> None) [a, b, c, d])"
        using True by (simp add: handle_count_def)
      have "w' = unlink_names os n (snd (close_handles os ?h wd))" "\<exists>m. r = ResErr (io_error m)"
        using assms(1) f t m a b c d True some_failed by (auto simp: create_resources_def Let_def k)
      moreover have "st (unlink_names os n (snd (close_handles os ?h wd))) = sems_removed n (st w)"
        unfolding unlink_names_state close_handles_state
        using s3 sc(1-3) hc zero_mem [of w3]
        by (intro shm_state.equality) (auto simp: without_names_def sems_removed_def)
      ultimately show ?thesis by (auto simp: create_outcome_def)
    next
      case all_ok: False
      then have "r = ResVal ?h" "w' = wd"
        using assms(1) f t m a b c d True by (auto simp: create_resources_def Let_def k)
      moreover have "st wd = with_names n (st w)"
        using s3 sc(1,2,4) zero_mem [of w3] all_ok
        by (intro shm_state.equality) (auto simp: with_names_def)
      moreover have "names_free n (st w)"
        using s3 sc(4) zero_mem [of w3] all_ok by (simp add: names_free_def)
      ultimately show ?thesis
        using True all_ok by (simp add: create_outcome_def all_handles_def)
    qed
  qed
qed

lemma owner_close_state:
  assumes "create_outcome n (st w) (ResVal h) (st w1)" "st w2 = st w1"
  shows "st (snd (shm_close os \<lparr>handles = h, names = n, owner = True, is_client = cl\<rparr> w2)) = st w"
proof -
  have h: "all_handles h" "names_free n (st w)" "st w1 = with_names n (st w)"
    using assms(1) by (simp_all add: create_outcome_def)
  obtain h' w3 where cl: "close_handles os h w2 = (h', w3)" by force
  have "st w3 = (with_names n (st w))\<lparr>held := held (st w)\<rparr>"
    using close_handles_state [of h w2] cl h assms(2)
    by (simp add: all_handles_count with_names_def)
  then have "st (unlink_names os n w3) = (without_names n (with_names n (st w)))\<lparr>held := held (st w)\<rparr>"
    by (intro shm_state.equality) (simp_all add: unlink_names_state without_names_def cong: if_cong)
  with cl h names_round_trip [OF h(2)] show ?thesis by (simp add: shm_close_def all_handles_def)
qed

lemma open_resources_state:
  assumes "open_resources os n w = (r, w')"
  shows "case r of ResVal h \<Rightarrow> all_handles h \<and> st w' = (st w)\<lparr>held := held (st w) + 6\<rparr>
     | ResErr e \<Rightarrow> \<not> status_ok e \<and> st w' = st w"
proof -
  obtain fd w1 where f: "os_shm_open os (shm_name n) w = (fd, w1)" by force
  obtain ok w2 where m: "os_mmap os fd w1 = (ok, w2)" by force
  obtain a wa where a: "os_sem_open os (c2s_items_sem n) w2 = (a, wa)" by force
  obtain b wb where b: "os_sem_open os (c2s_spaces_sem n) wa = (b, wb)" by force
  obtain c wc where c: "os_sem_open os (s2c_items_sem n) wb = (c, wc)" by force
  obtain d wd where d: "os_sem_open os (s2c_spaces_sem n) wc = (d, wd)" by force
  note laws = shm_open [OF f] map_mem [OF m] sem_open [OF a] sem_open [OF b] sem_open [OF c] sem_open [OF d]
  show ?thesis
  proof (cases "0 \<le> fd \<and> ok")
    case False
    then show ?thesis
      using assms f m laws(1,2)
      by (cases "0 \<le> fd") (auto simp: open_resources_def Let_def close_handles_state handle_count_def
          ShmHandles_default_def)
  next
    case True
    then show ?thesis
      using assms f m a b c d laws
      by (cases a; cases b; cases c; cases d)
        (auto simp: open_resources_def Let_def close_handles_state handle_count_def ShmHandles_default_def
          all_handles_def)
  qed
qed

end

section \<open>Dialling\<close>

text \<open>Socket calls that leave \<open>f\<close> of the world alone.\<close>

definition sock_keeps :: "'w sock_sys \<Rightarrow> ('w \<Rightarrow> 'x) \<Rightarrow> bool" where
  "sock_keeps sys f \<longleftrightarrow>
     (\<forall>k w. f (snd (sys_socket sys k w)) = f w) \<and> (\<forall>fd a w. f (snd (sys_connect sys fd a w)) = f w)
     \<and> (\<forall>fd w. f (snd (sys_close sys fd w)) = f w)"

lemma sock_keepsD:
  assumes "sock_keeps sys f"
  shows "sys_socket sys k w = (fd, w') \<Longrightarrow> f w' = f w" "sys_connect sys fd a w = (er, w') \<Longrightarrow> f w' = f w"
    "f (snd (sys_close sys fd w)) = f w"
  using assms by (metis sock_keeps_def snd_conv)+

lemma shm_uds_connect_keeps:
  assumes "sock_keeps sys f" "shm_uds_connect sys path w = (r, w')"
  shows "f w' = f w"
  using assms(2) sock_keepsD [OF assms(1)]
  by (auto simp: shm_uds_connect_def close_with_def Let_def split: prod.splits if_splits)

context stream_send
begin

lemma shm_write_all_returns:
  "\<exists>s w'. shm_write_all sys osend fd p w = Some (s, w') \<and> (send_keeps osend f \<longrightarrow> f w' = f w)"
proof (induction "(p, w)" arbitrary: p w
    rule: wf_induct_rule [OF wf_measures [of "[\<lambda>(p, w). length p, \<lambda>(p, w). signals w]"]])
  case (1 p w)
  obtain r w1 where call: "osend fd p w = (r, w1)" by force
  have same: "send_keeps osend f \<longrightarrow> f w1 = f w" using send_keepsD [of osend f fd p w r w1] call by simp
  show ?case
  proof (cases "p = [] \<or> r = SendOk 0 \<or> (\<exists>er. r = SendFail er \<and> er \<noteq> EINTR)")
    case True
    with call same show ?thesis by (auto simp: shm_write_all.simps [of sys osend fd p w])
  next
    case False
    then obtain q where q: "shm_write_all sys osend fd p w = shm_write_all sys osend fd q w1"
      "((q, w1), (p, w)) \<in> measures [\<lambda>(p, w). length p, \<lambda>(p, w). signals w]"
      using call send_intr by (cases r) (auto simp: shm_write_all.simps [of sys osend fd p w])
    from 1 [OF q(2)] q(1) same show ?thesis by auto
  qed
qed

end

text \<open>
  What \<open>shm_dial\<close> leaves behind: on failure the names and handles are as before (or, if the
  semaphores could not be created, without the semaphore names); on success the returned pipe
  owns all resources, and closing it removes every one of them.
\<close>

definition dial_outcome :: "'w shm_sys \<Rightarrow> ('w \<Rightarrow> shm_state) \<Rightarrow> ShmNames \<Rightarrow> 'w \<Rightarrow> ShmPipe Result \<Rightarrow> 'w \<Rightarrow> bool" where
  "dial_outcome os st n w r w' \<longleftrightarrow>
     (case r of
        ResErr e \<Rightarrow> st w' = st w \<or> st w' = sems_removed n (st w)
      | ResVal p \<Rightarrow> owner p \<and> is_client p \<and> all_handles (handles p) \<and> st w' = with_names n (st w)
          \<and> st (snd (shm_close os p w')) = st w)"

context shm_objects
begin

lemma shm_abandon_state:
  assumes "create_outcome n (st w) (ResVal h) (st w1)" "st w2 = st w1"
  shows "st (shm_abandon os n h w2) = st w"
  using owner_close_state [OF assms, of False] assms(1)
  by (simp add: shm_close_def shm_abandon_def create_outcome_def all_handles_def split: prod.splits)

lemma shm_dial_state:
  assumes snd: "stream_send osend sent signals" "send_keeps osend st" "sock_keeps sys st"
    and n: "n = make_names nm (random_conn_id_hex16 rd1 rd2)"
  shows "\<exists>r w'. shm_dial sys os osend rd1 rd2 nm opt w = Some (r, w') \<and> dial_outcome os st n w r w'"
proof -
  let ?cid = "random_conn_id_hex16 rd1 rd2"
  obtain created w1 where c: "create_resources os n w = (created, w1)" by force
  have oc: "create_outcome n (st w) created (st w1)"
    by (rule create_resources_state [OF c]) (simp add: n sem_names_distinct)
  show ?thesis
  proof (cases created)
    case (ResErr e)
    with c oc show ?thesis by (simp add: shm_dial_def n create_outcome_def dial_outcome_def Let_def)
  next
    case (ResVal h)
    obtain cfd w2 where k: "shm_uds_connect sys (bootstrap_path n) w1 = (cfd, w2)" by force
    have s2: "st w2 = st w1" by (rule shm_uds_connect_keeps [OF snd(3) k])
    show ?thesis
    proof (cases cfd)
      case (ResErr e)
      with c k ResVal shm_abandon_state [OF oc [unfolded ResVal] s2] show ?thesis
        by (simp add: shm_dial_def n dial_outcome_def Let_def)
    next
      case fd: (ResVal fd)
      obtain s w3 where wr: "shm_write_all sys osend fd (bytes_of_string ?cid) w2 = Some (s, w3)" "st w3 = st w2"
        using stream_send.shm_write_all_returns [OF snd(1), of sys fd "bytes_of_string ?cid" w2 st] snd(2) by auto
      let ?w4 = "snd (sys_close sys fd w3)"
      have s4: "st ?w4 = st w1" using sock_keepsD(3) [OF snd(3)] wr(2) s2 by simp
      note ab = shm_abandon_state [OF oc [unfolded ResVal] s4] and cl = owner_close_state [OF oc [unfolded ResVal] s4]
      have "all_handles h" "st ?w4 = with_names n (st w)"
        using oc ResVal s4 by (simp_all add: create_outcome_def)
      with c k ResVal fd wr ab cl show ?thesis
        by (cases "status_ok s") (simp_all add: shm_dial_def n dial_outcome_def Let_def)
    qed
  qed
qed

end

text \<open>
  The pipe, with the mapped memory and the world, keeps the contract of every pipe; \<open>close\<close> uses
  the calls on shared objects, the transfers those on semaphores.
\<close>

definition shm_psend :: "'w sem_sys \<Rightarrow> (ShmPipe \<times> ShmLayout \<times> 'w) psend" where
  "shm_psend os msg opt s = (case s of (p, mw) \<Rightarrow> map_option (\<lambda>(st, mw'). (st, p, mw')) (shm_send os msg opt p mw))"

definition shm_precv :: "'w sem_sys \<Rightarrow> (ShmPipe \<times> ShmLayout \<times> 'w) precv" where
  "shm_precv os opt s = (case s of (p, mw) \<Rightarrow> map_option (\<lambda>(r, mw'). (r, p, mw')) (shm_recv os opt p mw))"

definition shm_pclose :: "'w shm_sys \<Rightarrow> ShmPipe \<times> ShmLayout \<times> 'w \<Rightarrow> ShmPipe \<times> ShmLayout \<times> 'w" where
  "shm_pclose os s = (case s of (p, m, w) \<Rightarrow> case shm_close os p w of (p', w') \<Rightarrow> (p', m, w'))"

definition shm_shut :: "ShmPipe \<times> ShmLayout \<times> 'w \<Rightarrow> bool" where
  "shm_shut s \<longleftrightarrow> \<not> mem (handles (fst s)) \<and> shm_fd (handles (fst s)) < 0"

interpretation shm_pipe: pipe "shm_psend sem" "shm_precv sem" "shm_pclose os" shm_shut "\<lambda>_. True" for sem os
  by unfold_locales
    (auto simp: shm_psend_def shm_precv_def shm_pclose_def shm_shut_def shm_close_def close_handles_def
      ShmHandles_default_def Let_def shm_send_def shm_recv_def split: prod.splits if_splits)

section \<open>Concrete systems\<close>

text \<open>Counting semaphores with a script of failures.\<close>

record sem_world =
  sem_vals :: "nat \<Rightarrow> nat"
  sem_faults :: "errno list"

definition take_unit :: "errno \<Rightarrow> nat \<Rightarrow> sem_world \<Rightarrow> errno option \<times> sem_world" where
  "take_unit er s w =
     (case sem_faults w of
        f # fs \<Rightarrow> (Some f, w\<lparr>sem_faults := fs\<rparr>)
      | [] \<Rightarrow>
          if sem_vals w s = 0 then (Some er, w)
          else (None, w\<lparr>sem_vals := (sem_vals w)(s := sem_vals w s - 1)\<rparr>))"

definition script_sems :: "sem_world sem_sys" where
  "script_sems =
     \<lparr>os_sem_wait = take_unit (EOTHER 35), os_sem_timedwait = (\<lambda>s ts. take_unit ETIMEDOUT s),
      os_sem_post = (\<lambda>s w. w\<lparr>sem_vals := (sem_vals w)(s := Suc (sem_vals w s))\<rparr>),
      os_clock_realtime = (\<lambda>w. \<lparr>tv_sec = 1000, tv_nsec = 999999999\<rparr>)\<rparr>"

interpretation counting_sems: semaphores script_sems "\<lambda>s w. sem_vals w s" "\<lambda>w. length (sem_faults w)"
  by unfold_locales
    (auto simp: script_sems_def take_unit_def split: list.splits if_splits)

text \<open>Names and handles, with a script of outcomes (\<open>False\<close>: the call fails).\<close>

record name_world =
  nstate :: shm_state
  noutcomes :: "bool list"

definition name_outcome :: "name_world \<Rightarrow> bool \<times> name_world" where
  "name_outcome w = (case noutcomes w of [] \<Rightarrow> (True, w) | b # bs \<Rightarrow> (b, w\<lparr>noutcomes := bs\<rparr>))"

definition nupd :: "(shm_state \<Rightarrow> shm_state) \<Rightarrow> name_world \<Rightarrow> name_world" where
  "nupd f w = w\<lparr>nstate := f (nstate w)\<rparr>"

definition hold :: "shm_state \<Rightarrow> shm_state" where
  "hold s = s\<lparr>held := held s + 1\<rparr>"

definition unhold :: "shm_state \<Rightarrow> shm_state" where
  "unhold s = s\<lparr>held := held s - 1\<rparr>"

definition script_shm :: "name_world shm_sys" where
  "script_shm =
     \<lparr>os_shm_create = (\<lambda>n w. case name_outcome w of (b, w') \<Rightarrow>
        if b \<and> n \<notin> objs (nstate w') then (5, nupd (\<lambda>s. hold (s\<lparr>objs := insert n (objs s)\<rparr>)) w') else (-1, w')),
      os_shm_open = (\<lambda>n w. case name_outcome w of (b, w') \<Rightarrow>
        if b \<and> n \<in> objs (nstate w') then (6, nupd hold w') else (-1, w')),
      os_ftruncate = (\<lambda>fd w. case name_outcome w of (b, w') \<Rightarrow> (if b then 0 else -1, w')),
      os_mmap = (\<lambda>fd w. case name_outcome w of (b, w') \<Rightarrow> if b then (True, nupd hold w') else (False, w')),
      os_memset_zero = (\<lambda>w. w), os_munmap = nupd unhold, os_fd_close = (\<lambda>fd. nupd unhold),
      os_sem_create = (\<lambda>n v w. case name_outcome w of (b, w') \<Rightarrow>
        if b \<and> sems (nstate w') n = None then (Some 1, nupd (\<lambda>s. hold (s\<lparr>sems := (sems s)(n \<mapsto> v)\<rparr>)) w')
        else (None, w')),
      os_sem_open = (\<lambda>n w. case name_outcome w of (b, w') \<Rightarrow>
        if b \<and> sems (nstate w') n \<noteq> None then (Some 2, nupd hold w') else (None, w')),
      os_sem_close = (\<lambda>k. nupd unhold),
      os_sem_unlink = (\<lambda>n. nupd (\<lambda>s. s\<lparr>sems := (sems s)(n := None)\<rparr>)),
      os_shm_unlink = (\<lambda>n. nupd (\<lambda>s. s\<lparr>objs := objs s - {n}\<rparr>)),
      os_errno_suffix = (\<lambda>w. '' (errno)'')\<rparr>"

lemma nstate_outcome [simp]: "name_outcome w = (b, w') \<Longrightarrow> nstate w' = nstate w"
  by (auto simp: name_outcome_def split: list.splits)

interpretation script_names: shm_objects script_shm nstate
  by unfold_locales
    (auto simp: script_shm_def nupd_def hold_def unhold_def split: prod.splits if_splits)

section \<open>Properties of the shared-memory transport\<close>

text \<open>
  Client and server of a bus derive the same names: what the server computes from its own
  (already sanitised) bus name and the connection id it received is what the client created. The
  five system names are pairwise different, 19 characters long, and the bootstrap path fits a
  Unix socket address.
\<close>

theorem shm_rendezvous:
  assumes "length cid = 16"
  shows "make_names (base (make_names nm ''0000000000000000'')) cid = make_names nm cid
     \<and> distinct (shm_name (make_names nm cid) # sem_names (make_names nm cid))
     \<and> (\<forall>x\<in>set (shm_name (make_names nm cid) # sem_names (make_names nm cid)). length x = 19)
     \<and> length (bootstrap_path (make_names nm cid)) < sun_path_size"
  using assms by (auto simp: make_names_def Let_def sem_names_def hex8_def sun_path_size_def)

text \<open>
  C17: On a mapped pipe \<open>send\<close> and \<open>recv\<close> return and implement the ring operations: a successful call
  is exactly one insertion into the sending ring (one removal from the receiving ring) and
  leaves the other direction alone; a failed call changes neither ring nor semaphore, and
  reports a timeout only when one was asked for.
\<close>

theorem shm_pipe_refines_ring:
  assumes "semaphores os val signals" "handles_ok (handles p)" "msg_size msg \<le> kSlotPayloadMax"
    and "chan_inv (chan_of val (\<not> is_client p) (handles p) mw)"
  shows "(\<exists>st mw'. shm_send os msg sopt p mw = Some (st, mw') \<and>
      (if status_ok st then
         chan_send msg (chan_of val (is_client p) (handles p) mw) = Some (chan_of val (is_client p) (handles p) mw')
         \<and> chan_of val (\<not> is_client p) (handles p) mw' = chan_of val (\<not> is_client p) (handles p) mw
       else (\<forall>d. chan_of val d (handles p) mw' = chan_of val d (handles p) mw)
         \<and> (code st = kIoError \<or> snd_timeout sopt \<noteq> 0 \<and> code st = kTimeout)))
   \<and> (\<exists>r mw'. shm_recv os ropt p mw = Some (r, mw') \<and>
      (case r of
         ResVal m \<Rightarrow>
           chan_recv (chan_of val (\<not> is_client p) (handles p) mw)
             = Some (m, chan_of val (\<not> is_client p) (handles p) mw')
           \<and> chan_of val (is_client p) (handles p) mw' = chan_of val (is_client p) (handles p) mw
       | ResErr st \<Rightarrow> (\<forall>d. chan_of val d (handles p) mw' = chan_of val d (handles p) mw)
           \<and> (code st = kIoError \<or> rcv_timeout ropt \<noteq> 0 \<and> code st = kTimeout)))"
  using semaphores.shm_send_refines [OF assms(1-3)] semaphores.shm_recv_refines [OF assms(1,2,4)] by blast


text \<open>
  A creation that fails at the semaphores removes semaphores it did not create: when a
  semaphore of the first name already exists and everything before succeeds, \<open>create_resources\<close>
  fails and that semaphore's name is gone.
\<close>

theorem create_unlinks_foreign_semaphore:
  assumes "shm_objects os st" "sems (st w) (c2s_items_sem n) = Some v"
    and "os_shm_create os (shm_name n) w = (fd, w1)" "0 \<le> fd" "os_ftruncate os fd w1 = (0, w2)"
    and "os_mmap os fd w2 = (True, w3)"
  shows "\<exists>e w'. create_resources os n w = (ResErr e, w') \<and> sems (st w') (c2s_items_sem n) = None"
proof -
  note laws = shm_objects.sem_create [OF assms(1)] shm_objects.zero_mem [OF assms(1)]
  have s3: "sems (st (os_memset_zero os w3)) (c2s_items_sem n) = Some v"
    using shm_objects.shm_create [OF assms(1,3)] shm_objects.truncate [OF assms(1,5)]
      shm_objects.map_mem [OF assms(1,6)] assms(2,4) laws(2) by simp
  obtain a wa where a: "os_sem_create os (c2s_items_sem n) 0 (os_memset_zero os w3) = (a, wa)" by force
  have "a = None" using laws(1) [OF a] s3 by (cases a) simp_all
  obtain b wb where b: "os_sem_create os (c2s_spaces_sem n) (unat kSlotCount) wa = (b, wb)" by force
  obtain c wc where c: "os_sem_create os (s2c_items_sem n) 0 wb = (c, wc)" by force
  obtain d wd where d: "os_sem_create os (s2c_spaces_sem n) (unat kSlotCount) wc = (d, wd)" by force
  have "\<exists>e w'. create_resources os n w = (ResErr e, unlink_names os n w')"
    using assms(3-6) a b c d \<open>a = None\<close> by (simp add: create_resources_def Let_def) blast
  then show ?thesis
    using shm_objects.unlink_names_state [OF assms(1)] by (auto simp: without_names_def sem_names_def)
qed

text \<open>
  The absolute deadline of a timed wait is the current time plus the timeout, normalised, for
  every non-negative timeout.
\<close>

theorem abs_timespec_exact:
  assumes "0 \<le> dur" "0 \<le> tv_nsec now" "tv_nsec now < 1000000000"
  shows "(let ts = to_abs_timespec now dur in
     tv_sec ts * 1000000000 + tv_nsec ts = tv_sec now * 1000000000 + tv_nsec now + ms_to_ns dur
     \<and> 0 \<le> tv_nsec ts \<and> tv_nsec ts < 1000000000)"
proof -
  let ?ns = "ms_to_ns dur"
  have ns: "0 \<le> ?ns" using assms(1) by (simp add: ms_to_ns_def)
  then have d: "cdiv ?ns 1000000000 = ?ns div 1000000000"
    by (simp add: cdiv_def sgn_if)
  then have m: "crem ?ns 1000000000 = ?ns mod 1000000000"
    by (simp add: crem_def minus_div_mult_eq_mod)
  obtain q r where qr: "q = ?ns div 1000000000" "r = ?ns mod 1000000000" by blast
  then have "?ns = q * 1000000000 + r" "0 \<le> r" "r < 1000000000" by simp_all
  then show ?thesis
    using assms(2,3) d m unfolding qr [symmetric] by (simp add: to_abs_timespec_def Let_def)
qed

section \<open>Concrete instances\<close>

lemma shm_rendezvous_witness:
  "make_names (base (make_names ''my-bus'' ''0000000000000000'')) ''0123456789abcdef''
     = make_names ''my-bus'' ''0123456789abcdef''"
  using shm_rendezvous [of "''0123456789abcdef''" "''my-bus''"] by simp

definition sample_handles :: ShmHandles where
  "sample_handles = \<lparr>shm_fd = 5, mem = True, c2s_items = Some 0, c2s_spaces = Some 1, s2c_items = Some 2, s2c_spaces = Some 3\<rparr>"

definition sample_world :: "ShmLayout \<times> sem_world" where
  "sample_world = (\<lparr>c2s = zero_Ring, s2c = zero_Ring\<rparr>,
     \<lparr>sem_vals = (\<lambda>s. if s = 1 \<or> s = 3 then 64 else 0), sem_faults = [EINTR]\<rparr>)"

lemma shm_pipe_refines_ring_witness:
  "\<exists>st mw'. shm_send script_sems (from_string ''hi'') \<lparr>snd_timeout = 10\<rparr>
      \<lparr>handles = sample_handles, names = make_names ''b'' ''c'', owner = True, is_client = True\<rparr> sample_world
        = Some (st, mw')"
proof -
  let ?p = "\<lparr>handles = sample_handles, names = make_names ''b'' ''c'', owner = True, is_client = True\<rparr>"
  have "handles_ok (handles ?p)" by (simp add: handles_ok_def sample_handles_def)
  moreover have "msg_size (from_string ''hi'') \<le> kSlotPayloadMax"
    by (simp add: from_string_def kSlotPayloadMax_def)
  moreover have "chan_inv (chan_of (\<lambda>s w. sem_vals w s) (\<not> is_client ?p) (handles ?p) sample_world)"
    using chan_inv_init
    by (simp add: chan_inv_def chan_of_def sample_world_def sample_handles_def tx_ring_def chan_init_def)
  ultimately show ?thesis
    using shm_pipe_refines_ring [OF counting_sems.semaphores_axioms, of ?p "from_string ''hi''" sample_world
        "\<lparr>snd_timeout = 10\<rparr>"]
    by blast
qed

text \<open>Sockets that always connect, on the world of names; the peer then resets the connection.\<close>

definition quiet_sock :: "name_world sock_sys" where
  "quiet_sock = \<lparr>sys_socket = (\<lambda>k w. (3, w)), sys_bind = (\<lambda>fd a w. (0, w)), sys_listen = (\<lambda>fd b w. (0, w)),
       sys_connect = (\<lambda>fd a w. (None, w)), sys_accept = (\<lambda>fd w. (4, w)), sys_close = (\<lambda>fd w. (0, w)),
       sys_unlink = (\<lambda>p w. (0, w)), sys_setsockopt = (\<lambda>fd n w. (0, w)), sys_so_error = (\<lambda>fd w. (Some 0, w)),
       sys_getaddrinfo = (\<lambda>h p f w. (None, w)), sys_getsockname = (\<lambda>fd w. (None, w)),
       sys_poll = (\<lambda>fd ev t w. ((0, \<lparr>pollhup = False, pollerr = False, pollnval = False\<rparr>), w)),
       sys_getfl = (\<lambda>fd w. (0, w)), sys_setfl = (\<lambda>fd fl w. (0, w)), sys_errno_text = (\<lambda>w. [])\<rparr>"

definition reset_send :: "name_world sys_send" where
  "reset_send fd p w = (SendFail (EOTHER 104), w)"


lemma create_unlinks_foreign_semaphore_witness:
  "\<exists>e w'. create_resources script_shm (make_names ''b'' ''c'')
       \<lparr>nstate = \<lparr>objs = {}, sems = (\<lambda>x. Some 7), held = 0\<rparr>, noutcomes = []\<rparr> = (ResErr e, w')
     \<and> sems (nstate w') (c2s_items_sem (make_names ''b'' ''c'')) = None"
proof -
  let ?n = "make_names ''b'' ''c''"
  let ?w = "\<lparr>nstate = \<lparr>objs = {}, sems = (\<lambda>x. Some 7), held = 0\<rparr>, noutcomes = []\<rparr>"
  obtain w1 where w1: "os_shm_create script_shm (shm_name ?n) ?w = (5, w1)" "noutcomes w1 = []"
    by (simp add: script_shm_def name_outcome_def nupd_def)
  have w2: "os_ftruncate script_shm 5 w1 = (0, w1)" using w1(2) by (simp add: script_shm_def name_outcome_def)
  obtain w3 where w3: "os_mmap script_shm 5 w1 = (True, w3)"
    using w1(2) by (simp add: script_shm_def name_outcome_def)
  show ?thesis
    by (rule create_unlinks_foreign_semaphore [OF script_names.shm_objects_axioms _ w1(1) _ w2 w3]) simp_all
qed

lemma abs_timespec_exact_witness:
  "let ts = to_abs_timespec \<lparr>tv_sec = 10, tv_nsec = 999000000\<rparr> 2500 in
     tv_sec ts * 1000000000 + tv_nsec ts = 10 * 1000000000 + 999000000 + 2500000000
     \<and> 0 \<le> tv_nsec ts \<and> tv_nsec ts < 1000000000"
  using abs_timespec_exact [of 2500 "\<lparr>tv_sec = 10, tv_nsec = 999000000\<rparr>"] by (simp add: ms_to_ns_def)

end
