(* ===== verification/Duct_Named_Pipe.thy ===== *)
theory Duct_Named_Pipe
  imports Duct_Shm
begin

text \<open>
  \<^verbatim>\<open>src/pipe_transport.cc\<close>: the Windows named-pipe transport. Handles are integers, \<open>-1\<close> is
  \<open>INVALID_HANDLE_VALUE\<close>; the Win32 calls are a record of functions on the world. The pipes are in
  message mode: a read returns one message the peer wrote, and fails when it does not fit.
\<close>

section \<open>Win32 calls\<close>

definition INVALID_HANDLE :: int where
  "INVALID_HANDLE = -1"

definition ERROR_FILE_NOT_FOUND :: nat where
  "ERROR_FILE_NOT_FOUND = 2"

definition ERROR_BROKEN_PIPE :: nat where
  "ERROR_BROKEN_PIPE = 109"

definition ERROR_TIMEOUT :: nat where
  "ERROR_TIMEOUT = 1460"

definition ERROR_PIPE_CONNECTED :: nat where
  "ERROR_PIPE_CONNECTED = 535"

text \<open>
  \<open>WriteFile\<close> returns success and the number of bytes written, \<open>ReadFile\<close> success and the bytes read;
  \<open>np_error\<close> is \<open>GetLastError\<close>.
\<close>

record 'w np_sys =
  np_write :: "int \<Rightarrow> byte_seq \<Rightarrow> 'w \<Rightarrow> (bool \<times> nat) \<times> 'w"
  np_read :: "int \<Rightarrow> nat \<Rightarrow> 'w \<Rightarrow> (bool \<times> byte_seq) \<times> 'w"
  np_close_handle :: "int \<Rightarrow> 'w \<Rightarrow> 'w"
  np_create :: "string \<Rightarrow> 'w \<Rightarrow> int \<times> 'w"
  np_connect :: "int \<Rightarrow> 'w \<Rightarrow> bool \<times> 'w"
  np_wait :: "string \<Rightarrow> nat \<Rightarrow> 'w \<Rightarrow> bool \<times> 'w"
  np_open :: "string \<Rightarrow> 'w \<Rightarrow> int \<times> 'w"
  np_set_mode :: "int \<Rightarrow> 'w \<Rightarrow> bool \<times> 'w"
  np_error :: "'w \<Rightarrow> nat"

section \<open>Names\<close>

definition kPipeBufferSize :: nat where
  "kPipeBufferSize = 64 * 1024"

definition kDefaultTimeoutMs :: nat where
  "kDefaultTimeoutMs = 5000"

definition np_char :: "char \<Rightarrow> bool" where
  "np_char c \<longleftrightarrow> name_char c \<or> c = CHR ''-''"

definition np_sanitize_name :: "string \<Rightarrow> string" where
  "np_sanitize_name s =
     (let out = map (\<lambda>c. if np_char c then c else CHR ''_'') s
      in if out = [] then ''duct'' else out)"

definition pipe_prefix :: string where
  "pipe_prefix = [CHR 0x5C, CHR 0x5C, CHR ''.'', CHR 0x5C] @ ''pipe'' @ [CHR 0x5C] @ ''duct_''"

definition make_pipe_path :: "string \<Rightarrow> string" where
  "make_pipe_path nm = pipe_prefix @ np_sanitize_name nm"

lemma np_sanitize_idem [simp]: "np_sanitize_name (np_sanitize_name s) = np_sanitize_name s"
  by (auto simp: np_sanitize_name_def Let_def np_char_def name_char_def)

lemma np_sanitize_nonempty [simp]: "np_sanitize_name s \<noteq> []"
  by (simp add: np_sanitize_name_def Let_def)

section \<open>The pipe\<close>

record NamedPipePipe =
  np_handle :: int
  np_is_server :: bool

definition mk_NamedPipePipe :: "int \<Rightarrow> bool \<Rightarrow> NamedPipePipe" where
  "mk_NamedPipePipe handle is_server = \<lparr>np_handle = handle, np_is_server = is_server\<rparr>"

lemma np_handle_mk [simp]: "np_handle (mk_NamedPipePipe h b) = h" "np_is_server (mk_NamedPipePipe h b) = b"
  by (simp_all add: mk_NamedPipePipe_def)

text \<open>A size cast to \<open>DWORD\<close>.\<close>

definition dword :: "int \<Rightarrow> nat" where
  "dword n = unat (of_int n :: u32)"

definition np_failed :: "'w np_sys \<Rightarrow> string \<Rightarrow> 'w \<Rightarrow> Status" where
  "np_failed sys what w =
     (if np_error sys w = ERROR_BROKEN_PIPE then closed_status ''pipe closed''
      else io_error (what @ '' failed with error: '' @ to_string_nat (np_error sys w)))"

definition np_send ::
  "endian \<Rightarrow> 'w np_sys \<Rightarrow> Message \<Rightarrow> SendOptions \<Rightarrow> NamedPipePipe \<times> 'w \<Rightarrow> Status \<times> NamedPipePipe \<times> 'w" where
  "np_send e sys msg opt pw =
     (case pw of (p, w) \<Rightarrow>
        if np_handle p = INVALID_HANDLE then (closed_status ''pipe closed'', p, w)
        else
          let hdr = encode_header e (frame_header msg 0) (replicate kHeaderLen 0)
          in case np_write sys (np_handle p) hdr w of ((ok, n), w1) \<Rightarrow>
            if \<not> ok \<or> n \<noteq> kHeaderLen then (np_failed sys ''WriteFile header'' w1, p, w1)
            else if msg_size msg > 0 then
              (case np_write sys (np_handle p) (take (dword (int (msg_size msg))) (view msg)) w1 of ((ok, n), w2) \<Rightarrow>
                 if \<not> ok \<or> n \<noteq> dword (int (msg_size msg)) then (np_failed sys ''WriteFile payload'' w2, p, w2)
                 else (Status_Ok, p, w2))
            else (Status_Ok, p, w1))"

definition np_recv ::
  "endian \<Rightarrow> 'w np_sys \<Rightarrow> RecvOptions \<Rightarrow> NamedPipePipe \<times> 'w \<Rightarrow> Message Result \<times> NamedPipePipe \<times> 'w" where
  "np_recv e sys opt pw =
     (case pw of (p, w) \<Rightarrow>
        if np_handle p = INVALID_HANDLE then (ResErr (closed_status ''pipe closed''), p, w)
        else case np_read sys (np_handle p) kHeaderLen w of ((ok, hdr), w1) \<Rightarrow>
          if \<not> ok then (ResErr (np_failed sys ''ReadFile header'' w1), p, w1)
          else if length hdr \<noteq> kHeaderLen then
            (ResErr (io_error (''incomplete header read: '' @ to_string_nat (length hdr) @ '' bytes'')), p, w1)
          else case decode_header e hdr of
            ResErr s \<Rightarrow> (ResErr s, p, w1)
          | ResVal h \<Rightarrow>
              let len = unat (payload_len h)
              in if len > kMaxFramePayload then
                   (ResErr (protocol_error (''payload too large: '' @ to_string_nat len @ '' bytes'')), p, w1)
                 else if len > 0 then
                   (case np_read sys (np_handle p) len w1 of ((ok, buf), w2) \<Rightarrow>
                      if \<not> ok then (ResErr (np_failed sys ''ReadFile payload'' w2), p, w2)
                      else if length buf \<noteq> len then
                        (ResErr (io_error (''incomplete payload read: '' @ to_string_nat (length buf) @ '' / ''
                           @ to_string_nat len @ '' bytes'')), p, w2)
                      else (ResVal (from_bytes buf len), p, w2))
                 else (ResVal (from_bytes [] 0), p, w1))"

definition np_close :: "'w np_sys \<Rightarrow> NamedPipePipe \<times> 'w \<Rightarrow> NamedPipePipe \<times> 'w" where
  "np_close sys pw =
     (case pw of (p, w) \<Rightarrow>
        if np_handle p \<noteq> INVALID_HANDLE
        then (p\<lparr>np_handle := INVALID_HANDLE\<rparr>, np_close_handle sys (np_handle p) w) else (p, w))"

section \<open>Listener and dial\<close>

record NamedPipeListener =
  npl_path :: string
  npl_backlog :: int

definition mk_NamedPipeListener :: "string \<Rightarrow> int \<Rightarrow> NamedPipeListener" where
  "mk_NamedPipeListener pipe_path n = \<lparr>npl_path = pipe_path, npl_backlog = n\<rparr>"

definition np_accept :: "'w np_sys \<Rightarrow> NamedPipeListener \<Rightarrow> 'w \<Rightarrow> NamedPipePipe Result \<times> 'w" where
  "np_accept sys l w =
     (case np_create sys (npl_path l) w of (h, w1) \<Rightarrow>
        if h = INVALID_HANDLE then
          (ResErr (io_error (''CreateNamedPipe failed with error: '' @ to_string_nat (np_error sys w1))), w1)
        else case np_connect sys h w1 of (cn, w2) \<Rightarrow>
          if \<not> cn \<and> np_error sys w2 \<noteq> ERROR_PIPE_CONNECTED then
            (ResErr (io_error (''ConnectNamedPipe failed with error: '' @ to_string_nat (np_error sys w2))),
             np_close_handle sys h w2)
          else (ResVal (mk_NamedPipePipe h True), w2))"

text \<open>The listener holds no handle between two calls, so closing it does nothing.\<close>

definition np_listener_close :: "NamedPipeListener \<times> 'w \<Rightarrow> NamedPipeListener \<times> 'w" where
  "np_listener_close lw = lw"

definition np_local_address :: "NamedPipeListener \<Rightarrow> string Result" where
  "np_local_address l =
     (if find_sub pipe_prefix (npl_path l) = Some 0
      then ResVal (''pipe://'' @ drop (length pipe_prefix) (npl_path l)) else ResVal ''pipe://unknown'')"

definition pipe_listen :: "string \<Rightarrow> ListenOptions \<Rightarrow> NamedPipeListener Result" where
  "pipe_listen nm opt = ResVal (mk_NamedPipeListener (make_pipe_path nm) (backlog opt))"

definition pipe_dial :: "'w np_sys \<Rightarrow> string \<Rightarrow> DialOptions \<Rightarrow> 'w \<Rightarrow> NamedPipePipe Result \<times> 'w" where
  "pipe_dial sys nm opt w =
     (let path = make_pipe_path nm;
          t = dword (dial_timeout opt);
          t = (if t = 0 then kDefaultTimeoutMs else t)
      in case np_wait sys path t w of (ready, w1) \<Rightarrow>
        if \<not> ready then
          (ResErr (if np_error sys w1 = ERROR_FILE_NOT_FOUND then io_error ''named pipe not found''
             else if np_error sys w1 = ERROR_TIMEOUT then timeout_status ''timeout waiting for named pipe''
             else io_error (''WaitNamedPipe failed with error: '' @ to_string_nat (np_error sys w1))), w1)
        else case np_open sys path w1 of (h, w2) \<Rightarrow>
          if h = INVALID_HANDLE then
            (ResErr (io_error (''CreateFile failed with error: '' @ to_string_nat (np_error sys w2))), w2)
          else case np_set_mode sys h w2 of (ok, w3) \<Rightarrow>
            if \<not> ok then
              (ResErr (io_error (''SetNamedPipeHandleState failed with error: '' @ to_string_nat (np_error sys w3))),
               np_close_handle sys h w3)
            else (ResVal (mk_NamedPipePipe h False), w3))"

section \<open>Contracts of the calls\<close>

text \<open>
  Message mode: a successful write is one message for the peer; a read takes the next message when
  it fits the buffer, and when it does not, fails after taking the part that fits.
\<close>

locale message_pipe =
  fixes sys :: "'w np_sys"
    and outq :: "int \<Rightarrow> 'w \<Rightarrow> byte_seq list"
    and inq :: "int \<Rightarrow> 'w \<Rightarrow> byte_seq list"
  assumes write_ok: "np_write sys h bs w = ((True, n), w') \<Longrightarrow> n = length bs \<Longrightarrow>
      outq h w' = outq h w @ [bs]"
    and write_keeps: "np_write sys h bs w = (r, w') \<Longrightarrow> inq h' w' = inq h' w"
    and read_next: "inq h w = m # rest \<Longrightarrow> length m \<le> n \<Longrightarrow>
      \<exists>w'. np_read sys h n w = ((True, m), w') \<and> inq h w' = rest"
    and read_large: "inq h w = m # rest \<Longrightarrow> n < length m \<Longrightarrow>
      \<exists>w'. np_read sys h n w = ((False, take n m), w') \<and> inq h w' = drop n m # rest
        \<and> np_error sys w' = 234"

locale win_handles =
  fixes sys :: "'w np_sys"
    and open_handles :: "'w \<Rightarrow> int set"
  assumes create_handle: "np_create sys path w = (h, w') \<Longrightarrow>
      (if h = -1 then open_handles w' = open_handles w
       else h \<notin> open_handles w \<and> open_handles w' = insert h (open_handles w))"
    and open_handle: "np_open sys path w = (h, w') \<Longrightarrow>
      (if h = -1 then open_handles w' = open_handles w
       else h \<notin> open_handles w \<and> open_handles w' = insert h (open_handles w))"
    and close_handle: "open_handles (np_close_handle sys h w) = open_handles w - {h}"
    and connect_keeps: "open_handles (snd (np_connect sys h w)) = open_handles w"
    and wait_keeps: "open_handles (snd (np_wait sys path t w)) = open_handles w"
    and mode_keeps: "open_handles (snd (np_set_mode sys h w)) = open_handles w"

text \<open>The messages a frame is made of.\<close>

definition np_records :: "Message \<Rightarrow> byte_seq list" where
  "np_records msg = net_header (frame_header msg 0) # (if msg_size msg > 0 then [view msg] else [])"

lemma dword_small: "n < 2 ^ 32 \<Longrightarrow> dword (int n) = n"
  by (simp add: dword_def unat_of_nat_small unsigned_of_nat take_bit_nat_eq_self)

context message_pipe
begin

lemma np_send_records:
  assumes "np_handle p \<noteq> INVALID_HANDLE" "wf_Message m" "msg_size m < 2 ^ 32"
    and "np_send e sys m opt (p, w) = (st, p', w')" "status_ok st"
  shows "p' = p \<and> outq (np_handle p) w' = outq (np_handle p) w @ np_records m
     \<and> inq (np_handle p) w' = inq (np_handle p) w"
proof -
  have view: "take (dword (int (msg_size m))) (view m) = view m"
    using dword_small [OF assms(3)] assms(2) by simp
  have hdr: "encode_header e (frame_header m 0) (replicate kHeaderLen 0) = net_header (frame_header m 0)"
    by (simp add: encode_header_net kHeaderLen_def)
  have fail: "\<not> status_ok (np_failed sys what x)" for what x by (simp add: np_failed_def status_ok_def)
  obtain ok n w1 where w1: "np_write sys (np_handle p) (net_header (frame_header m 0)) w = ((ok, n), w1)"
    by (metis surj_pair)
  obtain ok2 n2 w2 where w2: "np_write sys (np_handle p) (view m) w1 = ((ok2, n2), w2)" by (metis surj_pair)
  show ?thesis
    using assms w1 w2 view hdr fail write_ok [of "np_handle p" "net_header (frame_header m 0)" w n w1]
      write_ok [of "np_handle p" "view m" w1 n2 w2] write_keeps [OF w1] write_keeps [OF w2] dword_small [OF assms(3)]
    by (auto simp: np_send_def Let_def np_records_def kHeaderLen_def split: if_splits)
qed

lemma np_recv_record:
  assumes "np_handle p \<noteq> INVALID_HANDLE" "wf_Message m" "msg_size m \<le> kMaxFramePayload"
    and "inq (np_handle p) w = np_records m @ rest"
  shows "\<exists>m' w'. np_recv e sys opt (p, w) = (ResVal m', p, w') \<and> view m' = view m
     \<and> inq (np_handle p) w' = rest"
proof -
  let ?h = "np_handle p" and ?hd = "net_header (frame_header m 0)"
  obtain w1 where w1: "np_read sys ?h kHeaderLen w = ((True, ?hd), w1)"
    "inq ?h w1 = (if msg_size m > 0 then [view m] else []) @ rest"
    using read_next [of ?h w ?hd _ kHeaderLen] assms(4) by (fastforce simp: np_records_def kHeaderLen_def)
  have dec: "decode_header e ?hd = ResVal (frame_header m 0)"
    using assms(3) by (simp add: decode_header_iff acceptable_frame_header kHeaderLen_def)
  show ?thesis
  proof (cases "msg_size m = 0")
    case True
    then have "view m = []" using assms(2) by (metis length_0_conv length_view)
    with True assms(1) w1 dec show ?thesis
      by (simp add: np_recv_def Let_def kHeaderLen_def frame_header_def)
  next
    case False
    with w1 obtain w2 where "np_read sys ?h (msg_size m) w1 = ((True, view m), w2)" "inq ?h w2 = rest"
      using read_next [of ?h w1 "view m" rest "msg_size m"] assms(2) by auto
    with False assms w1 dec show ?thesis
      by (simp add: np_recv_def Let_def kHeaderLen_def kMaxFramePayload_def)
  qed
qed

lemma np_recv_oversize:
  assumes "np_handle p \<noteq> INVALID_HANDLE" "kMaxFramePayload < msg_size m" "msg_size m < 2 ^ 32"
    and "inq (np_handle p) w = np_records m @ rest"
  shows "\<exists>s w'. np_recv e sys opt (p, w) = (ResErr s, p, w') \<and> code s = kProtocolError
     \<and> inq (np_handle p) w' = view m # rest"
proof -
  let ?h = "np_handle p" and ?hd = "net_header (frame_header m 0)"
  obtain w1 where w1: "np_read sys ?h kHeaderLen w = ((True, ?hd), w1)" "inq ?h w1 = view m # rest"
    using read_next [of ?h w ?hd _ kHeaderLen] assms(2,4) by (fastforce simp: np_records_def kHeaderLen_def)
  have "unat (payload_len (frame_header m 0)) = msg_size m"
    using assms(3) by (simp add: frame_header_def unsigned_of_nat take_bit_nat_eq_self)
  then have "\<exists>s. decode_header e ?hd = ResErr s \<and> code s = kProtocolError"
    using assms(2) by (simp add: decode_header_net Let_def frame_header_def kHeaderLen_def)
  with w1 assms(1) show ?thesis by (auto simp: np_recv_def kHeaderLen_def)
qed

end

context win_handles
begin

lemma np_accept_handles:
  "case np_accept sys l w of (r, w') \<Rightarrow>
     (case r of ResVal p \<Rightarrow> np_handle p \<notin> open_handles w \<and> open_handles w' = insert (np_handle p) (open_handles w)
        | ResErr s \<Rightarrow> open_handles w' = open_handles w)"
proof -
  obtain h w1 where c: "np_create sys (npl_path l) w = (h, w1)" by force
  obtain b w2 where d: "np_connect sys h w1 = (b, w2)" by force
  show ?thesis using c d create_handle [OF c] connect_keeps [of h w1] close_handle [of h w2]
    by (auto simp: np_accept_def INVALID_HANDLE_def split: if_splits)
qed

lemma pipe_dial_handles:
  "case pipe_dial sys nm opt w of (r, w') \<Rightarrow>
     (case r of ResVal p \<Rightarrow> np_handle p \<notin> open_handles w \<and> open_handles w' = insert (np_handle p) (open_handles w)
        | ResErr s \<Rightarrow> open_handles w' = open_handles w)"
proof -
  let ?path = "make_pipe_path nm" and ?t = "dword (dial_timeout opt)"
  obtain b w1 where a: "np_wait sys ?path (if ?t = 0 then kDefaultTimeoutMs else ?t) w = (b, w1)" by force
  obtain h w2 where c: "np_open sys ?path w1 = (h, w2)" by force
  obtain b2 w3 where d: "np_set_mode sys h w2 = (b2, w3)" by force
  have "open_handles w1 = open_handles w" "open_handles w3 = open_handles w2"
    using a d wait_keeps [of ?path _ w] mode_keeps [of h w2] by (metis snd_conv)+
  with a c d open_handle [OF c] close_handle [of h w3] show ?thesis
    by (simp add: pipe_dial_def Let_def INVALID_HANDLE_def split: if_splits)
qed

end

text \<open>Closing a named pipe keeps the contract of every pipe.\<close>

definition np_closed :: "NamedPipePipe \<times> 'w \<Rightarrow> bool" where
  "np_closed pw \<longleftrightarrow> np_handle (fst pw) = INVALID_HANDLE"

interpretation np_pipe: pipe "\<lambda>m opt pw. Some (np_send e sys m opt pw)" "\<lambda>opt pw. Some (np_recv e sys opt pw)"
  "np_close sys" np_closed "\<lambda>_. True" for e sys
  by unfold_locales (auto simp: np_closed_def np_send_def np_recv_def np_close_def split: prod.splits)

section \<open>A scripted system\<close>

text \<open>Both ends in one world: what is written to a handle can be read from it; two handles exist.\<close>

record np_world =
  npw_out :: "byte_seq list"
  npw_in :: "byte_seq list"
  npw_open :: "int set"
  npw_error :: nat

definition loop_np :: "np_world np_sys" where
  "loop_np =
     \<lparr>np_write = (\<lambda>h bs w. ((True, length bs), w\<lparr>npw_out := npw_out w @ [bs]\<rparr>)),
      np_read = (\<lambda>h n w. case npw_in w of
           [] \<Rightarrow> ((False, []), w\<lparr>npw_error := ERROR_BROKEN_PIPE\<rparr>)
         | m # rest \<Rightarrow> if length m \<le> n then ((True, m), w\<lparr>npw_in := rest\<rparr>)
             else ((False, take n m), w\<lparr>npw_in := drop n m # rest, npw_error := 234\<rparr>)),
      np_close_handle = (\<lambda>h w. w\<lparr>npw_open := npw_open w - {h}\<rparr>),
      np_create = (\<lambda>path w. if 5 \<in> npw_open w then (-1, w) else (5, w\<lparr>npw_open := insert 5 (npw_open w)\<rparr>)),
      np_connect = (\<lambda>h w. (False, w\<lparr>npw_error := ERROR_PIPE_CONNECTED\<rparr>)),
      np_wait = (\<lambda>path t w. (True, w)),
      np_open = (\<lambda>path w. if 6 \<in> npw_open w then (-1, w) else (6, w\<lparr>npw_open := insert 6 (npw_open w)\<rparr>)),
      np_set_mode = (\<lambda>h w. (False, w)),
      np_error = npw_error\<rparr>"

interpretation loop_messages: message_pipe loop_np "\<lambda>h. npw_out" "\<lambda>h. npw_in"
  by unfold_locales (auto simp: loop_np_def)

interpretation loop_handles: win_handles loop_np npw_open
  by unfold_locales (auto simp: loop_np_def split: if_splits)

section \<open>Properties of the named-pipe transport\<close>


text \<open>
  Accepting and dialling never leak a handle: one new handle on success, none on any failure.
\<close>

theorem named_pipe_no_leak:
  assumes "win_handles sys open_handles"
  shows "(case np_accept sys l w of (r, w') \<Rightarrow>
       (case r of ResVal p \<Rightarrow> np_handle p \<notin> open_handles w \<and> open_handles w' = insert (np_handle p) (open_handles w)
          | ResErr s \<Rightarrow> open_handles w' = open_handles w))
   \<and> (case pipe_dial sys nm opt w of (r, w') \<Rightarrow>
       (case r of ResVal p \<Rightarrow> np_handle p \<notin> open_handles w \<and> open_handles w' = insert (np_handle p) (open_handles w)
          | ResErr s \<Rightarrow> open_handles w' = open_handles w))"
  by (intro conjI win_handles.np_accept_handles [OF assms] win_handles.pipe_dial_handles [OF assms])

text \<open>
  The sender does not check the size: the frame of a larger message is rejected by the receiver, which
  leaves the payload in the pipe, where the next \<open>recv\<close> takes it for a header.
\<close>

theorem named_pipe_oversize:
  assumes "message_pipe sys outq inq" "np_handle q \<noteq> INVALID_HANDLE"
    and "kMaxFramePayload < msg_size m" "msg_size m < 2 ^ 32"
    and "inq (np_handle q) u = np_records m @ rest"
  shows "\<exists>s u'. np_recv e sys ropt (q, u) = (ResErr s, q, u') \<and> code s = kProtocolError
     \<and> inq (np_handle q) u' = view m # rest"
  using message_pipe.np_recv_oversize [OF assms] .


lemma named_pipe_no_leak_witness:
  "case pipe_dial loop_np ''x'' DialOptions_default \<lparr>npw_out = [], npw_in = [], npw_open = {1}, npw_error = 0\<rparr> of
     (r, w') \<Rightarrow> (case r of ResVal p \<Rightarrow> npw_open w' = insert (np_handle p) {1} | ResErr s \<Rightarrow> npw_open w' = {1})"
  using named_pipe_no_leak [OF loop_handles.win_handles_axioms,
      where w = "\<lparr>npw_out = [], npw_in = [], npw_open = {1}, npw_error = 0\<rparr>" and nm = "''x''" and opt = DialOptions_default]
  by (auto split: prod.splits Result.splits)

end
