(* ===== verification/Duct_Win_Shm.thy ===== *)
theory Duct_Win_Shm
  imports Duct_Named_Pipe
begin

text \<open>
  \<^verbatim>\<open>src/win_shm.cc\<close>: the shared-memory transport of the Windows build. The rings are the same code as
  in the POSIX transport and the file's own copies of the name helpers compute the same strings; the
  kernel objects and the rendezvous over a named pipe differ. Handles are integers: \<open>-1\<close> is
  \<open>INVALID_HANDLE_VALUE\<close>, \<open>0\<close> is \<open>NULL\<close>.
\<close>

section \<open>Names\<close>

definition win_sanitize_name :: "string \<Rightarrow> string" where
  "win_sanitize_name s =
     (let out = foldl (\<lambda>out c. if name_char c then out @ [c] else out @ ''_'') [] s
      in if out = [] then ''duct'' else out)"

definition win_random_conn_id_hex16 :: "u32 \<Rightarrow> u32 \<Rightarrow> string" where
  "win_random_conn_id_hex16 rd1 rd2 =
     hex_digits 16 (unat (push_bit 32 (ucast rd1 :: u64) XOR (ucast rd2 :: u64)))"

definition win_fnv1a_32 :: "string \<Rightarrow> u32" where
  "win_fnv1a_32 s = foldl (\<lambda>h c. (h XOR of_nat (of_char c)) * 16777619) 2166136261 s"

definition win_hex8 :: "u32 \<Rightarrow> string" where
  "win_hex8 v = hex_digits 8 (unat v)"

definition make_win_name :: "string \<Rightarrow> string \<Rightarrow> string" where
  "make_win_name pre suf = ''Duct_'' @ pre @ ''_'' @ suf"

record WinNames =
  wn_base :: string
  wn_connid :: string
  wn_shm :: string
  wn_c2s_items :: string
  wn_c2s_spaces :: string
  wn_s2c_items :: string
  wn_s2c_spaces :: string
  wn_bootstrap :: string

definition win_make_names :: "string \<Rightarrow> string \<Rightarrow> WinNames" where
  "win_make_names bus_name cid =
     (let b = win_sanitize_name bus_name;
          hash8 = win_hex8 (win_fnv1a_32 b);
          conn8 = take 8 cid;
          pre = ''d'' @ hash8 @ conn8
      in \<lparr>wn_base = b, wn_connid = cid, wn_shm = make_win_name pre ''shm'',
          wn_c2s_items = make_win_name pre ''c2i'', wn_c2s_spaces = make_win_name pre ''c2s'',
          wn_s2c_items = make_win_name pre ''s2i'', wn_s2c_spaces = make_win_name pre ''s2s'',
          wn_bootstrap = [CHR 0x5C, CHR 0x5C, CHR ''.'', CHR 0x5C] @ ''pipe'' @ [CHR 0x5C] @ ''duct_shm_'' @ hash8\<rparr>)"

lemma win_sanitize_loop:
  "foldl (\<lambda>out c. if name_char c then out @ [c] else out @ ''_'') acc s
     = acc @ map (\<lambda>c. if name_char c then c else CHR ''_'') s"
  by (induction s arbitrary: acc) simp_all

lemma win_name_helpers [simp]:
  "win_sanitize_name = sanitize_name" "win_random_conn_id_hex16 = random_conn_id_hex16"
  "win_fnv1a_32 = fnv1a_32" "win_hex8 = hex8"
  by (auto simp: fun_eq_iff win_sanitize_name_def sanitize_name_def win_sanitize_loop win_random_conn_id_hex16_def
      random_conn_id_hex16_def win_fnv1a_32_def fnv1a_32_def foldl_conv_fold win_hex8_def hex8_def)

section \<open>Kernel objects\<close>

datatype wait_ret = WAIT_OBJECT_0 | WAIT_TIMEOUT | WAIT_FAILED

text \<open>
  File mappings and semaphores are created or opened by name (\<open>0\<close> on failure); a wait has a time
  limit or none; \<open>ws_tick\<close> is \<open>GetTickCount64\<close>.
\<close>

record 'w win_sys =
  ws_np :: "'w np_sys"
  ws_create_bootstrap :: "string \<Rightarrow> 'w \<Rightarrow> int \<times> 'w"
  ws_create_mapping :: "string \<Rightarrow> 'w \<Rightarrow> int \<times> 'w"
  ws_open_mapping :: "string \<Rightarrow> 'w \<Rightarrow> int \<times> 'w"
  ws_map_view :: "int \<Rightarrow> 'w \<Rightarrow> bool \<times> 'w"
  ws_unmap :: "'w \<Rightarrow> 'w"
  ws_zero :: "'w \<Rightarrow> 'w"
  ws_create_sem :: "string \<Rightarrow> nat \<Rightarrow> nat \<Rightarrow> 'w \<Rightarrow> int \<times> 'w"
  ws_open_sem :: "string \<Rightarrow> 'w \<Rightarrow> int \<times> 'w"
  ws_wait :: "int \<Rightarrow> nat option \<Rightarrow> 'w \<Rightarrow> wait_ret \<times> 'w"
  ws_release :: "int \<Rightarrow> 'w \<Rightarrow> bool \<times> 'w"
  ws_sleep1 :: "'w \<Rightarrow> 'w"
  ws_tick :: "'w \<Rightarrow> nat"

record WinHandles =
  wh_shm :: int
  wh_mem :: bool
  wh_c2s_items :: int
  wh_c2s_spaces :: int
  wh_s2c_items :: int
  wh_s2c_spaces :: int

definition no_WinHandles :: WinHandles where
  "no_WinHandles =
     \<lparr>wh_shm = INVALID_HANDLE, wh_mem = False, wh_c2s_items = INVALID_HANDLE, wh_c2s_spaces = INVALID_HANDLE,
      wh_s2c_items = INVALID_HANDLE, wh_s2c_spaces = INVALID_HANDLE\<rparr>"

definition close_valid :: "'w win_sys \<Rightarrow> int \<Rightarrow> 'w \<Rightarrow> 'w" where
  "close_valid ws h w = (if h \<noteq> INVALID_HANDLE then np_close_handle (ws_np ws) h w else w)"

definition win_close_handles :: "'w win_sys \<Rightarrow> WinHandles \<Rightarrow> 'w \<Rightarrow> WinHandles \<times> 'w" where
  "win_close_handles ws h w =
     (let unmap = wh_mem h \<and> wh_shm h \<noteq> INVALID_HANDLE;
          w1 = (if unmap then ws_unmap ws w else w);
          w2 = close_valid ws (wh_shm h) w1;
          w3 = close_valid ws (wh_c2s_items h) w2;
          w4 = close_valid ws (wh_c2s_spaces h) w3;
          w5 = close_valid ws (wh_s2c_items h) w4;
          w6 = close_valid ws (wh_s2c_spaces h) w5
      in (no_WinHandles\<lparr>wh_mem := wh_mem h \<and> \<not> unmap\<rparr>, w6))"

definition wait_handle_opt :: "'w win_sys \<Rightarrow> int \<Rightarrow> millis \<Rightarrow> 'w \<Rightarrow> Status \<times> 'w" where
  "wait_handle_opt ws h timeout w =
     (case ws_wait ws h (if timeout = 0 then None else Some (dword timeout)) w of (r, w') \<Rightarrow>
        (case r of
           WAIT_OBJECT_0 \<Rightarrow> Status_Ok
         | WAIT_TIMEOUT \<Rightarrow> timeout_status ''wait timeout''
         | WAIT_FAILED \<Rightarrow> io_error ''WaitForSingleObject failed'', w'))"

definition some_null :: "WinHandles \<Rightarrow> bool" where
  "some_null h \<longleftrightarrow> wh_c2s_items h = 0 \<or> wh_c2s_spaces h = 0 \<or> wh_s2c_items h = 0 \<or> wh_s2c_spaces h = 0"

text \<open>The end of both functions: fail and close everything if a semaphore is missing.\<close>

definition check_sems :: "'w win_sys \<Rightarrow> string \<Rightarrow> WinHandles \<Rightarrow> 'w \<Rightarrow> WinHandles Result \<times> 'w" where
  "check_sems ws what h w =
     (if some_null h then
        (ResErr (io_error (what @ '' failed with error: '' @ to_string_nat (np_error (ws_np ws) w))),
         snd (win_close_handles ws h w))
      else (ResVal h, w))"

definition win_create_resources :: "'w win_sys \<Rightarrow> WinNames \<Rightarrow> 'w \<Rightarrow> WinHandles Result \<times> 'w" where
  "win_create_resources ws n w =
     (case ws_create_mapping ws (wn_shm n) w of (m, w1) \<Rightarrow>
        if m = 0 then
          (ResErr (io_error (''CreateFileMapping failed with error: '' @ to_string_nat (np_error (ws_np ws) w1))), w1)
        else case ws_map_view ws m w1 of (mapped, w2) \<Rightarrow>
          if \<not> mapped then
            (ResErr (io_error ''MapViewOfFile failed''), snd (win_close_handles ws (no_WinHandles\<lparr>wh_shm := m\<rparr>) w2))
          else
            let w3 = ws_zero ws w2;
                mx = unat kSlotCount
            in case ws_create_sem ws (wn_c2s_items n) 0 mx w3 of (a, w4) \<Rightarrow>
               case ws_create_sem ws (wn_c2s_spaces n) mx mx w4 of (b, w5) \<Rightarrow>
               case ws_create_sem ws (wn_s2c_items n) 0 mx w5 of (c, w6) \<Rightarrow>
               case ws_create_sem ws (wn_s2c_spaces n) mx mx w6 of (d, w7) \<Rightarrow>
                 check_sems ws ''CreateSemaphore''
                   \<lparr>wh_shm = m, wh_mem = True, wh_c2s_items = a, wh_c2s_spaces = b, wh_s2c_items = c,
                    wh_s2c_spaces = d\<rparr> w7)"

definition win_open_resources :: "'w win_sys \<Rightarrow> WinNames \<Rightarrow> 'w \<Rightarrow> WinHandles Result \<times> 'w" where
  "win_open_resources ws n w =
     (case ws_open_mapping ws (wn_shm n) w of (m, w1) \<Rightarrow>
        if m = 0 then
          (ResErr (io_error (''OpenFileMapping failed with error: '' @ to_string_nat (np_error (ws_np ws) w1))), w1)
        else case ws_map_view ws m w1 of (mapped, w2) \<Rightarrow>
          if \<not> mapped then
            (ResErr (io_error ''MapViewOfFile failed''), snd (win_close_handles ws (no_WinHandles\<lparr>wh_shm := m\<rparr>) w2))
          else
            case ws_open_sem ws (wn_c2s_items n) w2 of (a, w4) \<Rightarrow>
            case ws_open_sem ws (wn_c2s_spaces n) w4 of (b, w5) \<Rightarrow>
            case ws_open_sem ws (wn_s2c_items n) w5 of (c, w6) \<Rightarrow>
            case ws_open_sem ws (wn_s2c_spaces n) w6 of (d, w7) \<Rightarrow>
              check_sems ws ''OpenSemaphore''
                \<lparr>wh_shm = m, wh_mem = True, wh_c2s_items = a, wh_c2s_spaces = b, wh_s2c_items = c,
                 wh_s2c_spaces = d\<rparr> w7)"

section \<open>The pipe\<close>

record WinShmPipe =
  wp_handles :: WinHandles
  wp_names :: WinNames
  wp_owner :: bool
  wp_is_client :: bool

definition win_items :: "bool \<Rightarrow> WinHandles \<Rightarrow> int" where
  "win_items dir h = (if dir then wh_c2s_items h else wh_s2c_items h)"

definition win_spaces :: "bool \<Rightarrow> WinHandles \<Rightarrow> int" where
  "win_spaces dir h = (if dir then wh_c2s_spaces h else wh_s2c_spaces h)"

definition win_send ::
  "'w win_sys \<Rightarrow> Message \<Rightarrow> SendOptions \<Rightarrow> WinShmPipe \<Rightarrow> ShmLayout \<times> 'w \<Rightarrow> Status \<times> ShmLayout \<times> 'w" where
  "win_send ws msg opt p mw =
     (case mw of (m, w) \<Rightarrow>
        if \<not> wh_mem (wp_handles p) then (closed_status ''pipe closed'', m, w)
        else if msg_size msg > kSlotPayloadMax then
          (invalid_argument ''message too large; fragmentation TODO'', m, w)
        else
          let dir = wp_is_client p
          in case wait_handle_opt ws (win_spaces dir (wp_handles p)) (snd_timeout opt) w of (st, w1) \<Rightarrow>
            if \<not> status_ok st then (st, m, w1)
            else
              let m' = set_tx_ring dir (publish (write_slot msg (tx_ring dir m))) m
              in case ws_release ws (win_items dir (wp_handles p)) w1 of (ok, w2) \<Rightarrow>
                   (if ok then Status_Ok
                    else io_error (''ReleaseSemaphore(items) failed with error: ''
                           @ to_string_nat (np_error (ws_np ws) w2)), m', w2))"

definition win_recv ::
  "'w win_sys \<Rightarrow> RecvOptions \<Rightarrow> WinShmPipe \<Rightarrow> ShmLayout \<times> 'w \<Rightarrow> Message Result \<times> ShmLayout \<times> 'w" where
  "win_recv ws opt p mw =
     (case mw of (m, w) \<Rightarrow>
        if \<not> wh_mem (wp_handles p) then (ResErr (closed_status ''pipe closed''), m, w)
        else
          let dir = (\<not> wp_is_client p)
          in case wait_handle_opt ws (win_items dir (wp_handles p)) (rcv_timeout opt) w of (st, w1) \<Rightarrow>
            if \<not> status_ok st then (ResErr st, m, w1)
            else case read_slot (tx_ring dir m) of
              ResErr s \<Rightarrow> (ResErr s, m, w1)
            | ResVal msg \<Rightarrow>
                let m' = set_tx_ring dir (release (tx_ring dir m)) m
                in case ws_release ws (win_spaces dir (wp_handles p)) w1 of (ok, w2) \<Rightarrow>
                     (if ok then ResVal msg
                      else ResErr (io_error (''ReleaseSemaphore(spaces) failed with error: ''
                             @ to_string_nat (np_error (ws_np ws) w2))), m', w2))"

definition win_close :: "'w win_sys \<Rightarrow> WinShmPipe \<Rightarrow> 'w \<Rightarrow> WinShmPipe \<times> 'w" where
  "win_close ws p w =
     (if \<not> wh_mem (wp_handles p) \<and> wh_shm (wp_handles p) = INVALID_HANDLE then (p, w)
      else case win_close_handles ws (wp_handles p) w of (h, w') \<Rightarrow> (p\<lparr>wp_handles := h\<rparr>, w'))"

section \<open>Listener and dial\<close>

definition ERROR_PIPE_BUSY :: nat where
  "ERROR_PIPE_BUSY = 231"

definition create_bootstrap_pipe :: "'w win_sys \<Rightarrow> string \<Rightarrow> 'w \<Rightarrow> int Result \<times> 'w" where
  "create_bootstrap_pipe ws path w =
     (case ws_create_bootstrap ws path w of (h, w1) \<Rightarrow>
        (if h = INVALID_HANDLE
         then ResErr (io_error (''CreateNamedPipe failed with error: '' @ to_string_nat (np_error (ws_np ws) w1)))
         else ResVal h, w1))"

record WinShmListener =
  wl_names :: WinNames
  wl_pipe :: int

text \<open>The old pipe instance is closed and a new one made, if possible.\<close>

definition renew_pipe :: "'w win_sys \<Rightarrow> WinShmListener \<Rightarrow> 'w \<Rightarrow> WinShmListener \<times> 'w" where
  "renew_pipe ws l w =
     (case create_bootstrap_pipe ws (wn_bootstrap (wl_names l)) (np_close_handle (ws_np ws) (wl_pipe l) w) of
        (r, w') \<Rightarrow> (l\<lparr>wl_pipe := (case r of ResVal h \<Rightarrow> h | ResErr _ \<Rightarrow> INVALID_HANDLE)\<rparr>, w'))"

definition win_accept :: "'w win_sys \<Rightarrow> WinShmListener \<Rightarrow> 'w \<Rightarrow> WinShmPipe Result \<times> WinShmListener \<times> 'w" where
  "win_accept ws l w =
     (if wl_pipe l = INVALID_HANDLE then (ResErr (closed_status ''listener closed''), l, w)
      else case np_connect (ws_np ws) (wl_pipe l) w of (cn, w1) \<Rightarrow>
        if \<not> cn \<and> np_error (ws_np ws) w1 \<noteq> ERROR_PIPE_CONNECTED then
          (case renew_pipe ws l w1 of (l', w2) \<Rightarrow> (ResErr (io_error ''ConnectNamedPipe failed''), l', w2))
        else case np_read (ws_np ws) (wl_pipe l) 16 w1 of ((ok, cid), w2) \<Rightarrow>
          case renew_pipe ws l w2 of (l', w3) \<Rightarrow>
            if \<not> ok \<or> length cid \<noteq> 16 then (ResErr (io_error ''Failed to read connection ID''), l', w3)
            else
              let n = win_make_names (wn_base (wl_names l)) (string_of_bytes cid)
              in case win_open_resources ws n w3 of (r, w4) \<Rightarrow>
                   (case r of
                      ResErr s \<Rightarrow> ResErr s
                    | ResVal h \<Rightarrow>
                        ResVal \<lparr>wp_handles = h, wp_names = n, wp_owner = False, wp_is_client = False\<rparr>, l', w4))"

definition win_local_address :: "WinShmListener \<Rightarrow> string Result" where
  "win_local_address l = ResVal (''shm://'' @ wn_base (wl_names l))"

definition win_listener_close :: "'w win_sys \<Rightarrow> WinShmListener \<Rightarrow> 'w \<Rightarrow> WinShmListener \<times> 'w" where
  "win_listener_close ws l w =
     (if wl_pipe l \<noteq> INVALID_HANDLE
      then (l\<lparr>wl_pipe := INVALID_HANDLE\<rparr>, np_close_handle (ws_np ws) (wl_pipe l) w) else (l, w))"

definition win_shm_listen :: "'w win_sys \<Rightarrow> string \<Rightarrow> ListenOptions \<Rightarrow> 'w \<Rightarrow> WinShmListener Result \<times> 'w" where
  "win_shm_listen ws nm opt w =
     (let n = win_make_names nm ''0000000000000000''
      in case create_bootstrap_pipe ws (wn_bootstrap n) w of (r, w1) \<Rightarrow>
           (case r of ResErr s \<Rightarrow> ResErr s | ResVal h \<Rightarrow> ResVal \<lparr>wl_names = n, wl_pipe = h\<rparr>, w1))"

definition kDefaultDialTimeoutMs :: nat where
  "kDefaultDialTimeoutMs = 5000"

text \<open>The loop that connects to the bootstrap pipe, until \<open>limit\<close> milliseconds after \<open>start\<close>.\<close>

partial_function (option) bootstrap_connect ::
  "'w win_sys \<Rightarrow> string \<Rightarrow> nat \<Rightarrow> nat \<Rightarrow> 'w \<Rightarrow> (int Result \<times> 'w) option" where
  "bootstrap_connect ws path limit start w =
     (case np_open (ws_np ws) path w of (h, w1) \<Rightarrow>
        if h \<noteq> INVALID_HANDLE then Some (ResVal h, w1)
        else
          let err = np_error (ws_np ws) w1;
              elapsed = ws_tick ws w1 - start
          in if elapsed \<ge> limit then
               Some (ResErr (timeout_status ''timeout connecting to shm bootstrap pipe''), w1)
             else if err = ERROR_PIPE_BUSY then
               (case np_wait (ws_np ws) path (limit - elapsed) w1 of (ok, w2) \<Rightarrow>
                  if \<not> ok then Some (ResErr (timeout_status ''timeout connecting to shm bootstrap pipe''), w2)
                  else bootstrap_connect ws path limit start w2)
             else if err = ERROR_FILE_NOT_FOUND then bootstrap_connect ws path limit start (ws_sleep1 ws w1)
             else Some (ResErr (io_error (''Failed to connect to named pipe with error: '' @ to_string_nat err)), w1))"

definition win_shm_dial ::
  "'w win_sys \<Rightarrow> u32 \<Rightarrow> u32 \<Rightarrow> string \<Rightarrow> DialOptions \<Rightarrow> 'w \<Rightarrow> (WinShmPipe Result \<times> 'w) option" where
  "win_shm_dial ws rd1 rd2 nm opt w =
     (let cid = win_random_conn_id_hex16 rd1 rd2;
          n = win_make_names nm cid
      in case win_create_resources ws n w of (cr, w1) \<Rightarrow>
        (case cr of
           ResErr s \<Rightarrow> Some (ResErr s, w1)
         | ResVal h \<Rightarrow>
             let limit = (if dial_timeout opt = 0 then kDefaultDialTimeoutMs else dword (dial_timeout opt))
             in case bootstrap_connect ws (wn_bootstrap n) limit (ws_tick ws w1) w1 of
                  None \<Rightarrow> None
                | Some (ResErr s, w2) \<Rightarrow> Some (ResErr s, snd (win_close_handles ws h w2))
                | Some (ResVal bp, w2) \<Rightarrow>
                    (case np_write (ws_np ws) bp (bytes_of_string cid) w2 of ((ok, k), w3) \<Rightarrow>
                       let w4 = np_close_handle (ws_np ws) bp w3
                       in if \<not> ok \<or> k \<noteq> length cid then
                            Some (ResErr (io_error ''Failed to send connection ID''), snd (win_close_handles ws h w4))
                          else Some (ResVal \<lparr>wp_handles = h, wp_names = n, wp_owner = True, wp_is_client = True\<rparr>, w4))))"

section \<open>Contracts of the kernel objects\<close>

text \<open>What a call that may open a handle does; \<open>null\<close> is the value that reports its failure.\<close>

definition may_open :: "('w \<Rightarrow> int set) \<Rightarrow> int \<Rightarrow> int \<times> 'w \<Rightarrow> 'w \<Rightarrow> bool" where
  "may_open open_handles null r w \<longleftrightarrow>
     (if fst r = null then open_handles (snd r) = open_handles w
      else fst r \<noteq> 0 \<and> fst r \<noteq> -1 \<and> fst r \<notin> open_handles w \<and> open_handles (snd r) = insert (fst r) (open_handles w))"

text \<open>
  Handles of the process, and time: \<open>rounds t w\<close> bounds how many more attempts fit before the clock
  shows \<open>t\<close>, and decreases with every attempt.
\<close>

locale win_objects = win_handles "ws_np ws" open_handles
  for ws :: "'w win_sys" and open_handles :: "'w \<Rightarrow> int set" +
  fixes rounds :: "nat \<Rightarrow> 'w \<Rightarrow> nat"
  assumes null_closed: "0 \<notin> open_handles w" "-1 \<notin> open_handles w"
    and create_mapping: "may_open open_handles 0 (ws_create_mapping ws nm w) w"
    and open_mapping: "may_open open_handles 0 (ws_open_mapping ws nm w) w"
    and create_sem: "may_open open_handles 0 (ws_create_sem ws nm i mx w) w"
    and open_sem: "may_open open_handles 0 (ws_open_sem ws nm w) w"
    and create_bootstrap: "may_open open_handles (-1) (ws_create_bootstrap ws nm w) w"
    and map_keeps: "open_handles (snd (ws_map_view ws h w)) = open_handles w"
    and unmap_keeps: "open_handles (ws_unmap ws w) = open_handles w"
    and zero_keeps: "open_handles (ws_zero ws w) = open_handles w"
    and sleep_keeps: "open_handles (ws_sleep1 ws w) = open_handles w"
    and write_keeps: "open_handles (snd (np_write (ws_np ws) h bs w)) = open_handles w"
    and read_keeps: "open_handles (snd (np_read (ws_np ws) h k w)) = open_handles w"
    and open_not_null: "fst (np_open (ws_np ws) nm w) \<noteq> 0"
    and sleep_passes: "np_open (ws_np ws) nm w = (-1, w1) \<Longrightarrow> ws_tick ws w1 < t \<Longrightarrow>
      rounds t (ws_sleep1 ws w1) < rounds t w"
    and wait_passes: "np_open (ws_np ws) nm w = (-1, w1) \<Longrightarrow> ws_tick ws w1 < t \<Longrightarrow>
      np_wait (ws_np ws) nm k w1 = (True, w2) \<Longrightarrow> rounds t w2 < rounds t w"

text \<open>Semaphores with the maximal count of the rings: a release fails only at the maximum.\<close>

locale win_semaphores =
  fixes ws :: "'w win_sys"
    and val :: "int \<Rightarrow> 'w \<Rightarrow> nat"
  assumes wait_takes: "ws_wait ws s t w = (WAIT_OBJECT_0, w') \<Longrightarrow>
      val s w = Suc (val s w') \<and> (\<forall>x. x \<noteq> s \<longrightarrow> val x w' = val x w)"
    and wait_fails: "ws_wait ws s t w = (r, w') \<Longrightarrow> r \<noteq> WAIT_OBJECT_0 \<Longrightarrow> val x w' = val x w"
    and wait_forever: "ws_wait ws s None w = (r, w') \<Longrightarrow> r \<noteq> WAIT_TIMEOUT"
    and release_adds: "ws_release ws s w = (True, w') \<Longrightarrow> val x w' = (if x = s then Suc (val x w) else val x w)"
    and release_full: "ws_release ws s w = (False, w') \<Longrightarrow> 64 \<le> val s w"

section \<open>The pipe implements the rings\<close>

definition win_chan :: "(int \<Rightarrow> 'w \<Rightarrow> nat) \<Rightarrow> bool \<Rightarrow> WinHandles \<Rightarrow> ShmLayout \<times> 'w \<Rightarrow> ring_chan" where
  "win_chan val dir h mw =
     \<lparr>ch_ring = tx_ring dir (fst mw), ch_items = val (win_items dir h) (snd mw),
      ch_spaces = val (win_spaces dir h) (snd mw)\<rparr>"

definition win_handles_ok :: "WinHandles \<Rightarrow> bool" where
  "win_handles_ok h \<longleftrightarrow>
     wh_mem h \<and> distinct [wh_c2s_items h, wh_c2s_spaces h, wh_s2c_items h, wh_s2c_spaces h]"

lemma win_handles_distinct:
  "win_handles_ok h \<Longrightarrow> win_items d h \<noteq> win_spaces d' h"
  "win_handles_ok h \<Longrightarrow> win_items d h = win_items d' h \<longleftrightarrow> d = d'"
  "win_handles_ok h \<Longrightarrow> win_spaces d h = win_spaces d' h \<longleftrightarrow> d = d'"
  by (auto simp: win_handles_ok_def win_items_def win_spaces_def)

context win_semaphores
begin

lemma wait_handle_outcome:
  "wait_handle_opt ws s t w = (st, w') \<Longrightarrow> wait_outcome val s (t \<noteq> 0) w st w'"
  using wait_takes [of s "if t = 0 then None else Some (dword t)" w w'] wait_fails [of s _ w] wait_forever [of s w]
  by (cases "fst (ws_wait ws s (if t = 0 then None else Some (dword t)) w)")
    (fastforce simp: wait_handle_opt_def wait_outcome_def status_ok_def Status_Ok_def split: prod.splits if_splits)+

lemma win_send_refines:
  assumes "win_handles_ok (wp_handles p)" "msg_size msg \<le> kSlotPayloadMax"
    and "chan_inv (win_chan val (wp_is_client p) (wp_handles p) mw)" "win_send ws msg opt p mw = (st, mw')"
  shows "if status_ok st then
       chan_send msg (win_chan val (wp_is_client p) (wp_handles p) mw)
         = Some (win_chan val (wp_is_client p) (wp_handles p) mw')
       \<and> win_chan val (\<not> wp_is_client p) (wp_handles p) mw' = win_chan val (\<not> wp_is_client p) (wp_handles p) mw
     else (\<forall>d. win_chan val d (wp_handles p) mw' = win_chan val d (wp_handles p) mw)
       \<and> (code st = kIoError \<or> snd_timeout opt \<noteq> 0 \<and> code st = kTimeout)"
proof -
  obtain m w where mw: "mw = (m, w)" by force
  let ?h = "wp_handles p" and ?d = "wp_is_client p"
  obtain s1 w1 where r: "wait_handle_opt ws (win_spaces ?d ?h) (snd_timeout opt) w = (s1, w1)" by force
  note o = wait_handle_outcome [OF r]
  obtain ok w2 where rel: "ws_release ws (win_items ?d ?h) w1 = (ok, w2)" by force
  note ds = win_handles_distinct [OF assms(1)]
  show ?thesis
  proof (cases "status_ok s1")
    case False
    with r mw assms o show ?thesis
      by (auto simp: win_send_def Let_def win_chan_def wait_outcome_def win_handles_ok_def)
  next
    case True
    with o have taken: "val (win_spaces ?d ?h) w = Suc (val (win_spaces ?d ?h) w1)"
      "x \<noteq> win_spaces ?d ?h \<Longrightarrow> val x w1 = val x w" for x by (simp_all add: wait_outcome_def)
    have "val (win_items ?d ?h) w1 < 64" using assms(3) taken(1) taken(2) [OF ds(1)] mw
      by (simp add: chan_inv_def win_chan_def)
    then have ok: "ok" using release_full [of "win_items ?d ?h" w1 w2] rel by (cases ok) auto
    then have "val x w2 = (if x = win_items ?d ?h then Suc (val x w1) else val x w1)" for x
      using release_adds rel by simp
    with True ok r rel mw assms taken ds ds(1) [THEN not_sym] show ?thesis
      by (auto simp: win_send_def Let_def win_chan_def chan_send_def win_handles_ok_def)
  qed
qed

end

context win_semaphores
begin

lemma win_recv_refines:
  assumes "win_handles_ok (wp_handles p)"
    and "chan_inv (win_chan val (\<not> wp_is_client p) (wp_handles p) mw)" "win_recv ws opt p mw = (r, mw')"
  shows "case r of
       ResVal msg \<Rightarrow>
         chan_recv (win_chan val (\<not> wp_is_client p) (wp_handles p) mw)
           = Some (msg, win_chan val (\<not> wp_is_client p) (wp_handles p) mw')
         \<and> win_chan val (wp_is_client p) (wp_handles p) mw' = win_chan val (wp_is_client p) (wp_handles p) mw
     | ResErr st \<Rightarrow> (\<forall>d. win_chan val d (wp_handles p) mw' = win_chan val d (wp_handles p) mw)
         \<and> (code st = kIoError \<or> rcv_timeout opt \<noteq> 0 \<and> code st = kTimeout)"
proof -
  obtain m w where mw: "mw = (m, w)" by force
  let ?h = "wp_handles p" and ?d = "\<not> wp_is_client p"
  obtain s1 w1 where wt: "wait_handle_opt ws (win_items ?d ?h) (rcv_timeout opt) w = (s1, w1)" by force
  note o = wait_handle_outcome [OF wt]
  obtain ok w2 where rel: "ws_release ws (win_spaces ?d ?h) w1 = (ok, w2)" by force
  note ds = win_handles_distinct [OF assms(1)]
  obtain t where "tail (tx_ring ?d m) = of_nat t" using u32_as_of_nat by blast
  then obtain msg where msg: "read_slot (tx_ring ?d m) = ResVal msg"
    using read_slot_payload assms(2) mw by (auto simp: chan_inv_def win_chan_def)
  show ?thesis
  proof (cases "status_ok s1")
    case False
    with wt mw assms o show ?thesis
      by (auto simp: win_recv_def Let_def win_chan_def wait_outcome_def win_handles_ok_def)
  next
    case True
    with o have taken: "val (win_items ?d ?h) w = Suc (val (win_items ?d ?h) w1)"
      "x \<noteq> win_items ?d ?h \<Longrightarrow> val x w1 = val x w" for x by (simp_all add: wait_outcome_def)
    have "val (win_spaces ?d ?h) w1 < 64" using assms(2) taken(1) taken(2) [OF ds(1) [THEN not_sym]] mw
      by (simp add: chan_inv_def win_chan_def)
    then have ok: "ok" using release_full [of "win_spaces ?d ?h" w1 w2] rel by (cases ok) auto
    then have "val x w2 = (if x = win_spaces ?d ?h then Suc (val x w1) else val x w1)" for x
      using release_adds rel by simp
    moreover have "win_recv ws opt p mw = (ResVal msg, set_tx_ring ?d (release (tx_ring ?d m)) m, w2)"
      using True ok wt rel mw assms(1) msg by (simp add: win_recv_def Let_def win_handles_ok_def)
    then have "r = ResVal msg" "mw' = (set_tx_ring ?d (release (tx_ring ?d m)) m, w2)" using assms(3) by simp_all
    ultimately show ?thesis
      using mw msg taken ds ds(1) [THEN not_sym] by (auto simp: win_chan_def chan_recv_def)
  qed
qed

end

section \<open>It is a pipe\<close>

text \<open>The pipe with the mapped memory and the world; a mapping always has its handle.\<close>

definition win_psend :: "'w win_sys \<Rightarrow> (WinShmPipe \<times> ShmLayout \<times> 'w) psend" where
  "win_psend ws msg opt s = (case s of (p, mw) \<Rightarrow> case win_send ws msg opt p mw of (st, mw') \<Rightarrow> Some (st, p, mw'))"

definition win_precv :: "'w win_sys \<Rightarrow> (WinShmPipe \<times> ShmLayout \<times> 'w) precv" where
  "win_precv ws opt s = (case s of (p, mw) \<Rightarrow> case win_recv ws opt p mw of (r, mw') \<Rightarrow> Some (r, p, mw'))"

definition win_pclose :: "'w win_sys \<Rightarrow> WinShmPipe \<times> ShmLayout \<times> 'w \<Rightarrow> WinShmPipe \<times> ShmLayout \<times> 'w" where
  "win_pclose ws s = (case s of (p, m, w) \<Rightarrow> case win_close ws p w of (p', w') \<Rightarrow> (p', m, w'))"

definition win_shut :: "WinShmPipe \<times> ShmLayout \<times> 'w \<Rightarrow> bool" where
  "win_shut s \<longleftrightarrow> \<not> wh_mem (wp_handles (fst s)) \<and> wh_shm (wp_handles (fst s)) = INVALID_HANDLE"

definition win_mapped :: "WinShmPipe \<times> ShmLayout \<times> 'w \<Rightarrow> bool" where
  "win_mapped s \<longleftrightarrow> (wh_mem (wp_handles (fst s)) \<longrightarrow> wh_shm (wp_handles (fst s)) \<noteq> INVALID_HANDLE)"

interpretation win_pipe: pipe "win_psend ws" "win_precv ws" "win_pclose ws" win_shut win_mapped for ws
  by unfold_locales
    (auto simp: win_psend_def win_precv_def win_pclose_def win_shut_def win_mapped_def win_close_def
      win_close_handles_def no_WinHandles_def Let_def win_send_def win_recv_def split: prod.splits if_splits)

section \<open>Handles\<close>

definition win_handle_list :: "WinHandles \<Rightarrow> int list" where
  "win_handle_list h = [wh_shm h, wh_c2s_items h, wh_c2s_spaces h, wh_s2c_items h, wh_s2c_spaces h]"

text \<open>Handles opened one after another, starting from a given set, are new and different.\<close>

definition grown :: "('w \<Rightarrow> int set) \<Rightarrow> int set \<Rightarrow> int list \<Rightarrow> 'w \<Rightarrow> bool" where
  "grown open_handles B hs w \<longleftrightarrow>
     open_handles w = B \<union> (set hs - {0}) \<and> (set hs - {0}) \<inter> B = {} \<and> distinct (filter ((\<noteq>) 0) hs)"

context win_objects
begin

lemma close_valid_handles: "open_handles (close_valid ws h w) = open_handles w - {h}"
  using null_closed(2) by (auto simp: close_valid_def INVALID_HANDLE_def close_handle)

lemma win_close_handles_handles:
  "open_handles (snd (win_close_handles ws h w)) = open_handles w - set (win_handle_list h)"
  by (auto simp: win_close_handles_def Let_def close_valid_handles unmap_keeps win_handle_list_def)

lemma grown_open:
  assumes "grown open_handles B hs w" "may_open open_handles 0 (h, w') w"
  shows "grown open_handles B (hs @ [h]) w'"
proof (cases "h = 0")
  case True
  with assms show ?thesis by (simp add: grown_def may_open_def)
next
  case False
  with assms(2) have "h \<notin> open_handles w" "open_handles w' = insert h (open_handles w)"
    by (simp_all add: may_open_def)
  with assms(1) False show ?thesis by (auto simp: grown_def insert_Diff_if)
qed

lemma grown_keep: "grown open_handles B hs w \<Longrightarrow> open_handles w' = open_handles w \<Longrightarrow> grown open_handles B hs w'"
  by (simp add: grown_def)

lemma grown_close:
  assumes "grown open_handles B (win_handle_list h) w"
  shows "open_handles (snd (win_close_handles ws h w)) = B"
proof -
  have "0 \<notin> B" using assms null_closed(1) [of w] by (auto simp: grown_def)
  with assms show ?thesis unfolding win_close_handles_handles grown_def by blast
qed

lemma check_sems_handles:
  assumes "grown open_handles B (win_handle_list h) w" "wh_shm h \<noteq> 0" "check_sems ws what h w = (r, w')"
  shows "case r of ResErr s \<Rightarrow> open_handles w' = B
     | ResVal h' \<Rightarrow> h' = h \<and> 0 \<notin> set (win_handle_list h) \<and> grown open_handles B (win_handle_list h) w'"
proof (cases "some_null h")
  case True
  with assms(3) grown_close [OF assms(1)] show ?thesis by (auto simp: check_sems_def)
next
  case False
  then have "0 \<notin> set (win_handle_list h)" using assms(2) by (simp add: some_null_def win_handle_list_def)
  with False assms(1,3) show ?thesis by (auto simp: check_sems_def)
qed

lemma mapping_failed:
  assumes "grown open_handles B [m] w1" "m \<noteq> 0" "open_handles w2 = open_handles w1"
  shows "open_handles (snd (win_close_handles ws (no_WinHandles\<lparr>wh_shm := m\<rparr>) w2)) = B"
proof -
  have "set (win_handle_list (no_WinHandles\<lparr>wh_shm := m\<rparr>)) = {m, -1}"
    by (simp add: win_handle_list_def no_WinHandles_def INVALID_HANDLE_def insert_commute)
  moreover have "open_handles w2 = insert m B" "m \<notin> B" using assms by (simp_all add: grown_def)
  moreover have "-1 \<notin> open_handles w2" by (rule null_closed)
  ultimately show ?thesis by (auto simp: win_close_handles_handles)
qed

lemma opens_grown:
  assumes "may_open open_handles 0 (m, w1) w" "open_handles w3 = open_handles w1"
    "may_open open_handles 0 (s1, w4) w3" "may_open open_handles 0 (s2, w5) w4"
    "may_open open_handles 0 (s3, w6) w5" "may_open open_handles 0 (s4, w7) w6"
  shows "grown open_handles (open_handles w) [m] w1"
    and "grown open_handles (open_handles w) [m, s1, s2, s3, s4] w7"
proof -
  have "grown open_handles (open_handles w) [] w" by (simp add: grown_def)
  from grown_open [OF this assms(1)] show g: "grown open_handles (open_handles w) [m] w1" by simp
  from grown_open [OF grown_open [OF grown_open [OF grown_open [OF grown_keep [OF g assms(2)] assms(3)] assms(4)]
    assms(5)] assms(6)]
  show "grown open_handles (open_handles w) [m, s1, s2, s3, s4] w7" by simp
qed

text \<open>What both functions promise: all five handles, new and different, or none.\<close>

lemma win_resources_handles:
  assumes m: "may_open open_handles 0 (m, w1) w" "open_handles w2 = open_handles w1" "open_handles w3 = open_handles w2"
    and s: "may_open open_handles 0 (s1, w4) w3" "may_open open_handles 0 (s2, w5) w4"
    "may_open open_handles 0 (s3, w6) w5" "may_open open_handles 0 (s4, w7) w6"
    and r: "(r, w') =
      (if m = 0 then (ResErr e1, w1)
       else if \<not> b then (ResErr e2, snd (win_close_handles ws (no_WinHandles\<lparr>wh_shm := m\<rparr>) w2))
       else check_sems ws what \<lparr>wh_shm = m, wh_mem = True, wh_c2s_items = s1, wh_c2s_spaces = s2,
         wh_s2c_items = s3, wh_s2c_spaces = s4\<rparr> w7)"
  shows "case r of ResErr _ \<Rightarrow> open_handles w' = open_handles w
     | ResVal h \<Rightarrow> wh_mem h \<and> 0 \<notin> set (win_handle_list h)
         \<and> grown open_handles (open_handles w) (win_handle_list h) w'"
proof -
  have w31: "open_handles w3 = open_handles w1" using m(2,3) by simp
  note g = opens_grown [OF m(1) w31 s]
  let ?h = "\<lparr>wh_shm = m, wh_mem = True, wh_c2s_items = s1, wh_c2s_spaces = s2, wh_s2c_items = s3, wh_s2c_spaces = s4\<rparr>"
  consider "m = 0" | "m \<noteq> 0" "\<not> b" | "m \<noteq> 0" b by blast
  then show ?thesis
  proof cases
    case 1
    with r m(1) show ?thesis by (simp add: may_open_def)
  next
    case 2
    with r mapping_failed [OF g(1) 2(1) m(2)] show ?thesis by simp
  next
    case 3
    moreover have "grown open_handles (open_handles w) (win_handle_list ?h) w7" using g(2) by (simp add: win_handle_list_def)
    ultimately show ?thesis
      using r check_sems_handles [of "open_handles w" ?h w7 what r w'] by (auto split: Result.splits)
  qed
qed

lemma win_create_handles:
  assumes "win_create_resources ws n w = (r, w')"
  shows "case r of ResErr _ \<Rightarrow> open_handles w' = open_handles w
     | ResVal h \<Rightarrow> wh_mem h \<and> 0 \<notin> set (win_handle_list h)
         \<and> grown open_handles (open_handles w) (win_handle_list h) w'"
proof -
  let ?mx = "unat kSlotCount"
  obtain m w1 where m: "ws_create_mapping ws (wn_shm n) w = (m, w1)" by force
  obtain b w2 where b: "ws_map_view ws m w1 = (b, w2)" by force
  obtain s1 w4 where s1: "ws_create_sem ws (wn_c2s_items n) 0 ?mx (ws_zero ws w2) = (s1, w4)" by force
  obtain s2 w5 where s2: "ws_create_sem ws (wn_c2s_spaces n) ?mx ?mx w4 = (s2, w5)" by force
  obtain s3 w6 where s3: "ws_create_sem ws (wn_s2c_items n) 0 ?mx w5 = (s3, w6)" by force
  obtain s4 w7 where s4: "ws_create_sem ws (wn_s2c_spaces n) ?mx ?mx w6 = (s4, w7)" by force
  note d = create_mapping [of "wn_shm n" w, unfolded m] map_keeps [of m w1, unfolded b snd_conv] zero_keeps [of w2]
    create_sem [of "wn_c2s_items n" 0 ?mx "ws_zero ws w2", unfolded s1] create_sem [of "wn_c2s_spaces n" ?mx ?mx w4, unfolded s2]
    create_sem [of "wn_s2c_items n" 0 ?mx w5, unfolded s3] create_sem [of "wn_s2c_spaces n" ?mx ?mx w6, unfolded s4]
  show ?thesis
    by (rule win_resources_handles [OF d, where b = b, OF assms [symmetric, unfolded win_create_resources_def Let_def m b s1 s2 s3 s4 prod.case]])
qed

lemma win_open_handles:
  assumes "win_open_resources ws n w = (r, w')"
  shows "case r of ResErr _ \<Rightarrow> open_handles w' = open_handles w
     | ResVal h \<Rightarrow> wh_mem h \<and> 0 \<notin> set (win_handle_list h)
         \<and> grown open_handles (open_handles w) (win_handle_list h) w'"
proof -
  obtain m w1 where m: "ws_open_mapping ws (wn_shm n) w = (m, w1)" by force
  obtain b w2 where b: "ws_map_view ws m w1 = (b, w2)" by force
  obtain s1 w4 where s1: "ws_open_sem ws (wn_c2s_items n) w2 = (s1, w4)" by force
  obtain s2 w5 where s2: "ws_open_sem ws (wn_c2s_spaces n) w4 = (s2, w5)" by force
  obtain s3 w6 where s3: "ws_open_sem ws (wn_s2c_items n) w5 = (s3, w6)" by force
  obtain s4 w7 where s4: "ws_open_sem ws (wn_s2c_spaces n) w6 = (s4, w7)" by force
  note d = open_mapping [of "wn_shm n" w, unfolded m] map_keeps [of m w1, unfolded b snd_conv] refl [of "open_handles w2"]
    open_sem [of "wn_c2s_items n" w2, unfolded s1] open_sem [of "wn_c2s_spaces n" w4, unfolded s2]
    open_sem [of "wn_s2c_items n" w5, unfolded s3] open_sem [of "wn_s2c_spaces n" w6, unfolded s4]
  show ?thesis
    by (rule win_resources_handles [OF d, where b = b, OF assms [symmetric, unfolded win_open_resources_def m b s1 s2 s3 s4 prod.case]])
qed

lemma bootstrap_connect_returns:
  "\<exists>r w'. bootstrap_connect ws path limit start w = Some (r, w') \<and>
     (case r of ResErr s \<Rightarrow> \<not> status_ok s \<and> open_handles w' = open_handles w
      | ResVal h \<Rightarrow> h \<notin> open_handles w \<and> open_handles w' = insert h (open_handles w))"
proof (induction "rounds (start + limit) w" arbitrary: w rule: less_induct)
  case less
  obtain h w1 where o: "np_open (ws_np ws) path w = (h, w1)" by force
  obtain ok w2 where wt: "np_wait (ws_np ws) path (limit - (ws_tick ws w1 - start)) w1 = (ok, w2)" by force
  have w2: "open_handles w2 = open_handles w1" using wait_keeps wt by (metis snd_conv)
  show ?case
  proof (cases "h = -1")
    case False
    with o open_handle [OF o] show ?thesis
      by (simp add: bootstrap_connect.simps [of ws path limit start w] INVALID_HANDLE_def)
  next
    case True
    then have w1: "open_handles w1 = open_handles w" using open_handle [OF o] by simp
    show ?thesis
    proof (cases "ws_tick ws w1 - start \<ge> limit")
      case late: True
      with True o w1 show ?thesis
        by (simp add: bootstrap_connect.simps [of ws path limit start w] INVALID_HANDLE_def status_ok_def)
    next
      case False
      then have t: "ws_tick ws w1 < start + limit" by simp
      have sl: "rounds (start + limit) (ws_sleep1 ws w1) < rounds (start + limit) w"
        using sleep_passes o True t by blast
      have wa: "ok \<Longrightarrow> rounds (start + limit) w2 < rounds (start + limit) w"
        using wait_passes [OF _ t] o True wt by (cases ok) auto
      consider "np_error (ws_np ws) w1 = ERROR_PIPE_BUSY" ok | "np_error (ws_np ws) w1 = ERROR_PIPE_BUSY" "\<not> ok"
        | "np_error (ws_np ws) w1 \<noteq> ERROR_PIPE_BUSY" "np_error (ws_np ws) w1 = ERROR_FILE_NOT_FOUND"
        | "np_error (ws_np ws) w1 \<noteq> ERROR_PIPE_BUSY" "np_error (ws_np ws) w1 \<noteq> ERROR_FILE_NOT_FOUND" by blast
      then show ?thesis
      proof cases
        case 1
        then have "bootstrap_connect ws path limit start w = bootstrap_connect ws path limit start w2"
          using o True False wt by (subst bootstrap_connect.simps) (simp add: INVALID_HANDLE_def Let_def)
        then show ?thesis using less.hyps [OF wa] 1(2) unfolding w2 w1 by simp
      next
        case 2
        then have "bootstrap_connect ws path limit start w
            = Some (ResErr (timeout_status ''timeout connecting to shm bootstrap pipe''), w2)"
          using o True False wt by (subst bootstrap_connect.simps) (simp add: INVALID_HANDLE_def Let_def)
        then show ?thesis using w1 w2 by (simp add: status_ok_def)
      next
        case 3
        then have "bootstrap_connect ws path limit start w = bootstrap_connect ws path limit start (ws_sleep1 ws w1)"
          using o True False by (subst bootstrap_connect.simps) (simp add: INVALID_HANDLE_def Let_def)
        then show ?thesis using less.hyps [OF sl] unfolding sleep_keeps w1 by simp
      next
        case 4
        then have "bootstrap_connect ws path limit start w = Some (ResErr
            (io_error (''Failed to connect to named pipe with error: '' @ to_string_nat (np_error (ws_np ws) w1))), w1)"
          using o True False by (subst bootstrap_connect.simps) (simp add: INVALID_HANDLE_def Let_def)
        then show ?thesis using w1 by (simp add: status_ok_def)
      qed
    qed
  qed
qed

end

context win_objects
begin

lemma win_close_grown:
  assumes "grown open_handles B (win_handle_list (wp_handles p)) w" "wh_mem (wp_handles p)"
  shows "open_handles (snd (win_close ws p w)) = B"
  using grown_close [OF assms(1)] assms(2) by (auto simp: win_close_def split: prod.splits)

lemma grown_no_null:
  assumes "grown open_handles B (win_handle_list h) w" "0 \<notin> set (win_handle_list h)" "wh_mem h"
  shows "win_handles_ok h"
proof -
  have "filter ((\<noteq>) 0) (win_handle_list h) = win_handle_list h" using assms(2) by (intro filter_True) auto
  with assms show ?thesis by (auto simp: grown_def win_handles_ok_def win_handle_list_def)
qed

lemma win_dial_handles:
  "\<exists>r w'. win_shm_dial ws rd1 rd2 nm opt w = Some (r, w') \<and>
     (case r of ResErr _ \<Rightarrow> open_handles w' = open_handles w
      | ResVal p \<Rightarrow> wp_owner p \<and> wp_is_client p \<and> win_handles_ok (wp_handles p)
          \<and> open_handles (snd (win_close ws p w')) = open_handles w)"
proof -
  let ?cid = "random_conn_id_hex16 rd1 rd2"
  let ?n = "win_make_names nm ?cid"
  let ?lim = "if dial_timeout opt = 0 then kDefaultDialTimeoutMs else dword (dial_timeout opt)"
  obtain cr w1 where c: "win_create_resources ws ?n w = (cr, w1)" by force
  note ch = win_create_handles [OF c]
  show ?thesis
  proof (cases cr)
    case (ResErr s)
    with c ch show ?thesis by (simp add: win_shm_dial_def Let_def)
  next
    case (ResVal h)
    with ch have h: "wh_mem h" "0 \<notin> set (win_handle_list h)" "grown open_handles (open_handles w) (win_handle_list h) w1"
      by simp_all
    obtain br w2 where b: "bootstrap_connect ws (wn_bootstrap ?n) ?lim (ws_tick ws w1) w1 = Some (br, w2)"
      and bh: "case br of ResErr s \<Rightarrow> \<not> status_ok s \<and> open_handles w2 = open_handles w1
        | ResVal bp \<Rightarrow> bp \<notin> open_handles w1 \<and> open_handles w2 = insert bp (open_handles w1)"
      using bootstrap_connect_returns by blast
    show ?thesis
    proof (cases br)
      case (ResErr s)
      then have "open_handles w2 = open_handles w1" using bh by simp
      from grown_close [OF grown_keep [OF h(3) this]] show ?thesis
        using c b \<open>cr = ResVal h\<close> ResErr by (simp add: win_shm_dial_def Let_def)
    next
      case (ResVal bp)
      obtain ok k w3 where wr: "np_write (ws_np ws) bp (bytes_of_string ?cid) w2 = ((ok, k), w3)" by (metis surj_pair)
      let ?w4 = "np_close_handle (ws_np ws) bp w3"
      have "open_handles w3 = open_handles w2" using write_keeps [of bp "bytes_of_string ?cid" w2] wr by simp
      then have "open_handles ?w4 = open_handles w1" using bh ResVal by (auto simp: close_handle)
      note g = grown_keep [OF h(3) this]
      show ?thesis
        using c b wr \<open>cr = ResVal h\<close> ResVal grown_close [OF g] win_close_grown [of "open_handles w" _ ?w4] g
          grown_no_null [OF h(3,2,1)] h(1)
        by (cases "\<not> ok \<or> k \<noteq> length ?cid") (auto simp: win_shm_dial_def Let_def)
    qed
  qed
qed

lemma renew_pipe_handles:
  assumes "renew_pipe ws l w = (l', w')"
  shows "open_handles w' - {wl_pipe l'} = open_handles w - {wl_pipe l}"
proof -
  let ?w1 = "np_close_handle (ws_np ws) (wl_pipe l) w" and ?b = "wn_bootstrap (wl_names l)"
  obtain h w2 where c: "ws_create_bootstrap ws ?b ?w1 = (h, w2)" by force
  have m: "may_open open_handles (-1) (h, w2) ?w1" using create_bootstrap [of ?b ?w1] by (simp add: c)
  have l: "w' = w2" "wl_pipe l' = h"
    using assms c by (auto simp: renew_pipe_def create_bootstrap_pipe_def split: if_splits)
  have null: "-1 \<notin> open_handles w2" by (rule null_closed)
  show ?thesis using m null unfolding l by (cases "h = -1") (auto simp: may_open_def close_handle)
qed

lemma win_accept_handles:
  "case win_accept ws l w of (r, l', w') \<Rightarrow>
     (case r of ResErr _ \<Rightarrow> open_handles w' - {wl_pipe l'} = open_handles w - {wl_pipe l}
      | ResVal p \<Rightarrow> \<not> wp_owner p \<and> \<not> wp_is_client p \<and> win_handles_ok (wp_handles p)
          \<and> open_handles (snd (win_close ws p w')) - {wl_pipe l'} = open_handles w - {wl_pipe l})"
proof -
  obtain cn w1 where c: "np_connect (ws_np ws) (wl_pipe l) w = (cn, w1)" by force
  obtain l1 v1 where r1: "renew_pipe ws l w1 = (l1, v1)" by force
  obtain ok cid w2 where rd: "np_read (ws_np ws) (wl_pipe l) 16 w1 = ((ok, cid), w2)" by (metis surj_pair)
  obtain l2 w3 where r2: "renew_pipe ws l w2 = (l2, w3)" by force
  obtain r w4 where op: "win_open_resources ws (win_make_names (wn_base (wl_names l)) (string_of_bytes cid)) w3 = (r, w4)"
    by force
  note oh = win_open_handles [OF op]
  have k: "open_handles w1 = open_handles w" "open_handles w2 = open_handles w1"
    using connect_keeps [of "wl_pipe l" w] read_keeps [of "wl_pipe l" 16 w1] by (simp_all add: c rd)
  have e: "open_handles v1 - {wl_pipe l1} = open_handles w - {wl_pipe l}"
    "open_handles w3 - {wl_pipe l2} = open_handles w - {wl_pipe l}"
    using renew_pipe_handles [OF r1] renew_pipe_handles [OF r2] k by simp_all
  consider "wl_pipe l = INVALID_HANDLE"
    | "wl_pipe l \<noteq> INVALID_HANDLE" "\<not> cn \<and> np_error (ws_np ws) w1 \<noteq> ERROR_PIPE_CONNECTED"
    | "wl_pipe l \<noteq> INVALID_HANDLE" "\<not> (\<not> cn \<and> np_error (ws_np ws) w1 \<noteq> ERROR_PIPE_CONNECTED)" "\<not> ok \<or> length cid \<noteq> 16"
    | "wl_pipe l \<noteq> INVALID_HANDLE" "\<not> (\<not> cn \<and> np_error (ws_np ws) w1 \<noteq> ERROR_PIPE_CONNECTED)"
      "\<not> (\<not> ok \<or> length cid \<noteq> 16)" by blast
  then show ?thesis
  proof cases
    case 1
    then show ?thesis by (simp add: win_accept_def)
  next
    case 2
    then show ?thesis using c r1 e(1) by (simp add: win_accept_def)
  next
    case 3
    then show ?thesis using c rd r2 e(2) by (auto simp: win_accept_def)
  next
    case 4
    then have a: "win_accept ws l w = (case r of ResErr s \<Rightarrow> ResErr s | ResVal h \<Rightarrow>
        ResVal \<lparr>wp_handles = h, wp_names = win_make_names (wn_base (wl_names l)) (string_of_bytes cid),
          wp_owner = False, wp_is_client = False\<rparr>, l2, w4)"
      using c rd r2 op by (auto simp: win_accept_def Let_def)
    show ?thesis
    proof (cases r)
      case (ResErr s)
      with a e(2) oh show ?thesis by simp
    next
      case (ResVal h)
      with a e(2) oh win_close_grown [of "open_handles w3" _ w4] grown_no_null [of "open_handles w3" h w4]
      show ?thesis by simp
    qed
  qed
qed

end

section \<open>A scripted system\<close>

text \<open>
  Handles are numbered in the order of their creation; a clock advances with every pause, and the
  server listens from \<open>ww_server\<close> on.
\<close>

record win_world =
  ww_next :: nat
  ww_closed :: "int set"
  ww_vals :: "int \<Rightarrow> nat"
  ww_clock :: nat
  ww_server :: nat

definition ww_open :: "win_world \<Rightarrow> int set" where
  "ww_open w = {1..int (ww_next w)} - ww_closed w"

definition ww_alloc :: "win_world \<Rightarrow> int \<times> win_world" where
  "ww_alloc w =
     (let h = int (Suc (ww_next w)) in (h, w\<lparr>ww_next := Suc (ww_next w), ww_closed := ww_closed w - {h}\<rparr>))"

definition ww_tick1 :: "win_world \<Rightarrow> win_world" where
  "ww_tick1 w = w\<lparr>ww_clock := Suc (ww_clock w)\<rparr>"

definition script_np :: "win_world np_sys" where
  "script_np =
     \<lparr>np_write = (\<lambda>h bs w. ((True, length bs), w)),
      np_read = (\<lambda>h n w. ((True, replicate n 48), w)),
      np_close_handle = (\<lambda>h w. w\<lparr>ww_closed := insert h (ww_closed w)\<rparr>),
      np_create = (\<lambda>path. ww_alloc),
      np_connect = (\<lambda>h w. (True, w)),
      np_wait = (\<lambda>path t w. (True, ww_tick1 w)),
      np_open = (\<lambda>path w. if ww_clock w < ww_server w then (-1, w) else ww_alloc w),
      np_set_mode = (\<lambda>h w. (True, w)),
      np_error = (\<lambda>w. ERROR_FILE_NOT_FOUND)\<rparr>"

definition script_win :: "win_world win_sys" where
  "script_win =
     \<lparr>ws_np = script_np,
      ws_create_bootstrap = (\<lambda>path. ww_alloc),
      ws_create_mapping = (\<lambda>nm. ww_alloc),
      ws_open_mapping = (\<lambda>nm. ww_alloc),
      ws_map_view = (\<lambda>h w. (True, w)),
      ws_unmap = (\<lambda>w. w),
      ws_zero = (\<lambda>w. w),
      ws_create_sem = (\<lambda>nm i mx w. case ww_alloc w of (h, w') \<Rightarrow> (h, w'\<lparr>ww_vals := (ww_vals w')(h := i)\<rparr>)),
      ws_open_sem = (\<lambda>nm. ww_alloc),
      ws_wait = (\<lambda>h t w. if ww_vals w h > 0
         then (WAIT_OBJECT_0, w\<lparr>ww_vals := (ww_vals w)(h := ww_vals w h - 1)\<rparr>)
         else (if t = None then WAIT_FAILED else WAIT_TIMEOUT, w)),
      ws_release = (\<lambda>h w. if ww_vals w h < 64
         then (True, w\<lparr>ww_vals := (ww_vals w)(h := Suc (ww_vals w h))\<rparr>) else (False, w)),
      ws_sleep1 = ww_tick1,
      ws_tick = ww_clock\<rparr>"

lemma ww_alloc_handle:
  "ww_alloc w = (h, w') \<Longrightarrow> h > 0 \<and> h \<notin> ww_open w \<and> ww_open w' = insert h (ww_open w)"
  by (auto simp: ww_alloc_def ww_open_def Let_def)

interpretation script_sems: win_semaphores script_win "\<lambda>s w. ww_vals w s"
  by unfold_locales (auto simp: script_win_def split: if_splits)

lemma script_win_sel:
  "ws_np script_win = script_np" "ws_create_bootstrap script_win = (\<lambda>path. ww_alloc)"
  "ws_create_mapping script_win = (\<lambda>nm. ww_alloc)" "ws_open_mapping script_win = (\<lambda>nm. ww_alloc)"
  "ws_open_sem script_win = (\<lambda>nm. ww_alloc)" "ws_sleep1 script_win = ww_tick1" "ws_tick script_win = ww_clock"
  "ws_map_view script_win h w = (True, w)" "ws_unmap script_win w = w" "ws_zero script_win w = w"
  by (simp_all add: script_win_def)

interpretation script_np: win_handles script_np ww_open
  by unfold_locales
    (auto simp: script_np_def ww_tick1_def ww_open_def dest!: ww_alloc_handle split: if_splits)

interpretation script_objects: win_objects script_win ww_open "\<lambda>t w. t - ww_clock w"
  by (unfold_locales, unfold script_win_sel)
    (auto simp: script_np_def script_win_def ww_tick1_def ww_alloc_def ww_open_def may_open_def Let_def split: if_splits)

section \<open>Properties of the Windows shared-memory transport\<close>

text \<open>
  On Windows, too, \<open>send\<close> and \<open>recv\<close> of a mapped pipe implement the ring operations: a successful
  call is one insertion (one removal) and leaves the other direction alone; a failed call changes
  neither ring nor semaphore, and times out only when a timeout was given.
\<close>

theorem win_pipe_refines_ring:
  assumes "win_semaphores ws val" "win_handles_ok (wp_handles p)" "msg_size msg \<le> kSlotPayloadMax"
    and "\<And>d. chan_inv (win_chan val d (wp_handles p) mw)"
  shows "(case win_send ws msg sopt p mw of (st, mw') \<Rightarrow>
      if status_ok st then
        chan_send msg (win_chan val (wp_is_client p) (wp_handles p) mw)
          = Some (win_chan val (wp_is_client p) (wp_handles p) mw')
        \<and> win_chan val (\<not> wp_is_client p) (wp_handles p) mw' = win_chan val (\<not> wp_is_client p) (wp_handles p) mw
      else (\<forall>d. win_chan val d (wp_handles p) mw' = win_chan val d (wp_handles p) mw)
        \<and> (code st = kIoError \<or> snd_timeout sopt \<noteq> 0 \<and> code st = kTimeout))
   \<and> (case win_recv ws ropt p mw of (r, mw') \<Rightarrow>
      case r of
        ResVal m \<Rightarrow>
          chan_recv (win_chan val (\<not> wp_is_client p) (wp_handles p) mw)
            = Some (m, win_chan val (\<not> wp_is_client p) (wp_handles p) mw')
          \<and> win_chan val (wp_is_client p) (wp_handles p) mw' = win_chan val (wp_is_client p) (wp_handles p) mw
      | ResErr st \<Rightarrow> (\<forall>d. win_chan val d (wp_handles p) mw' = win_chan val d (wp_handles p) mw)
          \<and> (code st = kIoError \<or> rcv_timeout ropt \<noteq> 0 \<and> code st = kTimeout))"
proof (intro conjI case_prodI2, goal_cases)
  case (1 st mw')
  show ?case by (rule win_semaphores.win_send_refines [OF assms(1-3) assms(4) 1])
next
  case (2 r mw')
  show ?case by (rule win_semaphores.win_recv_refines [OF assms(1,2) assms(4) 2])
qed

text \<open>
  Dialling a bus on Windows returns within its time limit and leaks no handle: a failure leaves the
  handles of before; a success gives a pipe with different handles, and closing it restores the
  handles of before. \<open>accept\<close> replaces the listener's bootstrap pipe and, apart from it, leaks
  nothing either.
\<close>

theorem win_shm_no_leak:
  assumes "win_objects ws open_handles rounds"
  shows "(\<exists>r w'. win_shm_dial ws rd1 rd2 nm opt w = Some (r, w') \<and>
     (case r of ResErr _ \<Rightarrow> open_handles w' = open_handles w
      | ResVal p \<Rightarrow> wp_owner p \<and> wp_is_client p \<and> win_handles_ok (wp_handles p)
          \<and> open_handles (snd (win_close ws p w')) = open_handles w))
   \<and> (case win_accept ws l w of (r, l', w') \<Rightarrow>
     (case r of ResErr _ \<Rightarrow> open_handles w' - {wl_pipe l'} = open_handles w - {wl_pipe l}
      | ResVal p \<Rightarrow> \<not> wp_owner p \<and> \<not> wp_is_client p \<and> win_handles_ok (wp_handles p)
          \<and> open_handles (snd (win_close ws p w')) - {wl_pipe l'} = open_handles w - {wl_pipe l}))"
  by (intro conjI win_objects.win_dial_handles [OF assms] win_objects.win_accept_handles [OF assms])

definition sample_win_handles :: WinHandles where
  "sample_win_handles =
     \<lparr>wh_shm = 1, wh_mem = True, wh_c2s_items = 2, wh_c2s_spaces = 3, wh_s2c_items = 4, wh_s2c_spaces = 5\<rparr>"

definition sample_win_world :: win_world where
  "sample_win_world =
     \<lparr>ww_next = 5, ww_closed = {}, ww_vals = (\<lambda>s. if s = 3 \<or> s = 5 then 64 else 0), ww_clock = 0, ww_server = 2\<rparr>"

lemma win_pipe_refines_ring_witness:
  "case win_send script_win (from_string ''hi'') \<lparr>snd_timeout = 10\<rparr>
      \<lparr>wp_handles = sample_win_handles, wp_names = win_make_names ''b'' ''c'', wp_owner = True, wp_is_client = True\<rparr>
      (\<lparr>c2s = zero_Ring, s2c = zero_Ring\<rparr>, sample_win_world) of (st, mw') \<Rightarrow>
    if status_ok st then
      chan_send (from_string ''hi'') chan_init = Some (win_chan (\<lambda>s w. ww_vals w s) True sample_win_handles mw')
    else True"
proof -
  let ?p = "\<lparr>wp_handles = sample_win_handles, wp_names = win_make_names ''b'' ''c'', wp_owner = True, wp_is_client = True\<rparr>"
  let ?mw = "(\<lparr>c2s = zero_Ring, s2c = zero_Ring\<rparr>, sample_win_world)"
  have c: "win_chan (\<lambda>s w. ww_vals w s) d sample_win_handles ?mw = chan_init" for d
    by (cases d) (simp_all add: win_chan_def sample_win_world_def sample_win_handles_def tx_ring_def chan_init_def
        win_items_def win_spaces_def kSlotCount_def)
  have "win_handles_ok (wp_handles ?p)" by (simp add: win_handles_ok_def sample_win_handles_def)
  moreover have "msg_size (from_string ''hi'') \<le> kSlotPayloadMax" by (simp add: from_string_def kSlotPayloadMax_def)
  moreover have "chan_inv (win_chan (\<lambda>s w. ww_vals w s) d (wp_handles ?p) ?mw)" for d
    using c chan_inv_init by simp
  ultimately have "case win_send script_win (from_string ''hi'') \<lparr>snd_timeout = 10\<rparr> ?p ?mw of (st, mw') \<Rightarrow>
      if status_ok st then chan_send (from_string ''hi'') (win_chan (\<lambda>s w. ww_vals w s) True sample_win_handles ?mw)
        = Some (win_chan (\<lambda>s w. ww_vals w s) True sample_win_handles mw') else True"
    using win_pipe_refines_ring [OF script_sems.win_semaphores_axioms, of ?p "from_string ''hi''" ?mw
        "\<lparr>snd_timeout = 10\<rparr>"]
    by (auto split: prod.splits if_splits)
  then show ?thesis unfolding c .
qed

lemma win_shm_no_leak_witness:
  "\<exists>r w'. win_shm_dial script_win 1 2 ''bus'' DialOptions_default sample_win_world = Some (r, w')"
  using win_shm_no_leak [OF script_objects.win_objects_axioms, of 1 2 "''bus''" DialOptions_default sample_win_world]
  by blast

end
