(* ===== verification/Duct_Dial.thy ===== *)
theory Duct_Dial
  imports Duct_Shm Duct_Qos
begin

text \<open>
  \<^verbatim>\<open>src/duct.cc\<close> (POSIX build): \<open>listen\<close> and \<open>dial\<close> choose the transport by the scheme of the address
  and \<open>dial\<close> wraps the pipe for quality of service. The builders of
  \<^verbatim>\<open>include/duct/convenience.h\<close> and the owning wrappers of \<^verbatim>\<open>include/duct/raii.h\<close> are on top.
\<close>

section \<open>\<open>listen\<close> and \<open>dial\<close>\<close>

datatype any_listener = ATcpListener TcpListener | AShmListener ShmListener

datatype base_pipe = ATcpPipe TcpPipe | AShmPipe ShmPipe

text \<open>A dialled pipe is the transport's own or a \<open>QosPipe\<close> around it.\<close>

datatype any_pipe = Plain base_pipe | WithQos "base_pipe QosPipe"

definition listen :: "'w sock_sys \<Rightarrow> string \<Rightarrow> ListenOptions \<Rightarrow> 'w \<Rightarrow> any_listener Result \<times> 'w" where
  "listen sys address opt w =
     (case parse address of
        ResErr s \<Rightarrow> (ResErr s, w)
      | ResVal a \<Rightarrow>
          if scheme a = Scheme_kTcp then
            (case tcp_listen sys (tcp a) opt w of (r, w') \<Rightarrow>
               (case r of ResErr s \<Rightarrow> ResErr s | ResVal l \<Rightarrow> ResVal (ATcpListener l), w'))
          else if scheme a = Scheme_kShm then
            (case shm_listen sys (name a) opt w of (r, w') \<Rightarrow>
               (case r of ResErr s \<Rightarrow> ResErr s | ResVal l \<Rightarrow> ResVal (AShmListener l), w'))
          else (ResErr (not_supported (''listen scheme not supported yet: '' @ scheme_text a)), w))"

definition wrap_qos :: "QosOptions \<Rightarrow> base_pipe \<Rightarrow> any_pipe" where
  "wrap_qos q p =
     (if snd_hwm_bytes q \<noteq> 0 \<or> backpressure q \<noteq> kBlock then WithQos (mk_QosPipe p q) else Plain p)"

definition dial ::
  "'w sock_sys \<Rightarrow> 'w shm_sys \<Rightarrow> 'w sys_send \<Rightarrow> u32 \<Rightarrow> u32 \<Rightarrow> string \<Rightarrow> DialOptions \<Rightarrow> 'w
     \<Rightarrow> (any_pipe Result \<times> 'w) option" where
  "dial sys os osend rd1 rd2 address opt w =
     (case parse address of
        ResErr s \<Rightarrow> Some (ResErr s, w)
      | ResVal a \<Rightarrow>
          if scheme a = Scheme_kTcp then
            (case tcp_dial sys (tcp a) opt w of (r, w') \<Rightarrow>
               Some (case r of ResErr s \<Rightarrow> ResErr s | ResVal p \<Rightarrow> ResVal (wrap_qos (dial_qos opt) (ATcpPipe p)), w'))
          else if scheme a = Scheme_kShm then
            map_option (\<lambda>(r, w').
               (case r of ResErr s \<Rightarrow> ResErr s | ResVal p \<Rightarrow> ResVal (wrap_qos (dial_qos opt) (AShmPipe p)), w'))
              (shm_dial sys os osend rd1 rd2 (name a) opt w)
          else Some (ResErr (not_supported (''dial scheme not supported yet: '' @ scheme_text a)), w))"

section \<open>Builders\<close>

record DialBuilder =
  db_address :: string
  db_options :: DialOptions

definition mk_DialBuilder :: "string \<Rightarrow> DialBuilder" where
  "mk_DialBuilder a = \<lparr>db_address = a, db_options = DialOptions_default\<rparr>"

definition db_timeout :: "millis \<Rightarrow> DialBuilder \<Rightarrow> DialBuilder" where
  "db_timeout ms b = b\<lparr>db_options := (db_options b)\<lparr>dial_timeout := ms\<rparr>\<rparr>"

definition db_qos :: "(QosOptions \<Rightarrow> QosOptions) \<Rightarrow> DialBuilder \<Rightarrow> DialBuilder" where
  "db_qos f b = b\<lparr>db_options := (db_options b)\<lparr>dial_qos := f (dial_qos (db_options b))\<rparr>\<rparr>"

definition db_send_hwm :: "u64 \<Rightarrow> DialBuilder \<Rightarrow> DialBuilder" where
  "db_send_hwm n = db_qos (\<lambda>q. q\<lparr>snd_hwm_bytes := n\<rparr>)"

definition db_recv_hwm :: "u64 \<Rightarrow> DialBuilder \<Rightarrow> DialBuilder" where
  "db_recv_hwm n = db_qos (\<lambda>q. q\<lparr>rcv_hwm_bytes := n\<rparr>)"

definition db_backpressure :: "BackpressurePolicy \<Rightarrow> DialBuilder \<Rightarrow> DialBuilder" where
  "db_backpressure pol = db_qos (\<lambda>q. q\<lparr>backpressure := pol\<rparr>)"

definition db_reconnect :: "(ReconnectPolicy \<Rightarrow> ReconnectPolicy) \<Rightarrow> DialBuilder \<Rightarrow> DialBuilder" where
  "db_reconnect f b = b\<lparr>db_options := (db_options b)\<lparr>reconnect := f (reconnect (db_options b))\<rparr>\<rparr>"

definition db_auto_reconnect :: "millis \<Rightarrow> DialBuilder \<Rightarrow> DialBuilder" where
  "db_auto_reconnect d = db_reconnect (\<lambda>r. r\<lparr>enabled := True, initial_delay := d\<rparr>)"

definition db_heartbeat :: "millis \<Rightarrow> DialBuilder \<Rightarrow> DialBuilder" where
  "db_heartbeat d = db_reconnect (\<lambda>r. r\<lparr>heartbeat_interval := d\<rparr>)"

definition db_on_state_change :: "DialBuilder \<Rightarrow> DialBuilder" where
  "db_on_state_change b = b\<lparr>db_options := (db_options b)\<lparr>on_state_change := True\<rparr>\<rparr>"

definition db_connect ::
  "'w sock_sys \<Rightarrow> 'w shm_sys \<Rightarrow> 'w sys_send \<Rightarrow> u32 \<Rightarrow> u32 \<Rightarrow> DialBuilder \<Rightarrow> 'w \<Rightarrow> (any_pipe Result \<times> 'w) option"
where
  "db_connect sys os osend rd1 rd2 b w = dial sys os osend rd1 rd2 (db_address b) (db_options b) w"

record ListenBuilder =
  lb_address :: string
  lb_options :: ListenOptions

definition mk_ListenBuilder :: "string \<Rightarrow> ListenBuilder" where
  "mk_ListenBuilder a = \<lparr>lb_address = a, lb_options = ListenOptions_default\<rparr>"

definition lb_backlog :: "int \<Rightarrow> ListenBuilder \<Rightarrow> ListenBuilder" where
  "lb_backlog n b = b\<lparr>lb_options := (lb_options b)\<lparr>backlog := n\<rparr>\<rparr>"

definition lb_qos :: "(QosOptions \<Rightarrow> QosOptions) \<Rightarrow> ListenBuilder \<Rightarrow> ListenBuilder" where
  "lb_qos f b = b\<lparr>lb_options := (lb_options b)\<lparr>listen_qos := f (listen_qos (lb_options b))\<rparr>\<rparr>"

definition lb_send_hwm :: "u64 \<Rightarrow> ListenBuilder \<Rightarrow> ListenBuilder" where
  "lb_send_hwm n = lb_qos (\<lambda>q. q\<lparr>snd_hwm_bytes := n\<rparr>)"

definition lb_recv_hwm :: "u64 \<Rightarrow> ListenBuilder \<Rightarrow> ListenBuilder" where
  "lb_recv_hwm n = lb_qos (\<lambda>q. q\<lparr>rcv_hwm_bytes := n\<rparr>)"

definition lb_backpressure :: "BackpressurePolicy \<Rightarrow> ListenBuilder \<Rightarrow> ListenBuilder" where
  "lb_backpressure pol = lb_qos (\<lambda>q. q\<lparr>backpressure := pol\<rparr>)"

definition lb_bind :: "'w sock_sys \<Rightarrow> ListenBuilder \<Rightarrow> 'w \<Rightarrow> any_listener Result \<times> 'w" where
  "lb_bind sys b w = listen sys (lb_address b) (lb_options b) w"

definition tcp_builder :: "string \<Rightarrow> u16 \<Rightarrow> DialBuilder" where
  "tcp_builder h p = mk_DialBuilder (''tcp://'' @ h @ '':'' @ to_string_nat (unat p))"

definition shm_builder :: "string \<Rightarrow> DialBuilder" where
  "shm_builder n = mk_DialBuilder (''shm://'' @ n)"

definition uds_builder :: "string \<Rightarrow> DialBuilder" where
  "uds_builder p = mk_DialBuilder (''uds://'' @ p)"

definition listen_tcp_builder :: "string \<Rightarrow> u16 \<Rightarrow> ListenBuilder" where
  "listen_tcp_builder h p = mk_ListenBuilder (''tcp://'' @ h @ '':'' @ to_string_nat (unat p))"

definition listen_shm_builder :: "string \<Rightarrow> ListenBuilder" where
  "listen_shm_builder n = mk_ListenBuilder (''shm://'' @ n)"

definition listen_uds_builder :: "string \<Rightarrow> ListenBuilder" where
  "listen_uds_builder p = mk_ListenBuilder (''uds://'' @ p)"

definition connect_raw ::
  "'w sock_sys \<Rightarrow> 'w shm_sys \<Rightarrow> 'w sys_send \<Rightarrow> u32 \<Rightarrow> u32 \<Rightarrow> string \<Rightarrow> 'w \<Rightarrow> (any_pipe Result \<times> 'w) option" where
  "connect_raw sys os osend rd1 rd2 a w = dial sys os osend rd1 rd2 a DialOptions_default w"

definition bind_raw :: "'w sock_sys \<Rightarrow> string \<Rightarrow> 'w \<Rightarrow> any_listener Result \<times> 'w" where
  "bind_raw sys a w = listen sys a ListenOptions_default w"

section \<open>Owning wrappers\<close>

text \<open>
  \<open>ScopedPipe\<close>/\<open>ScopedListener\<close> hold an object or nothing (\<open>nullptr\<close>); closing the object is a function
  on the world. A wrapper over nothing must not be used to send or receive (the code dereferences
  the null pointer), which is \<open>None\<close> here.
\<close>

type_synonym 'p scoped = "'p option"

definition scoped_close :: "('p \<Rightarrow> 'w \<Rightarrow> 'w) \<Rightarrow> 'p scoped \<Rightarrow> 'w \<Rightarrow> 'p scoped \<times> 'w" where
  "scoped_close cl s w = (case s of None \<Rightarrow> (None, w) | Some p \<Rightarrow> (None, cl p w))"

definition scoped_move :: "'p scoped \<Rightarrow> 'p scoped \<times> 'p scoped" where
  "scoped_move other = (other, None)"

text \<open>Move assignment: the target's object is closed first, unless it is the same wrapper.\<close>

definition scoped_assign ::
  "('p \<Rightarrow> 'w \<Rightarrow> 'w) \<Rightarrow> bool \<Rightarrow> 'p scoped \<Rightarrow> 'p scoped \<Rightarrow> 'w \<Rightarrow> 'p scoped \<times> 'p scoped \<times> 'w" where
  "scoped_assign cl same this other w =
     (if same then (this, this, w)
      else case scoped_close cl this w of (_, w') \<Rightarrow> (other, None, w'))"

definition scoped_release :: "'p scoped \<Rightarrow> 'p option \<times> 'p scoped" where
  "scoped_release s = (s, None)"

definition scoped_send ::
  "('p \<Rightarrow> Message \<Rightarrow> SendOptions \<Rightarrow> 'w \<Rightarrow> (Status \<times> 'w) option) \<Rightarrow> 'p scoped \<Rightarrow> Message \<Rightarrow> SendOptions \<Rightarrow> 'w
     \<Rightarrow> (Status \<times> 'w) option" where
  "scoped_send send s m opt w = (case s of None \<Rightarrow> None | Some p \<Rightarrow> send p m opt w)"

definition scoped_recv ::
  "('p \<Rightarrow> RecvOptions \<Rightarrow> 'w \<Rightarrow> (Message Result \<times> 'w) option) \<Rightarrow> 'p scoped \<Rightarrow> RecvOptions \<Rightarrow> 'w
     \<Rightarrow> (Message Result \<times> 'w) option" where
  "scoped_recv recv s opt w = (case s of None \<Rightarrow> None | Some p \<Rightarrow> recv p opt w)"

text \<open>The accessors, and \<open>ScopedListener\<close>, whose moves, release and close are those of \<open>ScopedPipe\<close>.\<close>

definition scoped_get :: "'p scoped \<Rightarrow> 'p option" where
  "scoped_get s = s"

definition scoped_valid :: "'p scoped \<Rightarrow> bool" where
  "scoped_valid s \<longleftrightarrow> s \<noteq> None"

definition scoped_destroy :: "('p \<Rightarrow> 'w \<Rightarrow> 'w) \<Rightarrow> 'p scoped \<Rightarrow> 'w \<Rightarrow> 'w" where
  "scoped_destroy cl s w = snd (scoped_close cl s w)"

definition listener_get :: "'l scoped \<Rightarrow> 'l option" where
  "listener_get s = s"

definition listener_valid :: "'l scoped \<Rightarrow> bool" where
  "listener_valid s \<longleftrightarrow> s \<noteq> None"

definition listener_move :: "'l scoped \<Rightarrow> 'l scoped \<times> 'l scoped" where
  "listener_move other = (other, None)"

definition listener_scoped_close :: "('l \<Rightarrow> 'w \<Rightarrow> 'w) \<Rightarrow> 'l scoped \<Rightarrow> 'w \<Rightarrow> 'l scoped \<times> 'w" where
  "listener_scoped_close cl s w = (case s of None \<Rightarrow> (None, w) | Some l \<Rightarrow> (None, cl l w))"

definition listener_assign ::
  "('l \<Rightarrow> 'w \<Rightarrow> 'w) \<Rightarrow> bool \<Rightarrow> 'l scoped \<Rightarrow> 'l scoped \<Rightarrow> 'w \<Rightarrow> 'l scoped \<times> 'l scoped \<times> 'w" where
  "listener_assign cl same this other w =
     (if same then (this, this, w)
      else case listener_scoped_close cl this w of (_, w') \<Rightarrow> (other, None, w'))"

definition listener_release :: "'l scoped \<Rightarrow> 'l option \<times> 'l scoped" where
  "listener_release s = (s, None)"

definition listener_destroy :: "('l \<Rightarrow> 'w \<Rightarrow> 'w) \<Rightarrow> 'l scoped \<Rightarrow> 'w \<Rightarrow> 'w" where
  "listener_destroy cl s w = snd (listener_scoped_close cl s w)"

definition scoped_local_address :: "('l \<Rightarrow> string Result) \<Rightarrow> 'l scoped \<Rightarrow> string Result option" where
  "scoped_local_address addr l = map_option addr l"

definition scoped_accept ::
  "('l \<Rightarrow> 'w \<Rightarrow> 'p Result \<times> 'w) \<Rightarrow> 'l scoped \<Rightarrow> 'w \<Rightarrow> ('p scoped Result \<times> 'w) option" where
  "scoped_accept acc l w =
     (case l of None \<Rightarrow> None
      | Some x \<Rightarrow> (case acc x w of (r, w') \<Rightarrow>
          Some (case r of ResErr s \<Rightarrow> ResErr s | ResVal p \<Rightarrow> ResVal (Some p), w')))"

definition raii_connect ::
  "'w sock_sys \<Rightarrow> 'w shm_sys \<Rightarrow> 'w sys_send \<Rightarrow> u32 \<Rightarrow> u32 \<Rightarrow> string \<Rightarrow> DialOptions \<Rightarrow> 'w
     \<Rightarrow> (any_pipe scoped Result \<times> 'w) option" where
  "raii_connect sys os osend rd1 rd2 a opt w =
     map_option (\<lambda>(r, w'). (case r of ResErr s \<Rightarrow> ResErr s | ResVal p \<Rightarrow> ResVal (Some p), w'))
       (dial sys os osend rd1 rd2 a opt w)"

definition raii_bind ::
  "'w sock_sys \<Rightarrow> string \<Rightarrow> ListenOptions \<Rightarrow> 'w \<Rightarrow> any_listener scoped Result \<times> 'w" where
  "raii_bind sys a opt w =
     (case listen sys a opt w of (r, w') \<Rightarrow>
        (case r of ResErr s \<Rightarrow> ResErr s | ResVal l \<Rightarrow> ResVal (Some l), w'))"

text \<open>
  An owner closes its object exactly once: however it is moved, assigned over, released and
  destroyed, the object is closed by the last owner, unless it was released.
\<close>

datatype owner_op = OMove | OAssign | OClose | ORelease

text \<open>
  \<open>OMove\<close> and \<open>OAssign\<close> hand the object on to a new owner (the old one is destroyed); the last owner is
  destroyed at the end. \<open>cl\<close> logs each close.
\<close>

fun owner_run :: "('p \<Rightarrow> 'w \<Rightarrow> 'w) \<Rightarrow> owner_op list \<Rightarrow> 'p scoped \<Rightarrow> 'w \<Rightarrow> 'w" where
  "owner_run cl [] s w = scoped_destroy cl s w"
| "owner_run cl (OMove # ops) s w =
     (case scoped_move s of (new, old) \<Rightarrow> owner_run cl ops new (scoped_destroy cl old w))"
| "owner_run cl (OAssign # ops) s w =
     (case scoped_assign cl False None s w of (new, old, w') \<Rightarrow> owner_run cl ops new (scoped_destroy cl old w'))"
| "owner_run cl (OClose # ops) s w = (case scoped_close cl s w of (s', w') \<Rightarrow> owner_run cl ops s' w')"
| "owner_run cl (ORelease # ops) s w = owner_run cl ops (snd (scoped_release s)) w"

lemmas owner_defs = scoped_destroy_def scoped_close_def scoped_move_def scoped_assign_def scoped_release_def

lemma owner_run_none: "owner_run cl ops None w = w"
proof (induction ops arbitrary: w)
  case (Cons x ops)
  then show ?case
    by (cases x) (simp_all add: owner_defs)
qed (simp add: owner_defs)

theorem owner_closes_once:
  "owner_run cl ops (Some p) w = (case filter (\<lambda>x. x = OClose \<or> x = ORelease) ops of ORelease # _ \<Rightarrow> w | _ \<Rightarrow> cl p w)"
proof (induction ops)
  case (Cons x ops)
  then show ?case
    by (cases x) (simp_all add: owner_defs owner_run_none)
qed (simp add: owner_defs)

lemma listener_owner:
  "listener_move = scoped_move" "listener_scoped_close = scoped_close" "listener_assign = scoped_assign"
  "listener_release = scoped_release" "listener_destroy = scoped_destroy" "listener_valid = scoped_valid"
  by (auto simp: fun_eq_iff listener_destroy_def scoped_destroy_def listener_valid_def scoped_valid_def listener_move_def scoped_move_def listener_scoped_close_def scoped_close_def
      listener_assign_def scoped_assign_def listener_release_def scoped_release_def)

section \<open>Which transport answers\<close>

lemma parse_tcp_port:
  "parse (''tcp://'' @ h @ '':'' @ to_string_nat (unat p)) =
    ResVal \<lparr>scheme = Scheme_kTcp, scheme_text = ''tcp'',
            raw = ''tcp://'' @ h @ '':'' @ to_string_nat (unat p),
            tcp = \<lparr>host = (if h = [] then ''127.0.0.1'' else h), port = p\<rparr>, name = ''''\<rparr>"
  using parse_tcp_text [of "to_string_nat (unat p)" h] to_string_nat_props [of "unat p"] unat_u16 [of p]
  by simp

lemmas parse_shm_text = parse_named_text [of "''shm''", simplified, folded append_Cons]
  and parse_uds_text = parse_named_text [of "''uds''", simplified, folded append_Cons]

definition as_tcp :: "QosOptions \<Rightarrow> TcpPipe Result \<times> 'w \<Rightarrow> any_pipe Result \<times> 'w" where
  "as_tcp q rw = (case fst rw of ResErr s \<Rightarrow> ResErr s | ResVal p \<Rightarrow> ResVal (wrap_qos q (ATcpPipe p)), snd rw)"

definition as_shm :: "QosOptions \<Rightarrow> ShmPipe Result \<times> 'w \<Rightarrow> any_pipe Result \<times> 'w" where
  "as_shm q rw = (case fst rw of ResErr s \<Rightarrow> ResErr s | ResVal p \<Rightarrow> ResVal (wrap_qos q (AShmPipe p)), snd rw)"

lemma dial_tcp_text:
  "dial sys os osend r1 r2 (''tcp://'' @ h @ '':'' @ to_string_nat (unat p)) opt w =
     Some (as_tcp (dial_qos opt)
       (tcp_dial sys \<lparr>host = (if h = [] then ''127.0.0.1'' else h), port = p\<rparr> opt w))"
  using parse_tcp_port [of h p] by (simp add: dial_def as_tcp_def split: prod.splits)

lemma dial_shm_text:
  "nm \<noteq> [] \<Longrightarrow> dial sys os osend r1 r2 (''shm://'' @ nm) opt w =
     map_option (as_shm (dial_qos opt)) (shm_dial sys os osend r1 r2 nm opt w)"
  by (simp add: dial_def parse_shm_text scheme_of_text_def as_shm_def case_prod_beta'
      cong: option.map_cong)

lemma as_tcp_ResVal:
  "as_tcp q (tcp_dial sys a opt w) = (ResVal pp, w') \<longleftrightarrow>
     (\<exists>fd. connect_tcp sys (host a) (port a) w = (ResVal fd, w') \<and> pp = wrap_qos q (ATcpPipe \<lparr>tcp_fd = fd\<rparr>))"
  by (cases "connect_tcp sys (host a) (port a) w")
     (auto simp: as_tcp_def tcp_dial_def split: Result.splits)

lemma parse_host: "parse s = ResVal a \<Longrightarrow> scheme a = Scheme_kTcp \<Longrightarrow> host (tcp a) \<noteq> []"
  by (auto simp: parse_def Let_def Address_default_def scheme_of_text_def split: option.splits if_splits)

lemma tcp_listen_ResVal:
  "tcp_listen sys a opt w = (ResVal l, w') \<Longrightarrow> tl_fd l \<noteq> kInvalidSocket \<and> tl_host l = host a"
  by (auto simp: tcp_listen_def listen_tcp_def split: prod.splits option.splits Result.splits if_splits)

lemma shm_listen_ResVal:
  "shm_listen sys nm opt w = (ResVal l, w') \<Longrightarrow> sl_names l = make_names nm ''0000000000000000''"
  by (auto simp: shm_listen_def Let_def split: prod.splits Result.splits)

lemma listen_ResVal:
  assumes "listen sys a opt w = (ResVal l, w')"
  obtains t where "l = ATcpListener t" "tl_fd t \<noteq> kInvalidSocket" "tl_host t \<noteq> []"
  | nm t where "l = AShmListener t" "sl_names t = make_names nm ''0000000000000000''"
  using assms
  by (auto simp: listen_def dest: shm_listen_ResVal split: Result.splits prod.splits if_splits)
    (metis tcp_listen_ResVal parse_host)+

lemma make_names_fields:
  "base (make_names nm cid) \<noteq> []"
  "bootstrap_path (make_names nm cid) = bootstrap_path (make_names nm cid')"
  by (simp_all add: make_names_def Let_def sanitize_name_def)

definition pipe_under :: "any_pipe \<Rightarrow> base_pipe" where
  "pipe_under pp = (case pp of Plain p \<Rightarrow> p | WithQos q \<Rightarrow> underlying q)"

lemma pipe_under_wrap [simp]: "pipe_under (wrap_qos q p) = p"
  by (simp add: pipe_under_def wrap_qos_def mk_QosPipe_def)

section \<open>Properties\<close>

text \<open>
  Connecting through the TCP builder, whatever its options, contacts exactly the host and port
  the builder was given; it returns either an error, with the open descriptors of before, or a
  pipe over one new descriptor, wrapped for quality of service exactly when a send limit or a
  policy other than blocking is set; closing that pipe's socket restores the descriptors.
\<close>

theorem tcp_builder_connect:
  assumes "descriptors sys open_fds"
  shows "\<exists>r w'. db_connect sys os osend r1 r2 ((tcp_builder h p)\<lparr>db_options := opt\<rparr>) w = Some (r, w')
    \<and> (case r of
         ResErr s \<Rightarrow> \<not> status_ok s \<and> open_fds w' = open_fds w
       | ResVal pp \<Rightarrow> \<exists>fd. pipe_under pp = ATcpPipe \<lparr>tcp_fd = fd\<rparr> \<and> fd \<notin> open_fds w
           \<and> connect_tcp sys (if h = [] then ''127.0.0.1'' else h) p w = (ResVal fd, w')
           \<and> open_fds w' = insert fd (open_fds w)
           \<and> open_fds (snd (tcp_close (sys_close sys) (\<lparr>tcp_fd = fd\<rparr>, w'))) = open_fds w
           \<and> ((\<exists>b. pp = Plain b) = (snd_hwm_bytes (dial_qos opt) = 0 \<and> backpressure (dial_qos opt) = kBlock)))"
proof -
  obtain rr w' where c: "connect_tcp sys (if h = [] then ''127.0.0.1'' else h) p w = (rr, w')" by force
  have "opens_one open_fds w (rr, w')" using descriptors.connect_tcp_opens [OF assms] c by metis
  moreover have "open_fds (snd (sys_close sys fd w')) = open_fds w' - {fd}" for fd
    by (rule descriptors.close_fd [OF assms])
  ultimately show ?thesis
    using c dial_tcp_text [of sys os osend r1 r2 h p opt w]
    by (cases rr) (auto simp: db_connect_def tcp_builder_def mk_DialBuilder_def as_tcp_def tcp_dial_def
      opens_one_def tcp_close_def kInvalidSocket_def wrap_qos_def pipe_under_def mk_QosPipe_def)
qed


text \<open>
  The Unix-domain transport cannot be reached through the public entry points: \<open>dial\<close>,
  \<open>listen\<close> and the \<open>uds\<close> builders report \<open>kNotSupported\<close> for every path and touch nothing.
\<close>

theorem uds_not_dispatched:
  assumes "path \<noteq> []"
  shows "db_connect sys os osend r1 r2 ((uds_builder path)\<lparr>db_options := opt\<rparr>) w
      = Some (ResErr (not_supported ''dial scheme not supported yet: uds''), w)
    \<and> lb_bind sys ((listen_uds_builder path)\<lparr>lb_options := lopt\<rparr>) w
      = (ResErr (not_supported ''listen scheme not supported yet: uds''), w)"
  using assms
  by (simp add: db_connect_def lb_bind_def uds_builder_def listen_uds_builder_def mk_DialBuilder_def
      mk_ListenBuilder_def dial_def listen_def parse_uds_text scheme_of_text_def)

lemma tcp_builder_connect_witness:
  "\<exists>r w'. db_connect script_sys undefined undefined 0 0 (tcp_builder ''h'' 80)
      \<lparr>next_fd = 3, fds = {0, 1, 2}, outcomes = [True, True, True, False]\<rparr> = Some (r, w')
    \<and> (case r of ResErr s \<Rightarrow> fds w' = {0, 1, 2} | ResVal pp \<Rightarrow> \<exists>fd. fds w' = insert fd {0, 1, 2})"
  using tcp_builder_connect [OF script_fds.descriptors_axioms, where h = "''h''" and p = 80 and ?r1.0 = 0
      and ?r2.0 = 0 and os = undefined and osend = undefined and opt = DialOptions_default
      and w = "\<lparr>next_fd = 3, fds = {0, 1, 2}, outcomes = [True, True, True, False]\<rparr>"]
  by (fastforce simp: tcp_builder_def mk_DialBuilder_def split: Result.splits)


lemma uds_not_dispatched_witness:
  "db_connect script_sys undefined undefined 0 0 (uds_builder ''/tmp/s'') \<lparr>next_fd = 3, fds = {}, outcomes = []\<rparr>
     = Some (ResErr (not_supported ''dial scheme not supported yet: uds''), \<lparr>next_fd = 3, fds = {}, outcomes = []\<rparr>)"
  using uds_not_dispatched [of "''/tmp/s''" script_sys undefined undefined 0 0 DialOptions_default
      "\<lparr>next_fd = 3, fds = {}, outcomes = []\<rparr>"]
  by (simp add: uds_builder_def mk_DialBuilder_def)

end
