(* ===== verification/Duct_Utils.thy ===== *)
theory Duct_Utils
  imports Duct_Dial
begin

text \<open>
  \<^verbatim>\<open>include/duct/utils.h\<close>: address builders, timers, the periodic executor, scope guards, the string
  builder and the strong type wrapper. Clock readings are arguments, in nanoseconds.
\<close>

section \<open>Addresses\<close>

datatype Port = Port (port_value: u16)

definition port_literal :: "u64 \<Rightarrow> Port" where
  "port_literal v = Port (ucast v)"

record TcpAddr =
  ta_host :: string
  ta_port :: Port

definition TcpAddr_build :: "TcpAddr \<Rightarrow> string" where
  "TcpAddr_build a = ''tcp://'' @ ta_host a @ '':'' @ to_string_nat (unat (port_value (ta_port a)))"

definition ShmAddr_build :: "string \<Rightarrow> string" where
  "ShmAddr_build nm = ''shm://'' @ nm"

definition UdsAddr_build :: "string \<Rightarrow> string" where
  "UdsAddr_build path = ''uds://'' @ path"

section \<open>Time\<close>

text \<open>The literals convert the unsigned value to the signed 64-bit count of the duration.\<close>

definition duration_literal :: "u64 \<Rightarrow> int" where
  "duration_literal v = sint v"

type_synonym Timer = time_point

definition timer_reset :: "time_point \<Rightarrow> Timer" where
  "timer_reset now = now"

text \<open>\<open>duration_cast\<close> to milliseconds truncates towards zero.\<close>

definition timer_elapsed_ms :: "time_point \<Rightarrow> Timer \<Rightarrow> millis" where
  "timer_elapsed_ms now t = (if now \<ge> t then (now - t) div 1000000 else - ((t - now) div 1000000))"

definition timer_has_elapsed :: "time_point \<Rightarrow> millis \<Rightarrow> Timer \<Rightarrow> bool" where
  "timer_has_elapsed now d t \<longleftrightarrow> now - t \<ge> ms_to_ns d"

text \<open>The callback, which may be empty, acts on a state of its own.\<close>

record 'h PeriodicExecutor =
  px_interval :: millis
  px_callback :: "('h \<Rightarrow> 'h) option"
  px_last :: time_point

definition mk_PeriodicExecutor :: "time_point \<Rightarrow> millis \<Rightarrow> ('h \<Rightarrow> 'h) option \<Rightarrow> 'h PeriodicExecutor" where
  "mk_PeriodicExecutor now interval cb = \<lparr>px_interval = interval, px_callback = cb, px_last = now\<rparr>"

definition execute_now :: "'h PeriodicExecutor \<Rightarrow> 'h \<Rightarrow> 'h" where
  "execute_now e h = (case px_callback e of None \<Rightarrow> h | Some f \<Rightarrow> f h)"

definition tick :: "time_point \<Rightarrow> 'h PeriodicExecutor \<Rightarrow> 'h \<Rightarrow> bool \<times> 'h PeriodicExecutor \<times> 'h" where
  "tick now e h =
     (if now - px_last e \<ge> ms_to_ns (px_interval e)
      then (True, e\<lparr>px_last := now\<rparr>, execute_now e h)
      else (False, e, h))"

section \<open>Guards\<close>

text \<open>
  A guard is active or not; running the function is counted. Moving hands the activity to the new
  guard and leaves the old one inactive.
\<close>

record ScopeGuard =
  g_active :: bool
  g_calls :: nat

definition mk_ScopeGuard :: ScopeGuard where
  "mk_ScopeGuard = \<lparr>g_active = True, g_calls = 0\<rparr>"

definition guard_trigger :: "ScopeGuard \<Rightarrow> ScopeGuard" where
  "guard_trigger g = (if g_active g then g\<lparr>g_calls := g_calls g + 1, g_active := False\<rparr> else g)"

definition guard_cancel :: "ScopeGuard \<Rightarrow> ScopeGuard" where
  "guard_cancel g = g\<lparr>g_active := False\<rparr>"

definition guard_destroy :: "ScopeGuard \<Rightarrow> ScopeGuard" where
  "guard_destroy g = (if g_active g then g\<lparr>g_calls := g_calls g + 1\<rparr> else g)"

definition make_scope_guard :: ScopeGuard where
  "make_scope_guard = mk_ScopeGuard"

text \<open>The new guard, and the old one after its destruction; the calls are counted in common.\<close>

definition guard_move :: "ScopeGuard \<Rightarrow> ScopeGuard \<times> ScopeGuard" where
  "guard_move g = (g, g\<lparr>g_active := False\<rparr>)"

datatype guard_op = GTrigger | GCancel | GMove

fun guard_run :: "guard_op list \<Rightarrow> ScopeGuard \<Rightarrow> ScopeGuard" where
  "guard_run [] g = guard_destroy g"
| "guard_run (GTrigger # ops) g = guard_run ops (guard_trigger g)"
| "guard_run (GCancel # ops) g = guard_run ops (guard_cancel g)"
| "guard_run (GMove # ops) g =
     (case guard_move g of (new, old) \<Rightarrow> guard_run ops (new\<lparr>g_calls := g_calls (guard_destroy old)\<rparr>))"

text \<open>A deferred call cannot be cancelled or moved: its destructor always runs the function.\<close>

record Defer =
  d_calls :: nat

definition defer_call :: Defer where
  "defer_call = \<lparr>d_calls = 0\<rparr>"

definition defer_destroy :: "Defer \<Rightarrow> Defer" where
  "defer_destroy d = d\<lparr>d_calls := d_calls d + 1\<rparr>"

section \<open>Strings and wrappers\<close>

definition to_string_int :: "int \<Rightarrow> string" where
  "to_string_int n = (if n < 0 then CHR ''-'' # to_string_nat (nat (- n)) else to_string_nat (nat n))"

type_synonym StringBuilder = string

definition sb_append :: "string \<Rightarrow> StringBuilder \<Rightarrow> StringBuilder" where
  "sb_append s b = b @ s"

definition sb_append_int :: "int \<Rightarrow> StringBuilder \<Rightarrow> StringBuilder" where
  "sb_append_int n b = b @ to_string_int n"

text \<open>
  \<open>std::to_string\<close> of a floating-point number prints six decimals, rounded to the nearest and ties to
  even. The number is a rational: infinities, not-a-number and negative zero are left out.
\<close>

definition round_even :: "rat \<Rightarrow> int" where
  "round_even x =
     (let f = \<lfloor>x\<rfloor>; d = x - of_int f
      in if d < 1 / 2 \<or> (d = 1 / 2 \<and> even f) then f else f + 1)"

definition to_string_rat :: "rat \<Rightarrow> string" where
  "to_string_rat x =
     (let n = nat (round_even (\<bar>x\<bar> * 1000000));
          frac = to_string_nat (n mod 1000000)
      in (if x < 0 then ''-'' else []) @ to_string_nat (n div 1000000) @ ''.''
           @ replicate (6 - length frac) CHR ''0'' @ frac)"

definition sb_append_rat :: "rat \<Rightarrow> StringBuilder \<Rightarrow> StringBuilder" where
  "sb_append_rat x b = b @ to_string_rat x"

definition sb_build :: "StringBuilder \<Rightarrow> string" where
  "sb_build b = b"

definition sb_view :: "StringBuilder \<Rightarrow> string" where
  "sb_view b = b"

definition sb_size :: "StringBuilder \<Rightarrow> nat" where
  "sb_size b = length b"

definition sb_empty :: "StringBuilder \<Rightarrow> bool" where
  "sb_empty b \<longleftrightarrow> b = []"

definition sb_clear :: "StringBuilder \<Rightarrow> StringBuilder" where
  "sb_clear b = []"

datatype 'a StrongType = StrongType (strong_value: 'a)

text \<open>The comparison operators of the wrapper are those of the value.\<close>

definition strong_eq :: "'a StrongType \<Rightarrow> 'a StrongType \<Rightarrow> bool" where
  "strong_eq x y \<longleftrightarrow> strong_value x = strong_value y"

definition strong_ne :: "'a StrongType \<Rightarrow> 'a StrongType \<Rightarrow> bool" where
  "strong_ne x y \<longleftrightarrow> strong_value x \<noteq> strong_value y"

definition strong_lt :: "'a::linorder StrongType \<Rightarrow> 'a StrongType \<Rightarrow> bool" where
  "strong_lt x y \<longleftrightarrow> strong_value x < strong_value y"

definition strong_le :: "'a::linorder StrongType \<Rightarrow> 'a StrongType \<Rightarrow> bool" where
  "strong_le x y \<longleftrightarrow> strong_value x \<le> strong_value y"

definition strong_gt :: "'a::linorder StrongType \<Rightarrow> 'a StrongType \<Rightarrow> bool" where
  "strong_gt x y \<longleftrightarrow> strong_value x > strong_value y"

definition strong_ge :: "'a::linorder StrongType \<Rightarrow> 'a StrongType \<Rightarrow> bool" where
  "strong_ge x y \<longleftrightarrow> strong_value x \<ge> strong_value y"

instantiation StrongType :: (linorder) linorder
begin

definition less_eq_StrongType :: "'a StrongType \<Rightarrow> 'a StrongType \<Rightarrow> bool" where
  "less_eq_StrongType x y \<longleftrightarrow> strong_le x y"

definition less_StrongType :: "'a StrongType \<Rightarrow> 'a StrongType \<Rightarrow> bool" where
  "less_StrongType x y \<longleftrightarrow> strong_lt x y"

instance
  by standard
    (auto simp: less_eq_StrongType_def less_StrongType_def strong_le_def strong_lt_def StrongType.expand)

end

text \<open>The operators agree with the order the wrapper has, and \<open>==\<close> is equality.\<close>

lemma strong_operators:
  "strong_eq x y \<longleftrightarrow> x = y" "strong_ne x y \<longleftrightarrow> x \<noteq> y" "strong_gt u v \<longleftrightarrow> v < u" "strong_ge u v \<longleftrightarrow> v \<le> u"
  by (auto simp: strong_eq_def strong_ne_def strong_gt_def strong_ge_def less_StrongType_def strong_lt_def
      less_eq_StrongType_def strong_le_def intro: StrongType.expand)

text \<open>A printed number is off by at most half a unit of its last decimal, and has six of them.\<close>

lemma round_even_near: "\<bar>of_int (round_even x) - x\<bar> \<le> 1 / 2"
proof -
  have "of_int \<lfloor>x\<rfloor> \<le> x" "x < of_int \<lfloor>x\<rfloor> + 1" by linarith+
  then show ?thesis by (cases "x - of_int \<lfloor>x\<rfloor> \<ge> 1 / 2") (auto simp: round_even_def Let_def abs_le_iff)
qed

lemma length_to_string_nat: "0 < k \<Longrightarrow> n < 10 ^ k \<Longrightarrow> length (to_string_nat n) \<le> k"
proof (induction k arbitrary: n)
  case (Suc k)
  then show ?case
    by (subst to_string_nat.simps) (cases k, auto)
qed simp

lemma six_decimals:
  "length (replicate (6 - length (to_string_nat (n mod 1000000))) CHR ''0'' @ to_string_nat (n mod 1000000)) = 6"
  using length_to_string_nat [of 6 "n mod 1000000"] by simp

section \<open>Properties of the utilities\<close>

lemma guard_run_calls:
  "g_calls (guard_run ops g) = g_calls g +
     (if g_active g \<and> (case filter ((\<noteq>) GMove) ops of GCancel # _ \<Rightarrow> False | _ \<Rightarrow> True) then 1 else 0)"
proof (induction ops arbitrary: g)
  case (Cons x ops)
  then show ?case
    by (cases x) (auto simp: guard_trigger_def guard_cancel_def guard_move_def guard_destroy_def)
qed (simp add: guard_destroy_def)

text \<open>The clock readings at which a sequence of ticks runs the callback.\<close>

fun executed :: "time_point list \<Rightarrow> 'h PeriodicExecutor \<Rightarrow> 'h \<Rightarrow> time_point list" where
  "executed [] e h = []"
| "executed (t # ts) e h =
     (case tick t e h of (fired, e', h') \<Rightarrow> (if fired then [t] else []) @ executed ts e' h')"

lemma executed_spaced:
  "successively (\<lambda>a b. b - a \<ge> ms_to_ns (px_interval e)) (px_last e # executed ts e h)"
proof (induction ts arbitrary: e h)
  case (Cons t ts)
  from Cons.IH [of "e\<lparr>px_last := t\<rparr>" "execute_now e h"] Cons.IH [of e h] show ?case
    by (auto simp: tick_def)
qed simp

text \<open>
  The address builders write what the parser reads: a TCP address keeps its host (the loopback
  address if empty) and the port literal modulo 65536, and shared-memory and Unix addresses keep
  their name.
\<close>

theorem address_builders_parse:
  "(\<exists>a. parse (TcpAddr_build \<lparr>ta_host = h, ta_port = port_literal v\<rparr>) = ResVal a
      \<and> scheme a = Scheme_kTcp \<and> host (tcp a) = (if h = [] then ''127.0.0.1'' else h)
      \<and> unat (port (tcp a)) = unat v mod 65536)
   \<and> (\<exists>a. parse (ShmAddr_build (c # nm)) = ResVal a \<and> scheme a = Scheme_kShm \<and> name a = c # nm)
   \<and> (\<exists>a. parse (UdsAddr_build (c # nm)) = ResVal a \<and> scheme a = Scheme_kUds \<and> name a = c # nm)"
  using parse_tcp_port [of h "ucast v"] parse_shm_text [of "c # nm"] parse_uds_text [of "c # nm"]
  by (simp add: TcpAddr_build_def ShmAddr_build_def UdsAddr_build_def port_literal_def scheme_of_text_def
      unsigned_ucast_eq take_bit_eq_mod)

text \<open>
  However a scope guard is moved, triggered and cancelled before its end, its function runs at
  most once: exactly once, unless the guard is cancelled before it is triggered.
\<close>

theorem scope_guard_once:
  "g_calls (guard_run ops mk_ScopeGuard) =
     (case filter ((\<noteq>) GMove) ops of GCancel # _ \<Rightarrow> 0 | _ \<Rightarrow> 1)"
  using guard_run_calls [of ops mk_ScopeGuard]
  by (auto simp: mk_ScopeGuard_def split: list.splits guard_op.splits)

text \<open>
  Whatever the clock readings, the ticks of a periodic executor run the callback at times that
  are at least the interval apart, the first at least the interval after its creation.
\<close>

theorem periodic_spacing:
  "successively (\<lambda>a b. b - a \<ge> ms_to_ns interval) (t0 # executed ts (mk_PeriodicExecutor t0 interval cb) h)"
  using executed_spaced [of "mk_PeriodicExecutor t0 interval cb" ts h] by (simp add: mk_PeriodicExecutor_def)

end
