(* ===== verification/Duct_Winsock.thy ===== *)
theory Duct_Winsock
  imports "HOL-Library.Signed_Division" Duct_Win_Shm Duct_Utils
begin

text \<open>
  The Windows build of the socket code and of \<^verbatim>\<open>src/duct.cc\<close>. Every entry into Winsock first runs
  \<open>WSAStartup\<close> once for its translation unit; what follows is the code of the POSIX build (with
  \<open>WSAEINTR\<close> for \<open>EINTR\<close>), except that readiness is asked with \<open>select\<close>. A socket is a
  \<open>std::uintptr_t\<close>, whose largest value, the invalid socket, is \<open>-1\<close> here.
\<close>

section \<open>Initialisation\<close>

text \<open>The function-local statics that keep the result of \<open>WSAStartup\<close>, \<open>None\<close> before the first call.\<close>

record winsock =
  wsa_wire :: "int option"
  wsa_tcp :: "int option"
  wsa_utils :: "int option"

definition winsock_unused :: winsock where
  "winsock_unused = \<lparr>wsa_wire = None, wsa_tcp = None, wsa_utils = None\<rparr>"

definition startup_once :: "('w \<Rightarrow> int \<times> 'w) \<Rightarrow> int option \<Rightarrow> 'w \<Rightarrow> int \<times> 'w" where
  "startup_once startup c w = (case c of None \<Rightarrow> startup w | Some rc \<Rightarrow> (rc, w))"

definition wsa_status :: "int \<Rightarrow> Status" where
  "wsa_status rc =
     (if rc \<noteq> 0 then io_error (''WSAStartup failed with error: '' @ to_string_int rc) else Status_Ok)"

definition ensure_winsock_wire :: "('w \<Rightarrow> int \<times> 'w) \<Rightarrow> winsock \<times> 'w \<Rightarrow> Status \<times> winsock \<times> 'w" where
  "ensure_winsock_wire startup cw =
     (case startup_once startup (wsa_wire (fst cw)) (snd cw) of (rc, w') \<Rightarrow>
        (wsa_status rc, (fst cw)\<lparr>wsa_wire := Some rc\<rparr>, w'))"

definition ensure_winsock_tcp :: "('w \<Rightarrow> int \<times> 'w) \<Rightarrow> winsock \<times> 'w \<Rightarrow> Status \<times> winsock \<times> 'w" where
  "ensure_winsock_tcp startup cw =
     (case startup_once startup (wsa_tcp (fst cw)) (snd cw) of (rc, w') \<Rightarrow>
        (wsa_status rc, (fst cw)\<lparr>wsa_tcp := Some rc\<rparr>, w'))"

definition win_ensure_networking :: "('w \<Rightarrow> int \<times> 'w) \<Rightarrow> winsock \<times> 'w \<Rightarrow> Status \<times> winsock \<times> 'w" where
  "win_ensure_networking startup cw =
     (case startup_once startup (wsa_utils (fst cw)) (snd cw) of (rc, w') \<Rightarrow>
        (if rc \<noteq> 0 then io_error ''WSAStartup failed'' else Status_Ok, (fst cw)\<lparr>wsa_utils := Some rc\<rparr>, w'))"

section \<open>Frames\<close>

definition win_write_all ::
  "('w \<Rightarrow> int \<times> 'w) \<Rightarrow> 'w sys_send \<Rightarrow> int \<Rightarrow> byte_seq \<Rightarrow> winsock \<times> 'w \<Rightarrow> (Status \<times> winsock \<times> 'w) option" where
  "win_write_all startup osend fd p cw =
     (case ensure_winsock_wire startup cw of (wsa, c, w) \<Rightarrow>
        if \<not> status_ok wsa then Some (wsa, c, w)
        else map_option (\<lambda>(st, w'). (st, c, w')) (write_all osend fd p w))"

definition win_read_exact ::
  "('w \<Rightarrow> int \<times> 'w) \<Rightarrow> 'w sys_recv \<Rightarrow> int \<Rightarrow> nat \<Rightarrow> winsock \<times> 'w \<Rightarrow> (Status \<times> byte_seq \<times> winsock \<times> 'w) option"
where
  "win_read_exact startup orecv fd n cw =
     (case ensure_winsock_wire startup cw of (wsa, c, w) \<Rightarrow>
        if \<not> status_ok wsa then Some (wsa, [], c, w)
        else map_option (\<lambda>(st, buf, w'). (st, buf, c, w')) (read_exact orecv fd n [] w))"

definition win_write_frame ::
  "endian \<Rightarrow> ('w \<Rightarrow> int \<times> 'w) \<Rightarrow> 'w sys_send \<Rightarrow> int \<Rightarrow> Message \<Rightarrow> u32 \<Rightarrow> winsock \<times> 'w
     \<Rightarrow> (Status \<times> winsock \<times> 'w) option" where
  "win_write_frame e startup osend fd msg fl cw =
     (if msg_size msg > kMaxFramePayload then
        Some (invalid_argument ''message too large; enable fragmentation (todo)'', cw)
      else
        let hdr = encode_header e (frame_header msg fl) (replicate kHeaderLen 0)
        in case win_write_all startup osend fd hdr cw of
             None \<Rightarrow> None
           | Some (st, cw') \<Rightarrow>
               if \<not> status_ok st then Some (st, cw') else win_write_all startup osend fd (view msg) cw')"

definition win_read_frame ::
  "endian \<Rightarrow> ('w \<Rightarrow> int \<times> 'w) \<Rightarrow> 'w sys_recv \<Rightarrow> int \<Rightarrow> winsock \<times> 'w \<Rightarrow> (Message Result \<times> winsock \<times> 'w) option"
where
  "win_read_frame e startup orecv fd cw =
     (case win_read_exact startup orecv fd kHeaderLen cw of
        None \<Rightarrow> None
      | Some (st, hdr, cw1) \<Rightarrow>
          if \<not> status_ok st then Some (ResErr st, cw1)
          else case decode_header e hdr of
            ResErr s \<Rightarrow> Some (ResErr s, cw1)
          | ResVal h \<Rightarrow>
              if payload_len h \<noteq> 0 then
                (case win_read_exact startup orecv fd (unat (payload_len h)) cw1 of
                   None \<Rightarrow> None
                 | Some (st2, buf, cw2) \<Rightarrow>
                     if \<not> status_ok st2 then Some (ResErr st2, cw2)
                     else Some (ResVal (from_bytes buf (length buf)), cw2))
              else Some (ResVal (from_bytes [] 0), cw1))"

section \<open>Socket helpers\<close>

text \<open>
  \<open>select\<close> on one socket: the number of ready sockets or \<open>-1\<close>, and whether the socket is in the set
  of failed ones; \<open>ioctlsocket\<close>.
\<close>

record 'w winsock_sys =
  wsk_startup :: "'w \<Rightarrow> int \<times> 'w"
  wsk_select :: "poll_event \<Rightarrow> int \<Rightarrow> int \<times> int \<Rightarrow> 'w \<Rightarrow> (int \<times> bool) \<times> 'w"
  wsk_ioctl :: "int \<Rightarrow> bool \<Rightarrow> 'w \<Rightarrow> int \<times> 'w"
  wsk_close :: "int \<Rightarrow> 'w \<Rightarrow> int \<times> 'w"

text \<open>\<open>long\<close> has 32 bits on Windows, and \<open>/\<close> and \<open>%\<close> truncate towards zero.\<close>

definition to_timeval :: "millis \<Rightarrow> int \<times> int" where
  "to_timeval t = (int_cast32 (t sdiv 1000), int_cast32 ((t smod 1000) * 1000))"

definition select_wait ::
  "string \<Rightarrow> poll_event \<Rightarrow> 'w winsock_sys \<Rightarrow> int \<Rightarrow> millis \<Rightarrow> winsock \<times> 'w \<Rightarrow> Status \<times> winsock \<times> 'w" where
  "select_wait what ev sys fd timeout cw =
     (if fd = kInvalidSocket then (invalid_argument ''invalid socket'', cw)
      else if timeout = 0 then (Status_Ok, cw)
      else case win_ensure_networking (wsk_startup sys) cw of (st, c, w) \<Rightarrow>
        if \<not> status_ok st then (st, c, w)
        else case wsk_select sys ev fd (to_timeval timeout) w of ((rc, failed), w') \<Rightarrow>
          (if rc = -1 then io_error ''select() failed''
           else if rc = 0 then timeout_status (what @ '' timed out'')
           else if failed then io_error ''select() reported error on socket''
           else Status_Ok, c, w'))"

definition win_wait_readable :: "'w winsock_sys \<Rightarrow> int \<Rightarrow> millis \<Rightarrow> winsock \<times> 'w \<Rightarrow> Status \<times> winsock \<times> 'w" where
  "win_wait_readable = select_wait ''read'' POLLIN"

definition win_wait_writable :: "'w winsock_sys \<Rightarrow> int \<Rightarrow> millis \<Rightarrow> winsock \<times> 'w \<Rightarrow> Status \<times> winsock \<times> 'w" where
  "win_wait_writable = select_wait ''write'' POLLOUT"

definition win_set_nonblocking :: "'w winsock_sys \<Rightarrow> int \<Rightarrow> bool \<Rightarrow> winsock \<times> 'w \<Rightarrow> Status \<times> winsock \<times> 'w" where
  "win_set_nonblocking sys fd nonblock cw =
     (if fd = kInvalidSocket then (invalid_argument ''invalid socket'', cw)
      else case win_ensure_networking (wsk_startup sys) cw of (st, c, w) \<Rightarrow>
        if \<not> status_ok st then (st, c, w)
        else case wsk_ioctl sys fd nonblock w of (rc, w') \<Rightarrow>
          (if rc \<noteq> 0 then io_error ''ioctlsocket(FIONBIO) failed'' else Status_Ok, c, w'))"

definition win_close_socket :: "'w winsock_sys \<Rightarrow> int \<Rightarrow> winsock \<times> 'w \<Rightarrow> Status \<times> winsock \<times> 'w" where
  "win_close_socket sys fd cw =
     (if fd = kInvalidSocket then (Status_Ok, cw)
      else case win_ensure_networking (wsk_startup sys) cw of (st, c, w) \<Rightarrow>
        if \<not> status_ok st then (st, c, w)
        else case wsk_close sys fd w of (rc, w') \<Rightarrow>
          (if rc \<noteq> 0 then io_error ''closesocket() failed'' else Status_Ok, c, w'))"

section \<open>TCP\<close>

definition win_connect_tcp ::
  "('w \<Rightarrow> int \<times> 'w) \<Rightarrow> 'w sock_sys \<Rightarrow> string \<Rightarrow> u16 \<Rightarrow> winsock \<times> 'w \<Rightarrow> int Result \<times> winsock \<times> 'w" where
  "win_connect_tcp startup sys hst prt cw =
     (case ensure_winsock_tcp startup cw of (wsa, c, w) \<Rightarrow>
        if \<not> status_ok wsa then (ResErr wsa, c, w)
        else case connect_tcp sys hst prt w of (r, w') \<Rightarrow> (r, c, w'))"

definition win_listen_tcp ::
  "('w \<Rightarrow> int \<times> 'w) \<Rightarrow> 'w sock_sys \<Rightarrow> string \<Rightarrow> u16 \<Rightarrow> int \<Rightarrow> winsock \<times> 'w \<Rightarrow> int Result \<times> winsock \<times> 'w" where
  "win_listen_tcp startup sys hst prt bl cw =
     (case ensure_winsock_tcp startup cw of (wsa, c, w) \<Rightarrow>
        if \<not> status_ok wsa then (ResErr wsa, c, w)
        else case listen_tcp sys hst prt bl w of (r, w') \<Rightarrow> (r, c, w'))"

definition win_tcp_listen ::
  "('w \<Rightarrow> int \<times> 'w) \<Rightarrow> 'w sock_sys \<Rightarrow> TcpAddress \<Rightarrow> ListenOptions \<Rightarrow> winsock \<times> 'w
     \<Rightarrow> TcpListener Result \<times> winsock \<times> 'w" where
  "win_tcp_listen startup sys addr opt cw =
     (case win_listen_tcp startup sys (host addr) (port addr) (backlog opt) cw of (r, c, w1) \<Rightarrow>
        (case r of
           ResErr s \<Rightarrow> (ResErr s, c, w1)
         | ResVal fd \<Rightarrow>
             if port addr = 0 then
               (case sys_getsockname sys fd w1 of (po, w2) \<Rightarrow>
                  (ResVal \<lparr>tl_fd = fd, tl_host = host addr,
                           tl_port = (case po of None \<Rightarrow> port addr | Some q \<Rightarrow> q)\<rparr>, c, w2))
             else (ResVal \<lparr>tl_fd = fd, tl_host = host addr, tl_port = port addr\<rparr>, c, w1)))"

definition win_tcp_dial ::
  "('w \<Rightarrow> int \<times> 'w) \<Rightarrow> 'w sock_sys \<Rightarrow> TcpAddress \<Rightarrow> DialOptions \<Rightarrow> winsock \<times> 'w \<Rightarrow> TcpPipe Result \<times> winsock \<times> 'w"
where
  "win_tcp_dial startup sys addr opt cw =
     (case win_connect_tcp startup sys (host addr) (port addr) cw of (r, cw1) \<Rightarrow>
        (case r of ResErr s \<Rightarrow> (ResErr s, cw1) | ResVal fd \<Rightarrow> (ResVal \<lparr>tcp_fd = fd\<rparr>, cw1)))"

definition win_tcp_send ::
  "endian \<Rightarrow> ('w \<Rightarrow> int \<times> 'w) \<Rightarrow> 'w sys_send \<Rightarrow> Message \<Rightarrow> TcpPipe \<times> winsock \<times> 'w
     \<Rightarrow> (Status \<times> TcpPipe \<times> winsock \<times> 'w) option" where
  "win_tcp_send e startup osend msg pw =
     (case pw of (p, cw) \<Rightarrow>
        if tcp_fd p = kInvalidSocket then Some (closed_status ''pipe closed'', p, cw)
        else map_option (\<lambda>(st, cw'). (st, p, cw')) (win_write_frame e startup osend (tcp_fd p) msg 0 cw))"

definition win_tcp_recv ::
  "endian \<Rightarrow> ('w \<Rightarrow> int \<times> 'w) \<Rightarrow> 'w sys_recv \<Rightarrow> TcpPipe \<times> winsock \<times> 'w
     \<Rightarrow> (Message Result \<times> TcpPipe \<times> winsock \<times> 'w) option" where
  "win_tcp_recv e startup orecv pw =
     (case pw of (p, cw) \<Rightarrow>
        if tcp_fd p = kInvalidSocket then Some (ResErr (closed_status ''pipe closed''), p, cw)
        else map_option (\<lambda>(r, cw'). (r, p, cw')) (win_read_frame e startup orecv (tcp_fd p) cw))"

section \<open>Unix-domain sockets, \<open>listen\<close> and \<open>dial\<close>\<close>

definition win_uds_listen :: "string \<Rightarrow> ListenOptions \<Rightarrow> UdsListener Result" where
  "win_uds_listen path opt = ResErr (not_supported ''uds not available on windows; use pipe:// instead'')"

definition win_uds_dial :: "string \<Rightarrow> DialOptions \<Rightarrow> UdsPipe Result" where
  "win_uds_dial path opt = ResErr (not_supported ''uds not available on windows; use pipe:// instead'')"

datatype win_listener = WTcpListener TcpListener | WShmListener WinShmListener | WPipeListener NamedPipeListener

datatype win_base = WTcpPipe TcpPipe | WShmPipe WinShmPipe | WNamedPipe NamedPipePipe

datatype win_pipe = WPlain win_base | WWithQos "win_base QosPipe"

definition win_listen ::
  "('w \<Rightarrow> int \<times> 'w) \<Rightarrow> 'w sock_sys \<Rightarrow> 'w win_sys \<Rightarrow> string \<Rightarrow> ListenOptions \<Rightarrow> winsock \<times> 'w
     \<Rightarrow> win_listener Result \<times> winsock \<times> 'w" where
  "win_listen startup sys ws address opt cw =
     (case parse address of
        ResErr s \<Rightarrow> (ResErr s, cw)
      | ResVal a \<Rightarrow>
          if scheme a = Scheme_kTcp then
            (case win_tcp_listen startup sys (tcp a) opt cw of (r, cw') \<Rightarrow>
               (case r of ResErr s \<Rightarrow> ResErr s | ResVal l \<Rightarrow> ResVal (WTcpListener l), cw'))
          else if scheme a = Scheme_kShm then
            (case win_shm_listen ws (name a) opt (snd cw) of (r, w') \<Rightarrow>
               (case r of ResErr s \<Rightarrow> ResErr s | ResVal l \<Rightarrow> ResVal (WShmListener l), fst cw, w'))
          else if scheme a = Scheme_kPipe then
            (case pipe_listen (name a) opt of ResErr s \<Rightarrow> ResErr s | ResVal l \<Rightarrow> ResVal (WPipeListener l), cw)
          else (ResErr (not_supported (''listen scheme not supported yet: '' @ scheme_text a)), cw))"

definition win_wrap_qos :: "QosOptions \<Rightarrow> win_base \<Rightarrow> win_pipe" where
  "win_wrap_qos q p =
     (if snd_hwm_bytes q \<noteq> 0 \<or> backpressure q \<noteq> kBlock then WWithQos (mk_QosPipe p q) else WPlain p)"

definition win_dial ::
  "('w \<Rightarrow> int \<times> 'w) \<Rightarrow> 'w sock_sys \<Rightarrow> 'w win_sys \<Rightarrow> u32 \<Rightarrow> u32 \<Rightarrow> string \<Rightarrow> DialOptions \<Rightarrow> winsock \<times> 'w
     \<Rightarrow> (win_pipe Result \<times> winsock \<times> 'w) option" where
  "win_dial startup sys ws rd1 rd2 address opt cw =
     (case parse address of
        ResErr s \<Rightarrow> Some (ResErr s, cw)
      | ResVal a \<Rightarrow>
          if scheme a = Scheme_kTcp then
            (case win_tcp_dial startup sys (tcp a) opt cw of (r, cw') \<Rightarrow>
               Some (case r of ResErr s \<Rightarrow> ResErr s | ResVal p \<Rightarrow> ResVal (win_wrap_qos (dial_qos opt) (WTcpPipe p)), cw'))
          else if scheme a = Scheme_kShm then
            map_option (\<lambda>(r, w').
               (case r of ResErr s \<Rightarrow> ResErr s | ResVal p \<Rightarrow> ResVal (win_wrap_qos (dial_qos opt) (WShmPipe p)), fst cw, w'))
              (win_shm_dial ws rd1 rd2 (name a) opt (snd cw))
          else if scheme a = Scheme_kPipe then
            (case pipe_dial (ws_np ws) (name a) opt (snd cw) of (r, w') \<Rightarrow>
               Some (case r of ResErr s \<Rightarrow> ResErr s | ResVal p \<Rightarrow> ResVal (win_wrap_qos (dial_qos opt) (WNamedPipe p)),
                     fst cw, w'))
          else Some (ResErr (not_supported (''dial scheme not supported yet: '' @ scheme_text a)), cw))"

section \<open>Initialisation happens once\<close>

lemma ensure_wire_again:
  "ensure_winsock_wire startup cw = (wsa, c, w) \<Longrightarrow> ensure_winsock_wire startup (c, w') = (wsa, c, w')"
  by (auto simp: ensure_winsock_wire_def startup_once_def split: option.splits prod.splits)

lemma win_write_frame_gate:
  "win_write_frame e startup osend fd msg fl cw =
     (if msg_size msg > kMaxFramePayload then
        Some (invalid_argument ''message too large; enable fragmentation (todo)'', cw)
      else case ensure_winsock_wire startup cw of (wsa, c, w) \<Rightarrow>
        if \<not> status_ok wsa then Some (wsa, c, w)
        else map_option (\<lambda>(st, w'). (st, c, w')) (write_frame e osend fd msg fl w))"
proof (cases "ensure_winsock_wire startup cw")
  case (fields wsa c w)
  show ?thesis
    using fields ensure_wire_again [OF fields]
    by (auto simp: win_write_frame_def write_frame_def win_write_all_def Let_def split: option.splits)
qed

lemma win_read_frame_gate:
  "win_read_frame e startup orecv fd cw =
     (case ensure_winsock_wire startup cw of (wsa, c, w) \<Rightarrow>
        if \<not> status_ok wsa then Some (ResErr wsa, c, w)
        else map_option (\<lambda>(r, w'). (r, c, w')) (read_frame e orecv fd w))"
proof (cases "ensure_winsock_wire startup cw")
  case (fields wsa c w)
  show ?thesis
    using fields ensure_wire_again [OF fields]
    by (auto simp: win_read_frame_def read_frame_def win_read_exact_def split: option.splits Result.splits)
qed

section \<open>Handles\<close>

definition win_base_close :: "'w sock_sys \<Rightarrow> 'w win_sys \<Rightarrow> win_base \<Rightarrow> 'w \<Rightarrow> 'w" where
  "win_base_close sys ws b w =
     (case b of
        WTcpPipe p \<Rightarrow> snd (tcp_close (sys_close sys) (p, w))
      | WShmPipe p \<Rightarrow> snd (win_close ws p w)
      | WNamedPipe p \<Rightarrow> snd (np_close (ws_np ws) (p, w)))"

definition win_pipe_under :: "win_pipe \<Rightarrow> win_base" where
  "win_pipe_under pp = (case pp of WPlain b \<Rightarrow> b | WWithQos q \<Rightarrow> underlying q)"

lemma win_pipe_under_wrap [simp]: "win_pipe_under (win_wrap_qos q b) = b"
  by (simp add: win_pipe_under_def win_wrap_qos_def mk_QosPipe_def)

definition releases :: "('w \<Rightarrow> int set) \<Rightarrow> 'w sock_sys \<Rightarrow> 'w win_sys \<Rightarrow> 'w \<Rightarrow> win_base \<Rightarrow> 'w \<Rightarrow> bool" where
  "releases open_handles sys ws w b w' \<longleftrightarrow> open_handles (win_base_close sys ws b w') = open_handles w"

text \<open>
  The Windows build as a whole: sockets, pipes, mappings and semaphores are handles of one table, and
  \<open>WSAStartup\<close> opens none of them.
\<close>

locale windows = win_objects ws open_handles rounds + sock: descriptors sys open_handles
  for ws :: "'w win_sys" and open_handles :: "'w \<Rightarrow> int set" and rounds and sys :: "'w sock_sys" +
  fixes startup :: "'w \<Rightarrow> int \<times> 'w"
  assumes startup_keeps: "open_handles (snd (startup w)) = open_handles w"
begin

lemma ensure_tcp_keeps:
  "ensure_winsock_tcp startup cw = (st, c, w') \<Longrightarrow> open_handles w' = open_handles (snd cw)"
  using startup_keeps [of "snd cw"]
  by (auto simp: ensure_winsock_tcp_def startup_once_def split: option.splits prod.splits)

lemma win_tcp_dial_handles:
  assumes "win_tcp_dial startup sys a opt (c, w) = (r, c', w')"
  shows "case r of ResErr _ \<Rightarrow> open_handles w' = open_handles w | ResVal p \<Rightarrow> releases open_handles sys ws w (WTcpPipe p) w'"
proof -
  obtain wsa c1 w1 where e: "ensure_winsock_tcp startup (c, w) = (wsa, c1, w1)" by (metis surj_pair)
  obtain cr w2 where t: "connect_tcp sys (host a) (port a) w1 = (cr, w2)" by force
  have w1: "open_handles w1 = open_handles w" using ensure_tcp_keeps [OF e] by simp
  have "opens_one open_handles w1 (cr, w2)" using sock.connect_tcp_opens [of w1 "host a" "port a"] by (simp add: t)
  then show ?thesis
    using assms e t w1 sock.close_fd
    by (cases cr; cases "status_ok wsa")
      (auto simp: win_tcp_dial_def win_connect_tcp_def opens_one_def releases_def win_base_close_def tcp_close_def
        kInvalidSocket_def)
qed

lemma pipe_dial_releases:
  assumes "pipe_dial (ws_np ws) nm opt w = (r, w')"
  shows "case r of ResErr _ \<Rightarrow> open_handles w' = open_handles w | ResVal p \<Rightarrow> releases open_handles sys ws w (WNamedPipe p) w'"
  using pipe_dial_handles [where nm = nm and opt = opt and w = w] assms close_handle null_closed(2) [of w']
  by (cases r) (auto simp: releases_def win_base_close_def np_close_def INVALID_HANDLE_def)

lemma win_dial_releases:
  "\<exists>r c' w'. win_dial startup sys ws rd1 rd2 address opt (c, w) = Some (r, c', w')
     \<and> (case r of ResErr _ \<Rightarrow> open_handles w' = open_handles w | ResVal pp \<Rightarrow> releases open_handles sys ws w (win_pipe_under pp) w')"
proof (cases "parse address")
  case (ResErr s)
  then show ?thesis by (simp add: win_dial_def)
next
  case (ResVal a)
  consider "scheme a = Scheme_kTcp" | "scheme a = Scheme_kShm" | "scheme a = Scheme_kPipe"
    | "scheme a \<notin> {Scheme_kTcp, Scheme_kShm, Scheme_kPipe}" by blast
  then show ?thesis
  proof cases
    case 1
    obtain r c' w' where d: "win_tcp_dial startup sys (tcp a) opt (c, w) = (r, c', w')" by (metis surj_pair)
    with 1 ResVal win_tcp_dial_handles [OF d] show ?thesis by (cases r) (auto simp: win_dial_def)
  next
    case 2
    obtain r w' where d: "win_shm_dial ws rd1 rd2 (name a) opt w = Some (r, w')"
      and h: "case r of ResErr _ \<Rightarrow> open_handles w' = open_handles w
        | ResVal p \<Rightarrow> wp_owner p \<and> wp_is_client p \<and> win_handles_ok (wp_handles p)
          \<and> open_handles (snd (win_close ws p w')) = open_handles w"
      using win_dial_handles by blast
    with 2 ResVal show ?thesis by (cases r) (auto simp: win_dial_def releases_def win_base_close_def)
  next
    case 3
    obtain r w' where d: "pipe_dial (ws_np ws) (name a) opt w = (r, w')" by force
    with 3 ResVal pipe_dial_releases [OF d] show ?thesis by (cases r) (auto simp: win_dial_def)
  next
    case 4
    with ResVal show ?thesis by (simp add: win_dial_def)
  qed
qed

end

lemma to_timeval_exact:
  assumes "0 \<le> t" "t < 2147483648000"
  shows "fst (to_timeval t) * 1000000 + snd (to_timeval t) = t * 1000 \<and> 0 \<le> snd (to_timeval t)
    \<and> snd (to_timeval t) < 1000000"
proof -
  have "t sdiv 1000 = t div 1000" "t smod 1000 = t mod 1000"
    using assms(1) by (simp_all add: signed_divide_int_def signed_modulo_int_def sgn_if)
  moreover have "0 \<le> t div 1000" "t div 1000 < 2 ^ 31" "0 \<le> t mod 1000" "t mod 1000 < 1000" using assms by auto
  moreover have "int_cast32 x = x" if "0 \<le> x" "x < 2 ^ 31" for x using that by (simp add: int_cast32_def)
  moreover have "t div 1000 * 1000000 + t mod 1000 * 1000 = t * 1000" using div_mult_mod_eq [of t 1000] by linarith
  ultimately show ?thesis by (simp add: to_timeval_def)
qed

section \<open>A scripted system\<close>

text \<open>Sockets in the world of the shared-memory objects.\<close>

definition script_wsock :: "win_world sock_sys" where
  "script_wsock =
     \<lparr>sys_socket = (\<lambda>k. ww_alloc), sys_bind = (\<lambda>fd a w. (0, w)), sys_listen = (\<lambda>fd b w. (0, w)),
      sys_connect = (\<lambda>fd a w. (if ww_clock w < ww_server w then Some (EOTHER 10061) else None, w)),
      sys_accept = (\<lambda>fd. ww_alloc),
      sys_close = (\<lambda>h w. (0, w\<lparr>ww_closed := insert h (ww_closed w)\<rparr>)), sys_unlink = (\<lambda>p w. (0, w)),
      sys_setsockopt = (\<lambda>fd n w. (0, w)), sys_so_error = (\<lambda>fd w. (Some 0, w)),
      sys_getaddrinfo = (\<lambda>h p f w. (Some [\<lparr>ai_kind = Resolved 2 1 6, ai_addr = ''v4''\<rparr>], w)),
      sys_getsockname = (\<lambda>fd w. (Some 40000, w)),
      sys_poll = (\<lambda>fd ev t w. ((1, \<lparr>pollhup = False, pollerr = False, pollnval = False\<rparr>), w)),
      sys_getfl = (\<lambda>fd w. (0, w)), sys_setfl = (\<lambda>fd fl w. (0, w)), sys_errno_text = (\<lambda>w. [])\<rparr>"

interpretation script_wsock: descriptors script_wsock ww_open
  by unfold_locales
    (auto simp: script_wsock_def new_fd_def ww_open_def ww_alloc_def Let_def)

interpretation script_windows: windows script_win ww_open "\<lambda>t w. t - ww_clock w" script_wsock "\<lambda>w. (0, w)"
  by unfold_locales simp

section \<open>Addresses of listeners\<close>

definition win_listener_address :: "win_listener \<Rightarrow> string Result" where
  "win_listener_address l =
     (case l of WTcpListener t \<Rightarrow> tcp_local_address t | WShmListener t \<Rightarrow> win_local_address t
      | WPipeListener t \<Rightarrow> np_local_address t)"

lemma win_tcp_listen_ResVal:
  "win_tcp_listen startup sys a opt cw = (ResVal l, cw') \<Longrightarrow> tl_fd l \<noteq> kInvalidSocket \<and> tl_host l = host a"
  by (auto simp: win_tcp_listen_def win_listen_tcp_def listen_tcp_def split: prod.splits option.splits Result.splits if_splits)

lemma win_listen_ResVal:
  assumes "win_listen startup sys ws address opt cw = (ResVal l, cw')"
  obtains t where "l = WTcpListener t" "tl_fd t \<noteq> kInvalidSocket" "tl_host t \<noteq> []"
  | nm t where "l = WShmListener t" "wl_names t = win_make_names nm ''0000000000000000''"
  | nm where "l = WPipeListener (mk_NamedPipeListener (make_pipe_path nm) (backlog opt))"
proof -
  have shm: "wl_names t = win_make_names nm ''0000000000000000''" if "win_shm_listen ws nm opt w = (ResVal t, w')" for nm w t w'
    using that by (auto simp: win_shm_listen_def Let_def split: prod.splits Result.splits)
  from assms that show ?thesis
    by (auto simp: win_listen_def pipe_listen_def dest: shm split: Result.splits prod.splits if_splits)
      (metis win_tcp_listen_ResVal parse_host)+
qed

lemma np_address_back:
  "np_local_address (mk_NamedPipeListener (make_pipe_path nm) n) = ResVal (''pipe://'' @ np_sanitize_name nm)"
proof -
  have "find_sub pipe_prefix (make_pipe_path nm) = Some 0"
    using find_sub.simps(2) [of pipe_prefix] by (simp add: make_pipe_path_def pipe_prefix_def)
  then show ?thesis by (simp add: np_local_address_def mk_NamedPipeListener_def make_pipe_path_def)
qed

lemma win_names_back:
  "wn_bootstrap (win_make_names (wn_base (win_make_names nm cid)) cid') = wn_bootstrap (win_make_names nm cid)"
  "wn_base (win_make_names nm cid) \<noteq> []"
  by (simp add: win_make_names_def Let_def) (simp add: win_make_names_def Let_def sanitize_name_def)

section \<open>Properties of the Windows build\<close>



text \<open>
  On Windows frames are moved exactly as in the POSIX build once Winsock is up: \<open>write_frame\<close> and
  \<open>read_frame\<close> start Winsock at most once, report a failed start without touching the socket, and
  otherwise give the result, and have the effect, of the POSIX functions.
\<close>

theorem win_frames_equivalent:
  "win_write_frame e startup osend fd msg fl cw =
     (if msg_size msg > kMaxFramePayload then
        Some (invalid_argument ''message too large; enable fragmentation (todo)'', cw)
      else case ensure_winsock_wire startup cw of (wsa, c, w) \<Rightarrow>
        if \<not> status_ok wsa then Some (wsa, c, w)
        else map_option (\<lambda>(st, w'). (st, c, w')) (write_frame e osend fd msg fl w))
   \<and> win_read_frame e startup orecv fd cw =
     (case ensure_winsock_wire startup cw of (wsa, c, w) \<Rightarrow>
        if \<not> status_ok wsa then Some (ResErr wsa, c, w)
        else map_option (\<lambda>(r, w'). (r, c, w')) (read_frame e orecv fd w))
   \<and> ensure_winsock_wire startup (snd (ensure_winsock_wire startup cw)) = ensure_winsock_wire startup cw"
  using win_write_frame_gate [of e startup osend fd msg fl cw] win_read_frame_gate [of e startup orecv fd cw]
    ensure_wire_again [of startup cw] by (cases "ensure_winsock_wire startup cw") simp

text \<open>
  C36: On Windows \<open>dial\<close> returns for every address, options and transport, and leaks no handle: after
  an error the open handles are those of before, and after a success closing the transport's
  pipe restores them, whether or not it is wrapped for quality of service.
\<close>

theorem win_dial_no_leak:
  assumes "windows ws open_handles rounds sys startup"
  shows "\<exists>r c' w'. win_dial startup sys ws rd1 rd2 address opt (c, w) = Some (r, c', w')
     \<and> (case r of
          ResErr _ \<Rightarrow> open_handles w' = open_handles w
        | ResVal pp \<Rightarrow> open_handles (win_base_close sys ws (win_pipe_under pp) w') = open_handles w)"
  using windows.win_dial_releases [OF assms, of rd1 rd2 address opt c w] unfolding releases_def .

lemma win_dial_no_leak_witness:
  "\<exists>r c' w'. win_dial (\<lambda>w. (0, w)) script_wsock script_win 1 2 ''pipe://x'' DialOptions_default
       (winsock_unused, sample_win_world) = Some (r, c', w')
     \<and> (case r of
          ResErr _ \<Rightarrow> ww_open w' = {1, 2, 3, 4, 5}
        | ResVal pp \<Rightarrow> ww_open (win_base_close script_wsock script_win (win_pipe_under pp) w') = {1, 2, 3, 4, 5})"
proof -
  have o: "ww_open sample_win_world = {1, 2, 3, 4, 5}" by (auto simp: ww_open_def sample_win_world_def)
  show ?thesis
    using win_dial_no_leak [OF script_windows.windows_axioms, of 1 2 "''pipe://x''" DialOptions_default
        winsock_unused sample_win_world] unfolding o .
qed

end
