(* ===== verification/Duct_Async.thy ===== *)
theory Duct_Async
  imports Duct_Dial Duct_Fifo
begin

text \<open>
  \<^verbatim>\<open>include/duct/async.h\<close>: operations run on another thread, the polling event loop, the channel and
  the background echo server. A future is the outcome of the function it runs: a value or the
  exception it threw. The channel and the event loop are also modelled with their threads, one
  step per critical section.
\<close>

section \<open>Operations on another thread\<close>

text \<open>
  \<open>AsyncResult\<close> wraps a future: without one (default constructed or already read), still running, or
  done with a value or the exception the function threw. \<open>get\<close> waits for the outcome and gives the
  future up; calling it without one is an error of the program (the inner \<open>None\<close>), and \<open>finish\<close>, the
  outcome of the running function, is \<open>None\<close> if it never ends.
\<close>

datatype 'a AsyncResult = NoFuture | Running | Ready "Exception + 'a"

datatype future_status = FutureReady | FutureTimeout

definition ar_get :: "(Exception + 'a) option \<Rightarrow> 'a AsyncResult \<Rightarrow> ((Exception + 'a) option \<times> 'a AsyncResult) option" where
  "ar_get finish r =
     (case r of
        NoFuture \<Rightarrow> Some (None, NoFuture)
      | Running \<Rightarrow> map_option (\<lambda>x. (Some x, NoFuture)) finish
      | Ready x \<Rightarrow> Some (Some x, NoFuture))"

text \<open>\<open>wait_for\<close>: what the running function has become when the timeout is over.\<close>

definition ar_wait_for :: "(Exception + 'a) option \<Rightarrow> 'a AsyncResult \<Rightarrow> (future_status \<times> 'a AsyncResult) option" where
  "ar_wait_for finished r =
     (case r of
        NoFuture \<Rightarrow> None
      | Running \<Rightarrow> Some (case finished of None \<Rightarrow> (FutureTimeout, Running) | Some x \<Rightarrow> (FutureReady, Ready x))
      | Ready x \<Rightarrow> Some (FutureReady, r))"

definition ar_is_ready :: "(Exception + 'a) option \<Rightarrow> 'a AsyncResult \<Rightarrow> bool option" where
  "ar_is_ready finished r = map_option (\<lambda>(s, _). s = FutureReady) (ar_wait_for finished r)"

text \<open>A result that is ready gives its outcome at once, and only once.\<close>

lemma ar_ready_get:
  assumes "ar_is_ready finished r = Some True"
  obtains x r' where "ar_wait_for finished r = Some (FutureReady, r')" "ar_get None r' = Some (Some x, NoFuture)"
    "\<And>fin. ar_get fin NoFuture = Some (None, NoFuture)"
  using assms
  by (auto simp: ar_is_ready_def ar_wait_for_def ar_get_def split: AsyncResult.splits option.splits)

definition async_send :: "'p psend \<Rightarrow> Message \<Rightarrow> 'p \<Rightarrow> ((Exception + unit) \<times> 'p) option" where
  "async_send psend msg p = map_option (apfst throw_if_error) (psend msg SendOptions_default p)"

definition async_recv :: "'p precv \<Rightarrow> Message \<Rightarrow> 'p \<Rightarrow> ((Exception + Message) \<times> 'p) option" where
  "async_recv precv dflt p = map_option (apfst (value_or_throw dflt)) (precv RecvOptions_default p)"

definition async_dial ::
  "'w sock_sys \<Rightarrow> 'w shm_sys \<Rightarrow> 'w sys_send \<Rightarrow> u32 \<Rightarrow> u32 \<Rightarrow> any_pipe \<Rightarrow> string \<Rightarrow> DialOptions \<Rightarrow> 'w
     \<Rightarrow> ((Exception + any_pipe) \<times> 'w) option" where
  "async_dial sys os osend rd1 rd2 null address opt w =
     map_option (apfst (value_or_throw null)) (dial sys os osend rd1 rd2 address opt w)"

definition async_listen ::
  "'w sock_sys \<Rightarrow> any_listener \<Rightarrow> string \<Rightarrow> ListenOptions \<Rightarrow> 'w \<Rightarrow> (Exception + any_listener) \<times> 'w" where
  "async_listen sys null address opt w = apfst (value_or_throw null) (listen sys address opt w)"

text \<open>With a callback, which has a state of its own, the result is handed over as it is.\<close>

definition async_send_cb ::
  "'p psend \<Rightarrow> Message \<Rightarrow> (Status \<Rightarrow> 'h \<Rightarrow> 'h) \<Rightarrow> 'p \<Rightarrow> 'h \<Rightarrow> ('p \<times> 'h) option" where
  "async_send_cb psend msg callback p h =
     map_option (\<lambda>(st, p'). (p', callback st h)) (psend msg SendOptions_default p)"

definition async_recv_cb ::
  "'p precv \<Rightarrow> (Message Result \<Rightarrow> 'h \<Rightarrow> 'h) \<Rightarrow> 'p \<Rightarrow> 'h \<Rightarrow> ('p \<times> 'h) option" where
  "async_recv_cb precv callback p h =
     map_option (\<lambda>(r, p'). (p', callback r h)) (precv RecvOptions_default p)"

lemma async_recv_outcome:
  "async_recv precv d p = Some (out, p') \<longleftrightarrow>
     (\<exists>r. precv RecvOptions_default p = Some (r, p') \<and> out = value_or_throw d r)"
  by (auto simp: async_recv_def)

section \<open>The channel\<close>

record 'a Channel =
  ch_queue :: "'a list"
  ch_closed :: bool

definition mk_Channel :: "'a Channel" where
  "mk_Channel = \<lparr>ch_queue = [], ch_closed = False\<rparr>"

text \<open>\<open>send\<close> returns whether it queued the item; if it did, it notifies one receiver.\<close>

definition ch_send :: "'a \<Rightarrow> 'a Channel \<Rightarrow> bool \<times> 'a Channel" where
  "ch_send item c = (if \<not> ch_closed c then (True, c\<lparr>ch_queue := ch_queue c @ [item]\<rparr>) else (False, c))"

definition recv_pred :: "'a Channel \<Rightarrow> bool" where
  "recv_pred c \<longleftrightarrow> ch_queue c \<noteq> [] \<or> ch_closed c"

text \<open>What both \<open>recv\<close>, once its wait is over, and \<open>try_recv\<close> do.\<close>

definition take_front :: "'a Channel \<Rightarrow> 'a option \<times> 'a Channel" where
  "take_front c = (case ch_queue c of [] \<Rightarrow> (None, c) | x # xs \<Rightarrow> (Some x, c\<lparr>ch_queue := xs\<rparr>))"

definition ch_recv :: "'a Channel \<Rightarrow> ('a option \<times> 'a Channel) option" where
  "ch_recv c = (if recv_pred c then Some (take_front c) else None)"

definition ch_try_recv :: "'a Channel \<Rightarrow> 'a option \<times> 'a Channel" where
  "ch_try_recv c = take_front c"

definition ch_close :: "'a Channel \<Rightarrow> 'a Channel" where
  "ch_close c = c\<lparr>ch_closed := True\<rparr>"

definition ch_empty :: "'a Channel \<Rightarrow> bool" where
  "ch_empty c \<longleftrightarrow> ch_queue c = []"

definition ch_put :: "'a \<Rightarrow> 'a Channel \<Rightarrow> 'a Channel option" where
  "ch_put x c = (case ch_send x c of (ok, c') \<Rightarrow> if ok then Some c' else None)"

definition ch_get :: "'a Channel \<Rightarrow> ('a \<times> 'a Channel) option" where
  "ch_get c = (case ch_try_recv c of (r, c') \<Rightarrow> map_option (\<lambda>x. (x, c')) r)"

interpretation ch_fifo: fifo "\<lambda>c. True" ch_queue ch_put ch_get
  by unfold_locales
    (auto simp: ch_put_def ch_send_def ch_get_def ch_try_recv_def take_front_def split: if_splits list.splits)

section \<open>Threads of a channel\<close>

text \<open>
  A thread is outside, sleeps in \<open>recv\<close>, or was woken and has not yet got the mutex back. The ghost
  lists record what was queued and what was handed out, in order.
\<close>

datatype ch_thread = ROut | RAsleep | RWoken

record 'a ch_sys =
  chan :: "'a Channel"
  ch_threads :: "ch_thread list"
  ch_sent :: "'a list"
  ch_got :: "'a list"

definition ch_init :: "nat \<Rightarrow> 'a ch_sys" where
  "ch_init n = \<lparr>chan = mk_Channel, ch_threads = replicate n ROut, ch_sent = [], ch_got = []\<rparr>"

definition wake_receiver :: "ch_thread \<Rightarrow> ch_thread" where
  "wake_receiver t = (if t = RAsleep then RWoken else t)"

definition got_item :: "'a option \<Rightarrow> 'a Channel \<Rightarrow> 'a ch_sys \<Rightarrow> 'a ch_sys" where
  "got_item r c s = s\<lparr>chan := c, ch_got := ch_got s @ (case r of None \<Rightarrow> [] | Some x \<Rightarrow> [x])\<rparr>"

text \<open>
  \<open>notify_one\<close> wakes some sleeping thread if there is one; any thread may close, send or try to
  receive at any time.
\<close>

inductive ch_step :: "'a ch_sys \<Rightarrow> 'a ch_sys \<Rightarrow> bool" where
  ch_send_wakes: "ch_send x (chan s) = (True, c) \<Longrightarrow> i < length (ch_threads s) \<Longrightarrow> ch_threads s ! i = RAsleep \<Longrightarrow>
    ch_step s (s\<lparr>chan := c, ch_sent := ch_sent s @ [x], ch_threads := (ch_threads s)[i := RWoken]\<rparr>)"
| ch_send_alone: "ch_send x (chan s) = (True, c) \<Longrightarrow> RAsleep \<notin> set (ch_threads s) \<Longrightarrow>
    ch_step s (s\<lparr>chan := c, ch_sent := ch_sent s @ [x]\<rparr>)"
| ch_recv_now: "i < length (ch_threads s) \<Longrightarrow> ch_threads s ! i = ROut \<or> ch_threads s ! i = RWoken \<Longrightarrow>
    ch_recv (chan s) = Some (r, c) \<Longrightarrow>
    ch_step s (got_item r c (s\<lparr>ch_threads := (ch_threads s)[i := ROut]\<rparr>))"
| ch_recv_sleep: "i < length (ch_threads s) \<Longrightarrow> ch_threads s ! i = ROut \<or> ch_threads s ! i = RWoken \<Longrightarrow>
    ch_recv (chan s) = None \<Longrightarrow> ch_step s (s\<lparr>ch_threads := (ch_threads s)[i := RAsleep]\<rparr>)"
| ch_spurious: "i < length (ch_threads s) \<Longrightarrow> ch_threads s ! i = RAsleep \<Longrightarrow>
    ch_step s (s\<lparr>ch_threads := (ch_threads s)[i := RWoken]\<rparr>)"
| ch_tried: "ch_try_recv (chan s) = (r, c) \<Longrightarrow> ch_step s (got_item r c s)"
| ch_closing: "ch_step s (s\<lparr>chan := ch_close (chan s), ch_threads := map wake_receiver (ch_threads s)\<rparr>)"

definition ch_ordered :: "'a ch_sys \<Rightarrow> bool" where
  "ch_ordered s \<longleftrightarrow> ch_got s @ ch_queue (chan s) = ch_sent s"

definition ch_awake :: "'a ch_sys \<Rightarrow> bool" where
  "ch_awake s \<longleftrightarrow> (RAsleep \<in> set (ch_threads s) \<longrightarrow>
     \<not> ch_closed (chan s) \<and> length (ch_queue (chan s)) \<le> length (filter ((=) RWoken) (ch_threads s)))"

lemma ch_ordered_step: "ch_step s s' \<Longrightarrow> ch_ordered s \<Longrightarrow> ch_ordered s'"
  by (induction rule: ch_step.induct)
    (auto simp: ch_ordered_def ch_send_def ch_recv_def ch_try_recv_def take_front_def got_item_def ch_close_def
      split: if_splits list.splits)

lemma RAsleep_update: "RAsleep \<in> set (ts[i := t]) \<Longrightarrow> t = RAsleep \<or> RAsleep \<in> set ts"
  using set_update_subset_insert [of ts i t] by auto

lemma woken_update:
  "i < length ts \<Longrightarrow> length (filter ((=) RWoken) (ts[i := t]))
     = length (filter ((=) RWoken) ts) + of_bool (t = RWoken) - of_bool (ts ! i = RWoken)"
  using length_filter_update [of i ts "(=) RWoken" t] by (auto split: if_splits)

lemma no_sleepers [simp]: "RAsleep \<notin> wake_receiver ` X"
  by (auto simp: wake_receiver_def)

lemma ch_awake_step:
  assumes "ch_step s s'" "ch_awake s"
  shows "ch_awake s'"
  using assms
proof (induction rule: ch_step.induct)
  case (ch_send_wakes x s c i)
  then have "RAsleep \<in> set (ch_threads s)" by (metis nth_mem)
  with ch_send_wakes show ?case by (auto simp: ch_awake_def ch_send_def woken_update split: if_splits)
qed (auto simp: ch_awake_def ch_send_def ch_recv_def recv_pred_def ch_try_recv_def take_front_def got_item_def
    woken_update split: if_splits list.splits dest!: RAsleep_update)

section \<open>The event loop\<close>

text \<open>The callbacks of an entry may be empty; they act on a state of their own.\<close>

record ('p, 'h) PipeEntry =
  pe_pipe :: 'p
  pe_on_message :: "(Message \<Rightarrow> 'h \<Rightarrow> 'h) option"
  pe_on_error :: "(Status \<Rightarrow> 'h \<Rightarrow> 'h) option"

definition add_pipe ::
  "'p \<Rightarrow> (Message \<Rightarrow> 'h \<Rightarrow> 'h) option \<Rightarrow> (Status \<Rightarrow> 'h \<Rightarrow> 'h) option \<Rightarrow> ('p, 'h) PipeEntry list
     \<Rightarrow> ('p, 'h) PipeEntry list" where
  "add_pipe p on_message on_error pipes =
     pipes @ [\<lparr>pe_pipe = p, pe_on_message = on_message, pe_on_error = on_error\<rparr>]"

definition call_opt :: "('x \<Rightarrow> 'h \<Rightarrow> 'h) option \<Rightarrow> 'x \<Rightarrow> 'h \<Rightarrow> 'h" where
  "call_opt f x h = (case f of None \<Rightarrow> h | Some g \<Rightarrow> g x h)"

definition poll_entry ::
  "'p precv \<Rightarrow> ('p, 'h) PipeEntry \<Rightarrow> 'h \<Rightarrow> (bool \<times> ('p, 'h) PipeEntry \<times> 'h) option" where
  "poll_entry precv e h =
     (case precv \<lparr>rcv_timeout = 100\<rparr> (pe_pipe e) of
        None \<Rightarrow> None
      | Some (msg, p') \<Rightarrow>
          Some (case msg of
            ResVal m \<Rightarrow> (True, e\<lparr>pe_pipe := p'\<rparr>, call_opt (pe_on_message e) m h)
          | ResErr st \<Rightarrow>
              (False, e\<lparr>pe_pipe := p'\<rparr>,
               if code st \<noteq> kTimeout \<and> code st \<noteq> kClosed then call_opt (pe_on_error e) st h else h)))"

text \<open>One round over all pipes; the result says whether there was any activity.\<close>

fun poll_pass ::
  "'p precv \<Rightarrow> ('p, 'h) PipeEntry list \<Rightarrow> 'h \<Rightarrow> (bool \<times> ('p, 'h) PipeEntry list \<times> 'h) option" where
  "poll_pass precv [] h = Some (False, [], h)"
| "poll_pass precv (e # es) h =
     (case poll_entry precv e h of
        None \<Rightarrow> None
      | Some (a, e', h') \<Rightarrow>
          (case poll_pass precv es h' of
             None \<Rightarrow> None
           | Some (b, es', h'') \<Rightarrow> Some (a \<or> b, e' # es', h'')))"

text \<open>
  The thread running the loop, and a caller of \<open>stop\<close>. The loop holds the mutex while it polls and
  gives it up only inside \<open>wait_for\<close>; \<open>stop\<close> holds it while it joins.
\<close>

datatype el_holder = HFree | HLoop | HStop

datatype el_loop = LNone | LStart | LHead | LAsleep | LWoken | LDone

datatype el_stopper = StOut | StJoin

record el_sys =
  el_mutex :: el_holder
  el_running :: bool
  el_background :: bool
  el_loop :: el_loop
  el_stopper :: el_stopper

definition el_init :: el_sys where
  "el_init =
     \<lparr>el_mutex = HFree, el_running = True, el_background = False, el_loop = LNone, el_stopper = StOut\<rparr>"

definition el_notify :: "el_loop \<Rightarrow> el_loop" where
  "el_notify l = (if l = LAsleep then LWoken else l)"

inductive el_step :: "el_sys \<Rightarrow> el_sys \<Rightarrow> bool" where
  run_in_background: "el_mutex s = HFree \<Longrightarrow> el_loop s = LNone \<Longrightarrow>
    el_step s (s\<lparr>el_running := True, el_background := True, el_loop := LStart\<rparr>)"
| run_here: "el_loop s = LNone \<Longrightarrow> el_step s (s\<lparr>el_background := False, el_loop := LStart\<rparr>)"
| lock: "el_loop s = LStart \<or> el_loop s = LWoken \<Longrightarrow> el_mutex s = HFree \<Longrightarrow>
    el_step s (s\<lparr>el_mutex := HLoop, el_loop := LHead\<rparr>)"
| leave: "el_loop s = LHead \<Longrightarrow> \<not> el_running s \<Longrightarrow> el_step s (s\<lparr>el_mutex := HFree, el_loop := LDone\<rparr>)"
| active: "el_loop s = LHead \<Longrightarrow> el_running s \<Longrightarrow> el_step s s"
| idle: "el_loop s = LHead \<Longrightarrow> el_running s \<Longrightarrow> el_step s (s\<lparr>el_mutex := HFree, el_loop := LAsleep\<rparr>)"
| wake: "el_loop s = LAsleep \<Longrightarrow> el_step s (s\<lparr>el_loop := LWoken\<rparr>)"
| add: "el_mutex s = HFree \<Longrightarrow> el_step s (s\<lparr>el_loop := el_notify (el_loop s)\<rparr>)"
| stop_alone: "el_stopper s = StOut \<Longrightarrow> el_mutex s = HFree \<Longrightarrow> \<not> (el_background s \<and> el_loop s \<noteq> LNone) \<Longrightarrow>
    el_step s (s\<lparr>el_running := False, el_loop := el_notify (el_loop s)\<rparr>)"
| stop_begin: "el_stopper s = StOut \<Longrightarrow> el_mutex s = HFree \<Longrightarrow> el_background s \<Longrightarrow> el_loop s \<noteq> LNone \<Longrightarrow>
    el_step s (s\<lparr>el_mutex := HStop, el_running := False, el_loop := el_notify (el_loop s), el_stopper := StJoin\<rparr>)"
| stop_joined: "el_stopper s = StJoin \<Longrightarrow> el_loop s = LDone \<Longrightarrow>
    el_step s (s\<lparr>el_mutex := HFree, el_loop := LNone, el_stopper := StOut\<rparr>)"
| returned_here: "el_loop s = LDone \<Longrightarrow> \<not> el_background s \<Longrightarrow> el_step s (s\<lparr>el_loop := LNone\<rparr>)"

definition el_inv :: "el_sys \<Rightarrow> bool" where
  "el_inv s \<longleftrightarrow>
     (el_mutex s = HLoop \<longleftrightarrow> el_loop s = LHead)
   \<and> (el_mutex s = HStop \<longleftrightarrow> el_stopper s = StJoin)
   \<and> (el_background s \<and> el_stopper s = StOut \<and> el_loop s \<noteq> LNone \<longrightarrow> el_running s)
   \<and> (el_background s \<longrightarrow> el_loop s \<noteq> LDone)
   \<and> (el_stopper s = StJoin \<longrightarrow> el_background s \<and> (el_loop s = LStart \<or> el_loop s = LWoken))"

lemma el_inv_step: "el_step s s' \<Longrightarrow> el_inv s \<Longrightarrow> el_inv s'"
  by (induction rule: el_step.induct)
    (auto simp: el_inv_def el_notify_def, metis el_stopper.exhaust, metis el_loop.exhaust)

lemma el_inv_reach: "el_step\<^sup>*\<^sup>* el_init s \<Longrightarrow> el_inv s"
  by (induction rule: rtranclp_induct) (simp add: el_inv_def el_init_def, rule el_inv_step)

lemma el_joining_step: "el_step s s' \<Longrightarrow> el_inv s \<Longrightarrow> el_stopper s = StJoin \<Longrightarrow> s' = s"
  by (induction rule: el_step.induct) (auto simp: el_inv_def el_notify_def)

section \<open>The background echo server\<close>

text \<open>One connection: unlike \<open>echo_server\<close>, the result of \<open>send\<close> is ignored.\<close>

partial_function (option) echo_connection :: "'p psend \<Rightarrow> 'p precv \<Rightarrow> 'p \<Rightarrow> 'p option" where
  "echo_connection psend precv p =
     (case precv RecvOptions_default p of
        None \<Rightarrow> None
      | Some (r, p') \<Rightarrow>
          (case r of
             ResErr st \<Rightarrow> Some p'
           | ResVal m \<Rightarrow>
               (case psend m SendOptions_default p' of
                  None \<Rightarrow> None
                | Some (st, p'') \<Rightarrow> echo_connection psend precv p'')))"

text \<open>Starting the server: the listener, or the exception \<open>listen\<close> leads to; no thread runs before.\<close>

definition server_listen ::
  "'w sock_sys \<Rightarrow> any_listener \<Rightarrow> string \<Rightarrow> 'w \<Rightarrow> (Exception + any_listener) \<times> 'w" where
  "server_listen sys null address w = apfst (value_or_throw null) (listen sys address ListenOptions_default w)"

text \<open>The accepting thread; the flag is read from the world. It collects the connections it spawned.\<close>

partial_function (option) accept_loop ::
  "('w \<Rightarrow> bool) \<Rightarrow> ('w \<Rightarrow> 'p Result \<times> 'w) \<Rightarrow> 'p list \<Rightarrow> 'w \<Rightarrow> ('p list \<times> 'w) option" where
  "accept_loop go accept conns w =
     (if \<not> go w then Some (conns, w)
      else case accept w of (r, w') \<Rightarrow>
        (case r of
           ResErr st \<Rightarrow> Some (conns, w')
         | ResVal p \<Rightarrow> accept_loop go accept (conns @ [p]) w'))"

definition stop_server :: "('w \<Rightarrow> 'w) \<Rightarrow> ('w \<Rightarrow> 'w) \<Rightarrow> 'w \<Rightarrow> 'w" where
  "stop_server clear_running close_listener w = close_listener (clear_running w)"

context framed_pipe
begin

text \<open>On a closed pipe, and at the end of the stream, the connection ends.\<close>

lemma echo_connection_end:
  "pinv p \<Longrightarrow> pclosed p \<or> incoming_of p = [] \<Longrightarrow> \<exists>p'. echo_connection psend precv p = Some p'"
  using closed_recv [of p RecvOptions_default] recv_end [of p RecvOptions_default]
  by (cases "pclosed p") (auto simp: echo_connection.simps [of psend precv p])

end

lemma server_listen_outcome:
  "server_listen sys null address w = (x, w') \<longleftrightarrow>
     (\<exists>r. listen sys address ListenOptions_default w = (r, w') \<and> x = value_or_throw null r)"
  by (auto simp: server_listen_def apfst_def map_prod_def split: prod.splits)

lemma accept_loop_stops:
  "\<not> go w \<or> (\<exists>st w'. accept w = (ResErr st, w')) \<Longrightarrow> \<exists>w'. accept_loop go accept conns w = Some (conns, w')"
  by (subst accept_loop.simps) auto

section \<open>Properties of the asynchronous layer\<close>

lemma ch_ordered_reach: "ch_step\<^sup>*\<^sup>* (ch_init n) s \<Longrightarrow> ch_ordered s"
  by (induction rule: rtranclp_induct) (simp add: ch_ordered_def ch_init_def mk_Channel_def, rule ch_ordered_step)

lemma ch_awake_reach: "ch_step\<^sup>*\<^sup>* (ch_init n) s \<Longrightarrow> ch_awake s"
  by (induction rule: rtranclp_induct) (simp add: ch_awake_def ch_init_def mk_Channel_def, rule ch_awake_step)

text \<open>
  C33: A channel shared by any number of threads hands out exactly what was sent, in order: what was
  received followed by what is queued is what was sent. And it strands no receiver: while one
  sleeps, the channel is open and for every queued item a woken receiver is on its way.
\<close>

theorem channel_threads:
  assumes "ch_step\<^sup>*\<^sup>* (ch_init n) s"
  shows "ch_got s @ ch_queue (chan s) = ch_sent s
     \<and> (RAsleep \<in> set (ch_threads s) \<longrightarrow> \<not> ch_closed (chan s)
          \<and> length (ch_queue (chan s)) \<le> length (filter ((=) RWoken) (ch_threads s)))"
  using ch_ordered_reach [OF assms] ch_awake_reach [OF assms] by (simp add: ch_ordered_def ch_awake_def)

lemma channel_threads_witness:
  "\<exists>s. ch_step\<^sup>*\<^sup>* (ch_init 1 :: nat ch_sys) s \<and> ch_sent s = [7] \<and> ch_got s @ ch_queue (chan s) = [7]"
proof -
  let ?s = "(ch_init 1 :: nat ch_sys)\<lparr>chan := \<lparr>ch_queue = [7], ch_closed = False\<rparr>, ch_sent := [7]\<rparr>"
  have "ch_step\<^sup>*\<^sup>* (ch_init 1) ?s"
    using ch_send_alone [of 7 "ch_init 1" "\<lparr>ch_queue = [7], ch_closed = False\<rparr>"]
    by (auto simp: ch_init_def mk_Channel_def ch_send_def)
  from channel_threads [OF this] this show ?thesis by fastforce
qed

text \<open>
  \<open>stop\<close> joins the background thread while it holds the mutex that thread needs: once \<open>stop\<close> waits,
  nothing can happen any more.
\<close>

theorem event_loop_stop_deadlock:
  assumes "el_step\<^sup>*\<^sup>* el_init s" "el_stopper s = StJoin" "el_step\<^sup>*\<^sup>* s s'"
  shows "s' = s \<and> el_loop s' \<noteq> LDone"
proof -
  have inv: "el_inv s" by (rule el_inv_reach [OF assms(1)])
  have "s' = s" using assms(3)
    by (induction rule: rtranclp_induct) (use el_joining_step inv assms(2) in auto)
  with inv assms(2) show ?thesis by (auto simp: el_inv_def)
qed

lemma event_loop_can_deadlock: "\<exists>s. el_step\<^sup>*\<^sup>* el_init s \<and> el_stopper s = StJoin"
proof -
  let ?b = "el_init\<lparr>el_background := True, el_loop := LStart\<rparr>"
  have "el_step el_init ?b" using run_in_background [of el_init] by (simp add: el_init_def)
  moreover have "el_step ?b (?b\<lparr>el_mutex := HStop, el_running := False, el_stopper := StJoin\<rparr>)"
    using stop_begin [of ?b] by (simp add: el_init_def el_notify_def)
  ultimately have "el_step\<^sup>*\<^sup>* el_init (?b\<lparr>el_mutex := HStop, el_running := False, el_stopper := StJoin\<rparr>)" by simp
  then show ?thesis by (intro exI conjI) (assumption, simp)
qed

end
