(* ===== verification/Duct_Server.thy ===== *)
theory Duct_Server
  imports Duct_Async
begin

text \<open>
  The threads of \<open>run_echo_serverInBackground\<close> (\<^verbatim>\<open>include/duct/async.h\<close>): the accepting thread, the thread
  that calls the returned stop function, and the handler threads, which are detached. Whether closing
  a listening descriptor wakes a thread blocked in \<open>accept\<close> on it is left to the system: it is the
  parameter \<open>wakes\<close>. (On Linux it does not: the call keeps the socket alive and may still return a
  connection.) What the stop function promises depends on it.
\<close>

section \<open>States and steps\<close>

text \<open>The accepting thread: at the head of its loop, about to call \<open>accept\<close>, in the system call, ended.\<close>

datatype acceptor = AHead | ACall | ABlocked | AEnded

text \<open>The stop function: not called, flag cleared, listener closed and joining, returned.\<close>

datatype stopper = SvIdle | SvFlagged | SvJoining | SvReturned

record ServerState =
  sv_running :: bool
  sv_open :: bool
  sv_acceptor :: acceptor
  sv_stopper :: stopper
  sv_handlers :: nat

definition server_start :: ServerState where
  "server_start = \<lparr>sv_running = True, sv_open = True, sv_acceptor = AHead, sv_stopper = SvIdle, sv_handlers = 0\<rparr>"

text \<open>
  The threads' own steps. An \<open>accept\<close> that is called on a closed listener reports the closed listener,
  and one that is woken by the closing fails; either ends the loop.
\<close>

inductive server_own :: "bool \<Rightarrow> ServerState \<Rightarrow> ServerState \<Rightarrow> bool" for wakes :: bool where
  loop_head: "sv_acceptor s = AHead \<Longrightarrow>
    server_own wakes s (s\<lparr>sv_acceptor := (if sv_running s then ACall else AEnded)\<rparr>)"
| accept_call: "sv_acceptor s = ACall \<Longrightarrow>
    server_own wakes s (s\<lparr>sv_acceptor := (if sv_open s then ABlocked else AEnded)\<rparr>)"
| accept_woken: "sv_acceptor s = ABlocked \<Longrightarrow> \<not> sv_open s \<Longrightarrow> wakes \<Longrightarrow>
    server_own wakes s (s\<lparr>sv_acceptor := AEnded\<rparr>)"
| stop_flag: "sv_stopper s = SvIdle \<Longrightarrow> server_own wakes s (s\<lparr>sv_running := False, sv_stopper := SvFlagged\<rparr>)"
| stop_close: "sv_stopper s = SvFlagged \<Longrightarrow> server_own wakes s (s\<lparr>sv_open := False, sv_stopper := SvJoining\<rparr>)"
| stop_join: "sv_stopper s = SvJoining \<Longrightarrow> sv_acceptor s = AEnded \<Longrightarrow>
    server_own wakes s (s\<lparr>sv_stopper := SvReturned\<rparr>)"

text \<open>What the world does to a blocked \<open>accept\<close>: a connection, for which a handler starts, or a failure.\<close>

inductive server_env :: "ServerState \<Rightarrow> ServerState \<Rightarrow> bool" where
  connection: "sv_acceptor s = ABlocked \<Longrightarrow>
    server_env s (s\<lparr>sv_acceptor := AHead, sv_handlers := Suc (sv_handlers s)\<rparr>)"
| accept_fails: "sv_acceptor s = ABlocked \<Longrightarrow> server_env s (s\<lparr>sv_acceptor := AEnded\<rparr>)"

definition server_step :: "bool \<Rightarrow> ServerState \<Rightarrow> ServerState \<Rightarrow> bool" where
  "server_step wakes s s' \<longleftrightarrow> server_own wakes s s' \<or> server_env s s'"

inductive_cases server_own_cases: "server_own wakes s s'"
inductive_cases server_env_cases: "server_env s s'"

lemmas server_step_cases = server_step_def server_own.simps server_env.simps

section \<open>Invariant and measure\<close>

definition server_inv :: "ServerState \<Rightarrow> bool" where
  "server_inv s \<longleftrightarrow>
     (sv_running s \<longleftrightarrow> sv_stopper s = SvIdle) \<and> (sv_open s \<longleftrightarrow> sv_stopper s \<in> {SvIdle, SvFlagged})
     \<and> (sv_stopper s = SvReturned \<longrightarrow> sv_acceptor s = AEnded)"

lemma server_inv_start: "server_inv server_start"
  by (simp add: server_inv_def server_start_def)

lemma server_inv_step: "server_step wakes s s' \<Longrightarrow> server_inv s \<Longrightarrow> server_inv s'"
  unfolding server_step_def by (elim disjE server_own_cases server_env_cases) (simp_all add: server_inv_def)

lemma server_inv_reach: "(server_step wakes)\<^sup>*\<^sup>* server_start s \<Longrightarrow> server_inv s"
  by (induction rule: rtranclp_induct) (auto intro: server_inv_start server_inv_step)

text \<open>How many steps are left at most once the stop function has been called.\<close>

fun acceptor_left :: "acceptor \<Rightarrow> nat" where
  "acceptor_left ACall = 3"
| "acceptor_left ABlocked = 2"
| "acceptor_left AHead = 1"
| "acceptor_left AEnded = 0"

fun stopper_left :: "stopper \<Rightarrow> nat" where
  "stopper_left SvIdle = 3"
| "stopper_left SvFlagged = 2"
| "stopper_left SvJoining = 1"
| "stopper_left SvReturned = 0"

definition server_left :: "ServerState \<Rightarrow> nat" where
  "server_left s = acceptor_left (sv_acceptor s) + stopper_left (sv_stopper s)"

lemma server_left_decreases:
  "server_step wakes s s' \<Longrightarrow> server_inv s \<Longrightarrow> sv_stopper s \<noteq> SvIdle \<Longrightarrow> server_left s' < server_left s"
  unfolding server_step_def by (elim disjE server_own_cases server_env_cases) (simp_all add: server_inv_def server_left_def)

lemma server_left_bound: "sv_stopper s \<noteq> SvIdle \<Longrightarrow> server_left s \<le> 5"
  by (cases "sv_acceptor s"; cases "sv_stopper s") (simp_all add: server_left_def)

lemma server_progress:
  assumes "server_inv s" "sv_stopper s \<noteq> SvReturned" "wakes"
  shows "\<exists>s'. server_own wakes s s'"
proof (cases "sv_stopper s")
  case SvJoining
  with assms show ?thesis by (cases "sv_acceptor s") (auto intro: server_own.intros simp: server_inv_def)
qed (use assms in \<open>auto intro: server_own.intros\<close>)

text \<open>After the flag is cleared at most one more connection gets a handler: the one a blocked call returns.\<close>

definition may_accept :: "acceptor \<Rightarrow> nat" where
  "may_accept a = (if a = ACall \<or> a = ABlocked then 1 else 0)"

lemma handlers_step:
  "server_step wakes s s' \<Longrightarrow> server_inv s \<Longrightarrow> sv_stopper s \<noteq> SvIdle \<Longrightarrow>
   sv_handlers s \<le> sv_handlers s' \<and> sv_handlers s' + may_accept (sv_acceptor s') \<le> sv_handlers s + may_accept (sv_acceptor s)
   \<and> sv_stopper s' \<noteq> SvIdle"
  unfolding server_step_def by (elim disjE server_own_cases server_env_cases) (simp_all add: server_inv_def may_accept_def)

lemma handlers_reach:
  assumes "(server_step wakes)\<^sup>*\<^sup>* s s'" "server_inv s" "sv_stopper s \<noteq> SvIdle"
  shows "sv_handlers s \<le> sv_handlers s' \<and> sv_handlers s' + may_accept (sv_acceptor s') \<le> sv_handlers s + may_accept (sv_acceptor s)
   \<and> sv_stopper s' \<noteq> SvIdle \<and> server_inv s'"
  using assms
proof (induction rule: rtranclp_induct)
  case (step y z)
  then show ?case using handlers_step [OF step.hyps(2)] server_inv_step [OF step.hyps(2)] by force
qed simp

section \<open>Properties of the background server\<close>

text \<open>
  C32: The stop function returns where closing the listener wakes a blocked \<open>accept\<close>: from any state reached
  after it was called the threads have at most five steps left, each step of theirs and of the world uses
  one up, and as long as the function has not returned one of them can move. When it has returned, the
  accepting thread has ended, and at most one connection was accepted after the call.
\<close>

theorem background_stop_returns:
  assumes "(server_step True)\<^sup>*\<^sup>* server_start s" "sv_stopper s \<noteq> SvIdle"
  shows "server_left s \<le> 5
     \<and> (\<forall>s'. server_step True s s' \<longrightarrow> server_left s' < server_left s)
     \<and> (if sv_stopper s = SvReturned then sv_acceptor s = AEnded else \<exists>s'. server_own True s s')
     \<and> (\<forall>s'. (server_step True)\<^sup>*\<^sup>* s s' \<longrightarrow> sv_handlers s' \<le> Suc (sv_handlers s))"
proof -
  note inv = server_inv_reach [OF assms(1)]
  have "may_accept (sv_acceptor s) \<le> 1" by (simp add: may_accept_def)
  then have "sv_handlers s' \<le> Suc (sv_handlers s)" if "(server_step True)\<^sup>*\<^sup>* s s'" for s'
    using handlers_reach [OF that inv assms(2)] by linarith
  with inv show ?thesis
    using server_left_bound [OF assms(2)] server_left_decreases [OF _ inv assms(2)] server_progress [OF inv]
    by (auto simp: server_inv_def)
qed

lemma background_stop_returns_witness:
  "\<exists>s'. server_own True (server_start\<lparr>sv_running := False, sv_stopper := SvFlagged\<rparr>) s'"
proof -
  have "(server_step True)\<^sup>*\<^sup>* server_start (server_start\<lparr>sv_running := False, sv_stopper := SvFlagged\<rparr>)"
    by (intro r_into_rtranclp) (simp add: server_step_cases server_start_def)
  from background_stop_returns [OF this] show ?thesis by simp
qed

text \<open>
  Where closing does not wake it, the stop function can wait for ever: with the acceptor blocked before
  the call, neither thread can move once the function joins; only a further connection, which is then
  accepted and served although the server is being stopped, or a failing \<open>accept\<close> lets it return.
\<close>

theorem background_stop_may_wait:
  "\<exists>s. (server_step False)\<^sup>*\<^sup>* server_start s \<and> sv_stopper s = SvJoining \<and> (\<nexists>s'. server_own False s s')
     \<and> (\<exists>s' s''. server_env s s' \<and> sv_handlers s' = 1 \<and> (server_own False)\<^sup>*\<^sup>* s' s'' \<and> sv_stopper s'' = SvReturned)"
proof -
  let ?s = "\<lambda>r op a p h. \<lparr>sv_running = r, sv_open = op, sv_acceptor = a, sv_stopper = p, sv_handlers = h\<rparr>"
  let ?stuck = "?s False False ABlocked SvJoining 0" and ?more = "?s False False AHead SvJoining 1"
  have "server_step False (?s True True AHead SvIdle 0) (?s True True ACall SvIdle 0)"
    "server_step False (?s True True ACall SvIdle 0) (?s True True ABlocked SvIdle 0)"
    "server_step False (?s True True ABlocked SvIdle 0) (?s False True ABlocked SvFlagged 0)"
    "server_step False (?s False True ABlocked SvFlagged 0) ?stuck"
    by (simp_all add: server_step_cases)
  then have "(server_step False)\<^sup>*\<^sup>* server_start ?stuck"
    unfolding server_start_def by (meson converse_rtranclp_into_rtranclp rtranclp.rtrancl_refl)
  moreover have "\<nexists>s'. server_own False ?stuck s'" by (auto elim: server_own_cases)
  moreover have "server_env ?stuck ?more" by (simp add: server_env.simps)
  moreover have "server_own False ?more (?s False False AEnded SvJoining 1)"
    "server_own False (?s False False AEnded SvJoining 1) (?s False False AEnded SvReturned 1)"
    by (simp_all add: server_own.simps)
  then have "(server_own False)\<^sup>*\<^sup>* ?more (?s False False AEnded SvReturned 1)"
    by (meson converse_rtranclp_into_rtranclp rtranclp.rtrancl_refl)
  ultimately show ?thesis
    by (intro exI [of _ ?stuck] conjI exI [of _ ?more] exI [of _ "?s False False AEnded SvReturned 1"]) simp_all
qed

end
