(* ===== verification/Duct_Api.thy ===== *)
theory Duct_Api
  imports Duct_Async
begin

text \<open>
  The interface \<^verbatim>\<open>include/duct/duct.h\<close> as a program linked with the library (POSIX build) sees it:
  \<open>listen\<close> and \<open>dial\<close>, and the virtual methods of \<open>Listener\<close> and \<open>Pipe\<close>, which call those of the
  transport the object belongs to, through the queue of a \<open>QosPipe\<close> where \<open>dial\<close> put one. A program
  runs in one thread; the worker thread of its quality-of-service pipe takes its turns between the
  calls of the program, as many as the schedule of the world says (a turn writes to the connection and
  \<open>recv\<close> reads from it, so a turn during a \<open>recv\<close> amounts to one before it).
\<close>

section \<open>The runtime\<close>

text \<open>
  What the world decides at a call on a quality-of-service pipe: the clock readings of the worker's
  turns before the call, the reading in the call, and the turns while the call waits for space.
\<close>

record sched =
  sched_turns :: "(time_point \<times> time_point) list"
  sched_now :: time_point
  sched_wait :: "(time_point \<times> time_point) list"

record 'w runtime =
  rt_sock :: "'w sock_sys"
  rt_shm :: "'w shm_sys"
  rt_sem :: "'w sem_sys"
  rt_send :: "'w sys_send"
  rt_recv :: "'w sys_recv"
  rt_endian :: endian
  rt_random :: "u32 \<times> u32"
  rt_layout :: "ShmPipe \<Rightarrow> 'w \<Rightarrow> ShmLayout"
  rt_set_layout :: "ShmPipe \<Rightarrow> ShmLayout \<Rightarrow> 'w \<Rightarrow> 'w"
  rt_sched :: "'w \<Rightarrow> sched \<times> 'w"

definition lib_listen :: "'w runtime \<Rightarrow> string \<Rightarrow> ListenOptions \<Rightarrow> 'w \<Rightarrow> any_listener Result \<times> 'w" where
  "lib_listen rt address opt w = listen (rt_sock rt) address opt w"

definition lib_dial :: "'w runtime \<Rightarrow> string \<Rightarrow> DialOptions \<Rightarrow> 'w \<Rightarrow> (any_pipe Result \<times> 'w) option" where
  "lib_dial rt address opt w =
     dial (rt_sock rt) (rt_shm rt) (rt_send rt) (fst (rt_random rt)) (snd (rt_random rt)) address opt w"

section \<open>Methods of the transports\<close>

definition base_send :: "'w runtime \<Rightarrow> (base_pipe \<times> 'w) psend" where
  "base_send rt msg opt pw =
     (case pw of
        (ATcpPipe p, w) \<Rightarrow>
          map_option (\<lambda>(st, p', w'). (st, ATcpPipe p', w')) (tcp_send (rt_endian rt) (rt_send rt) msg opt (p, w))
      | (AShmPipe p, w) \<Rightarrow>
          map_option (\<lambda>(st, m', w'). (st, AShmPipe p, rt_set_layout rt p m' w'))
            (shm_send (rt_sem rt) msg opt p (rt_layout rt p w, w)))"

definition base_recv :: "'w runtime \<Rightarrow> (base_pipe \<times> 'w) precv" where
  "base_recv rt opt pw =
     (case pw of
        (ATcpPipe p, w) \<Rightarrow>
          map_option (\<lambda>(r, p', w'). (r, ATcpPipe p', w')) (tcp_recv (rt_endian rt) (rt_recv rt) opt (p, w))
      | (AShmPipe p, w) \<Rightarrow>
          map_option (\<lambda>(r, m', w'). (r, AShmPipe p, rt_set_layout rt p m' w'))
            (shm_recv (rt_sem rt) opt p (rt_layout rt p w, w)))"

definition base_close :: "'w runtime \<Rightarrow> base_pipe \<times> 'w \<Rightarrow> base_pipe \<times> 'w" where
  "base_close rt pw =
     (case pw of
        (ATcpPipe p, w) \<Rightarrow> (case tcp_close (sys_close (rt_sock rt)) (p, w) of (p', w') \<Rightarrow> (ATcpPipe p', w'))
      | (AShmPipe p, w) \<Rightarrow> (case shm_close (rt_shm rt) p w of (p', w') \<Rightarrow> (AShmPipe p', w')))"

section \<open>The worker between two calls\<close>

text \<open>
  A quality-of-service pipe together with the world its transport acts on; \<open>None\<close> once a \<open>send\<close> of the
  transport does not return, which the worker calls with the mutex held.
\<close>

definition attach :: "'w \<Rightarrow> 'u QosPipe \<Rightarrow> ('u \<times> 'w) option QosPipe" where
  "attach w q = \<lparr>underlying = Some (underlying q, w), qos = qos q, send_queue = send_queue q,
     running = running q, send_bytes = send_bytes q, send_count = send_count q\<rparr>"

definition detach :: "('u \<times> 'w) option QosPipe \<Rightarrow> ('u QosPipe \<times> 'w) option" where
  "detach q = map_option (\<lambda>(u, w). (\<lparr>underlying = u, qos = qos q, send_queue = send_queue q,
     running = running q, send_bytes = send_bytes q, send_count = send_count q\<rparr>, w)) (underlying q)"

definition worker_send :: "'w runtime \<Rightarrow> (base_pipe \<times> 'w) option pipe_send" where
  "worker_send rt msg opt u =
     (case Option.bind u (base_send rt msg opt) of
        None \<Rightarrow> (timeout_status [], None)
      | Some (st, pw) \<Rightarrow> (st, Some pw))"

fun qos_turns ::
  "'w runtime \<Rightarrow> (time_point \<times> time_point) list \<Rightarrow> (base_pipe \<times> 'w) option QosPipe
     \<Rightarrow> (base_pipe \<times> 'w) option QosPipe" where
  "qos_turns rt [] q = q"
| "qos_turns rt ((now1, now2) # ts) q =
     (case worker_turn (worker_send rt) now1 now2 q of (_, q', _) \<Rightarrow> qos_turns rt ts q')"

text \<open>The turns before a call; once the pipe is closed the worker takes none.\<close>

definition qos_elapse :: "'w runtime \<Rightarrow> base_pipe QosPipe \<times> 'w \<Rightarrow> (base_pipe QosPipe \<times> 'w) option" where
  "qos_elapse rt qw =
     (case qw of (q, w) \<Rightarrow>
        if running q then
          (case rt_sched rt w of (sch, w1) \<Rightarrow> detach (qos_turns rt (sched_turns sch) (attach w1 q)))
        else Some (q, w))"

section \<open>The methods of \<open>Pipe\<close> and \<open>Listener\<close>\<close>

definition pipe_send :: "'w runtime \<Rightarrow> (any_pipe \<times> 'w) psend" where
  "pipe_send rt msg opt pw =
     (case pw of
        (Plain p, w) \<Rightarrow> map_option (\<lambda>(st, p', w'). (st, Plain p', w')) (base_send rt msg opt (p, w))
      | (WithQos q, w) \<Rightarrow>
          if \<not> running q then Some (closed_status ''pipe closed'', WithQos q, w)
          else
            (case rt_sched rt w of (sch, w1) \<Rightarrow>
               (case qos_send (sched_now sch) msg (qos_turns rt (sched_turns sch) (attach w1 q)) of
                  (Some st, _, q2) \<Rightarrow> map_option (\<lambda>(q', w'). (st, WithQos q', w')) (detach q2)
                | (None, _, q2) \<Rightarrow>
                    (case send_after_wait (sched_now sch) msg (qos_turns rt (sched_wait sch) q2) of
                       (st, _, q3) \<Rightarrow> map_option (\<lambda>(q', w'). (the st, WithQos q', w')) (detach q3)))))"

definition pipe_recv :: "'w runtime \<Rightarrow> (any_pipe \<times> 'w) precv" where
  "pipe_recv rt opt pw =
     (case pw of
        (Plain p, w) \<Rightarrow> map_option (\<lambda>(r, p', w'). (r, Plain p', w')) (base_recv rt opt (p, w))
      | (WithQos q, w) \<Rightarrow>
          Option.bind (qos_elapse rt (q, w))
            (\<lambda>(q1, w2). map_option (\<lambda>(r, p', w'). (r, WithQos (q1\<lparr>underlying := p'\<rparr>), w'))
               (base_recv rt opt (underlying q1, w2))))"

definition pipe_close :: "'w runtime \<Rightarrow> any_pipe \<times> 'w \<Rightarrow> (any_pipe \<times> 'w) option" where
  "pipe_close rt pw =
     (case pw of
        (Plain p, w) \<Rightarrow> Some (case base_close rt (p, w) of (p', w') \<Rightarrow> (Plain p', w'))
      | (WithQos q, w) \<Rightarrow>
          map_option (\<lambda>(q1, w2). case base_close rt (underlying q1, w2) of (p', w') \<Rightarrow>
              (WithQos (qos_close (\<lambda>_. p') q1), w'))
            (qos_elapse rt (q, w)))"

definition listener_accept :: "'w runtime \<Rightarrow> any_listener \<Rightarrow> 'w \<Rightarrow> (any_pipe Result \<times> 'w) option" where
  "listener_accept rt l w =
     (case l of
        ATcpListener t \<Rightarrow>
          (case tcp_accept (rt_sock rt) t w of (r, w') \<Rightarrow>
             Some (case r of ResErr s \<Rightarrow> ResErr s | ResVal p \<Rightarrow> ResVal (Plain (ATcpPipe p)), w'))
      | AShmListener s \<Rightarrow>
          map_option (\<lambda>(r, w'). (case r of ResErr s \<Rightarrow> ResErr s | ResVal p \<Rightarrow> ResVal (Plain (AShmPipe p)), w'))
            (shm_accept (rt_sock rt) (rt_shm rt) (rt_recv rt) s w))"

definition listener_address :: "any_listener \<Rightarrow> string Result" where
  "listener_address l = (case l of ATcpListener t \<Rightarrow> tcp_local_address t | AShmListener s \<Rightarrow> shm_local_address s)"

definition listener_close :: "'w runtime \<Rightarrow> any_listener \<times> 'w \<Rightarrow> any_listener \<times> 'w" where
  "listener_close rt lw =
     (case lw of
        (ATcpListener t, w) \<Rightarrow> (case tcp_listener_close (rt_sock rt) t w of (t', w') \<Rightarrow> (ATcpListener t', w'))
      | (AShmListener s, w) \<Rightarrow> (case shm_listener_close (rt_sock rt) s w of (s', w') \<Rightarrow> (AShmListener s', w')))"

section \<open>Closing\<close>

definition base_shut :: "base_pipe \<Rightarrow> bool" where
  "base_shut p = (case p of ATcpPipe t \<Rightarrow> tcp_fd t = kInvalidSocket
     | AShmPipe s \<Rightarrow> \<not> mem (handles s) \<and> shm_fd (handles s) < 0)"

definition api_shut :: "any_pipe \<times> 'w \<Rightarrow> bool" where
  "api_shut pw = (case fst pw of Plain p \<Rightarrow> base_shut p | WithQos q \<Rightarrow> \<not> running q \<and> base_shut (underlying q))"

text \<open>
  What the programs rely on: the socket calls are those of a stream socket, consulting the schedule
  moves no byte, closing a descriptor takes no sent byte back, and writing back the mapped memory as
  it was changes nothing.
\<close>

locale runtime_contract = stream_socket "rt_send rt" sent signals "rt_recv rt" pending
  for rt :: "'w runtime" and sent :: "int \<Rightarrow> 'w \<Rightarrow> byte_seq" and signals :: "'w \<Rightarrow> nat"
    and pending :: "int \<Rightarrow> 'w \<Rightarrow> byte_seq" +
  assumes sched_keeps: "sent fd (snd (rt_sched rt w)) = sent fd w" "pending fd (snd (rt_sched rt w)) = pending fd w"
    and close_keeps: "sent fd (snd (sys_close (rt_sock rt) fd' w)) = sent fd w"
    and layout_same: "rt_set_layout rt p (rt_layout rt p w) w = w"
begin

lemma base_shut_calls:
  assumes "base_shut p"
  shows "base_send rt msg opt (p, w) = Some (closed_status ''pipe closed'', p, w)"
    "base_recv rt ropt (p, w) = Some (ResErr (closed_status ''pipe closed''), p, w)"
    "base_close rt (p, w) = (p, w)"
  using assms
  by (cases p; auto simp: base_shut_def base_send_def base_recv_def base_close_def tcp_send_def tcp_recv_def
      tcp_close_def shm_send_def shm_recv_def shm_close_def layout_same)+

lemma base_close_shut: "base_shut (fst (base_close rt (p, w)))"
  by (cases p)
    (auto simp: base_close_def base_shut_def tcp_close_def shm_close_def close_handles_def ShmHandles_default_def
      Let_def split: prod.splits if_splits)

lemma api_shut_calls:
  assumes "api_shut pw"
  shows "pipe_send rt msg opt pw = Some (closed_status ''pipe closed'', pw)"
    "pipe_recv rt ropt pw = Some (ResErr (closed_status ''pipe closed''), pw)"
    "pipe_close rt pw = Some pw"
  using assms
  by (cases pw; cases "fst pw"; auto simp: api_shut_def pipe_send_def pipe_recv_def pipe_close_def qos_elapse_def
      base_shut_calls qos_close_def)+

lemma api_close_shut: "pipe_close rt pw = Some pw' \<Longrightarrow> api_shut pw'"
proof -
  assume c: "pipe_close rt pw = Some pw'"
  obtain pp w where pw: "pw = (pp, w)" by force
  show "api_shut pw'"
  proof (cases pp)
    case (Plain p)
    with c pw base_close_shut [of p w] show ?thesis
      by (simp add: pipe_close_def api_shut_def split: prod.splits) (metis Plain any_pipe.simps(5) fst_conv)
  next
    case (WithQos q)
    with c pw obtain q1 w1 where "pw' = (case base_close rt (underlying q1, w1) of (p', w') \<Rightarrow>
        (WithQos (qos_close (\<lambda>_. p') q1), w'))" by (auto simp: pipe_close_def)
    with base_close_shut [of "underlying q1" w1] show ?thesis
      by (auto simp: api_shut_def qos_close_def split: prod.splits)
  qed
qed

end

section \<open>Messages the transport refuses\<close>

lemma worker_send_oversized:
  "kMaxFramePayload < msg_size msg \<Longrightarrow> \<not> status_ok (fst (worker_send rt msg opt u))"
  by (auto simp: worker_send_def base_send_def tcp_send_def write_frame_def shm_send_def kSlotPayloadMax_def
      kMaxFramePayload_def split: option.splits bind_splits prod.splits base_pipe.splits if_splits)


section \<open>A scripted runtime\<close>

text \<open>
  Connections over the scripted stream socket: every name resolves, every socket call succeeds, shared
  memory is not available, and the worker takes one turn before every call.
\<close>

definition script_net :: "sock_world sock_sys" where
  "script_net = \<lparr>sys_socket = (\<lambda>k w. (3, w)), sys_bind = (\<lambda>fd a w. (0, w)), sys_listen = (\<lambda>fd b w. (0, w)),
       sys_connect = (\<lambda>fd a w. (None, w)), sys_accept = (\<lambda>fd w. (4, w)), sys_close = (\<lambda>fd w. (0, w)),
       sys_unlink = (\<lambda>p w. (0, w)), sys_setsockopt = (\<lambda>fd n w. (0, w)), sys_so_error = (\<lambda>fd w. (Some 0, w)),
       sys_getaddrinfo = (\<lambda>h p f w. (Some [\<lparr>ai_kind = Resolved 2 1 6, ai_addr = ''v4''\<rparr>], w)),
       sys_getsockname = (\<lambda>fd w. (Some 40000, w)),
       sys_poll = (\<lambda>fd ev t w. ((1, \<lparr>pollhup = False, pollerr = False, pollnval = False\<rparr>), w)),
       sys_getfl = (\<lambda>fd w. (0, w)), sys_setfl = (\<lambda>fd fl w. (0, w)), sys_errno_text = (\<lambda>w. [])\<rparr>"

definition no_shm :: "'w shm_sys" where
  "no_shm = \<lparr>os_shm_create = (\<lambda>n w. (-1, w)), os_shm_open = (\<lambda>n w. (-1, w)), os_ftruncate = (\<lambda>fd w. (-1, w)),
       os_mmap = (\<lambda>fd w. (False, w)), os_memset_zero = (\<lambda>w. w), os_munmap = (\<lambda>w. w), os_fd_close = (\<lambda>fd w. w),
       os_sem_create = (\<lambda>n v w. (None, w)), os_sem_open = (\<lambda>n w. (None, w)), os_sem_close = (\<lambda>s w. w),
       os_sem_unlink = (\<lambda>n w. w), os_shm_unlink = (\<lambda>n w. w), os_errno_suffix = (\<lambda>w. [])\<rparr>"

definition no_sem :: "'w sem_sys" where
  "no_sem = \<lparr>os_sem_wait = (\<lambda>s w. (Some (EOTHER 22), w)), os_sem_timedwait = (\<lambda>s t w. (Some (EOTHER 22), w)),
       os_sem_post = (\<lambda>s w. w), os_clock_realtime = (\<lambda>w. \<lparr>tv_sec = 0, tv_nsec = 0\<rparr>)\<rparr>"

definition script_runtime :: "sock_world runtime" where
  "script_runtime =
     \<lparr>rt_sock = script_net, rt_shm = no_shm, rt_sem = no_sem, rt_send = script_send, rt_recv = script_recv,
      rt_endian = Little, rt_random = (1, 2), rt_layout = (\<lambda>p w. \<lparr>c2s = zero_Ring, s2c = zero_Ring\<rparr>),
      rt_set_layout = (\<lambda>p m w. w), rt_sched = (\<lambda>w. (\<lparr>sched_turns = [(0, 0)], sched_now = 0, sched_wait = []\<rparr>, w))\<rparr>"

interpretation script_api: runtime_contract script_runtime "\<lambda>fd. outgoing" script_signals "\<lambda>fd. incoming"
  using script_tcp.stream_socket_axioms
  by (simp add: runtime_contract_def runtime_contract_axioms_def script_runtime_def script_net_def)


end
