(* ===== verification/Duct_Conn.thy ===== *)
theory Duct_Conn
  imports Duct_Api
begin

text \<open>
  What a program can rely on when it uses a TCP connection through the interface \<open>Pipe\<close>, whatever the
  peer sends and however the worker of the quality-of-service pipe is scheduled. First the frames at
  the front of a stream of bytes; then plain connections (from \<open>accept\<close>); then connections behind a
  send queue (from \<open>dial\<close>): what reached the wire is a front part of the accepted messages.
\<close>

section \<open>The frames at the front of a stream\<close>

text \<open>The first frame of a byte string with the rest, if it is complete and its header is accepted.\<close>

definition frame_of :: "endian \<Rightarrow> byte_seq \<Rightarrow> (byte_seq \<times> byte_seq) option" where
  "frame_of e bs =
     (if length bs < kHeaderLen then None
      else case decode_header e (take kHeaderLen bs) of
        ResErr _ \<Rightarrow> None
      | ResVal h \<Rightarrow>
          let n = unat (payload_len h); body = drop kHeaderLen bs
          in if length body < n then None else Some (take n body, drop n body))"

lemma frame_of_shorter: "frame_of e bs = Some (x, rest) \<Longrightarrow> length rest < length bs"
  by (auto simp: frame_of_def kHeaderLen_def Let_def split: if_splits Result.splits)

function decode_frames :: "endian \<Rightarrow> byte_seq \<Rightarrow> byte_seq list" where
  "decode_frames e bs = (case frame_of e bs of None \<Rightarrow> [] | Some (x, rest) \<Rightarrow> x # decode_frames e rest)"
  by pat_completeness auto
termination by (relation "measure (\<lambda>(e, bs). length bs)") (auto dest: frame_of_shorter)

declare decode_frames.simps [simp del]

context stream_recv
begin

text \<open>Reading a frame returns for every stream, and is right about it unless the system call failed.\<close>

lemma read_frame_decodes:
  "\<exists>r w'. read_frame e orecv fd w = Some (r, w') \<and>
     (case r of ResVal m \<Rightarrow> wf_Message m \<and> msg_size m \<le> kMaxFramePayload
                  \<and> frame_of e (pending fd w) = Some (view m, pending fd w')
      | ResErr s \<Rightarrow> code s = kIoError \<or> (code s \<noteq> kOk \<and> frame_of e (pending fd w) = None))"
proof -
  obtain st hdr w1 where h: "read_exact orecv fd kHeaderLen [] w = Some (st, hdr, w1)"
    "pending fd w = hdr @ pending fd w1" "length hdr \<le> kHeaderLen" "status_ok st \<longleftrightarrow> length hdr = kHeaderLen"
    "\<not> status_ok st \<longrightarrow> st = io_error ''recv() failed'' \<or> st = closed_status ''peer closed'' \<and> pending fd w1 = []"
    using read_exact_returns [of fd kHeaderLen "[]" w] by auto
  show ?thesis
  proof (cases "status_ok st")
    case False
    then have "code st = kIoError \<or> code st = kClosed \<and> frame_of e (pending fd w) = None"
      using h by (auto simp: frame_of_def)
    with h False show ?thesis by (auto simp: read_frame_def)
  next
    case ok: True
    have len: "length hdr = 16" using ok h by (simp add: kHeaderLen_def)
    have front: "take kHeaderLen (pending fd w) = hdr" "drop kHeaderLen (pending fd w) = pending fd w1"
      "\<not> length (pending fd w) < kHeaderLen" using h len by (simp_all add: kHeaderLen_def)
    show ?thesis
    proof (cases "decode_header e hdr")
      case (ResErr s)
      then have "code s = kProtocolError"
        using len by (auto simp: decode_header_net Let_def split: if_splits)
      with ResErr h ok front show ?thesis by (simp add: read_frame_def frame_of_def)
    next
      case (ResVal hd)
      have small: "unat (payload_len hd) \<le> kMaxFramePayload"
        using ResVal len by (simp add: decode_header_iff acceptable_header_def)
      obtain st2 bs w2 where p: "read_exact orecv fd (unat (payload_len hd)) [] w1 = Some (st2, bs, w2)"
        "pending fd w1 = bs @ pending fd w2" "length bs \<le> unat (payload_len hd)"
        "status_ok st2 \<longleftrightarrow> length bs = unat (payload_len hd)"
        "\<not> status_ok st2 \<longrightarrow> st2 = io_error ''recv() failed'' \<or> st2 = closed_status ''peer closed'' \<and> pending fd w2 = []"
        using read_exact_returns [of fd "unat (payload_len hd)" "[]" w1] by auto
      show ?thesis
      proof (cases "payload_len hd = 0")
        case True
        with h ok ResVal front show ?thesis
          by (simp add: read_frame_def frame_of_def)
      next
        case False
        show ?thesis
        proof (cases "status_ok st2")
          case True
          with False h ok ResVal front p small show ?thesis
            by (simp add: read_frame_def frame_of_def)
        next
          case f: False
          with p(5) have "code st2 = kIoError \<or> code st2 = kClosed \<and> pending fd w2 = []" by auto
          moreover have "length bs < unat (payload_len hd)" using f p(3,4) by simp
          ultimately show ?thesis
            using False f h ok ResVal front p(1,2) by (auto simp: read_frame_def frame_of_def)
        qed
      qed
    qed
  qed
qed

end

section \<open>Frames of records\<close>

lemma tcp_record_split:
  "length bs \<le> kMaxFramePayload \<Longrightarrow> \<exists>hd. tcp_record bs = net_header hd @ bs \<and> acceptable_header hd
     \<and> unat (payload_len hd) = length bs"
  using acceptable_frame_header [of "from_span bs" 0] unat_payload_len_frame_header [of "from_span bs" 0]
  by (auto simp: tcp_record_def frame_bytes_def)

lemma frame_of_record:
  assumes "length bs \<le> kMaxFramePayload"
  shows "frame_of e (tcp_record bs @ rest) = Some (bs, rest)"
    and "strict_prefix str (tcp_record bs) \<Longrightarrow> frame_of e str = None"
proof -
  obtain hd where h: "tcp_record bs = net_header hd @ bs" "acceptable_header hd" "unat (payload_len hd) = length bs"
    using tcp_record_split [OF assms] by blast
  have dec: "decode_header e (net_header hd) = ResVal hd" using h(2) by (simp add: decode_header_iff)
  show "frame_of e (tcp_record bs @ rest) = Some (bs, rest)"
    using h dec by (simp add: frame_of_def kHeaderLen_def)
  assume "strict_prefix str (tcp_record bs)"
  then obtain x where x: "tcp_record bs = str @ x" "x \<noteq> []" by (auto elim: strict_prefixE')
  show "frame_of e str = None"
  proof (cases "length str < kHeaderLen")
    case False
    then have len: "16 \<le> length str" by (simp add: kHeaderLen_def)
    have "take 16 (str @ x) = net_header hd" unfolding x(1) [symmetric] h(1) by simp
    then have "take 16 str = net_header hd" using len by simp
    moreover have "length (drop 16 str) < length bs"
      using arg_cong [OF x(1), of length] h(1) x(2) len by (cases x) auto
    ultimately show ?thesis using dec h(3) by (simp add: frame_of_def kHeaderLen_def)
  qed (simp add: frame_of_def)
qed

lemma decode_records:
  "\<forall>bs\<in>set bss. length bs \<le> kMaxFramePayload \<Longrightarrow> decode_frames e (concat (map tcp_record bss)) = bss"
proof (induction bss)
  case Nil
  then show ?case by (simp add: decode_frames.simps frame_of_def kHeaderLen_def)
next
  case (Cons bs bss)
  then show ?case by (subst decode_frames.simps) (simp add: frame_of_record)
qed

section \<open>Plain connections\<close>

context runtime_contract
begin

lemma pipe_send_tcp:
  "tcp_fd t \<noteq> kInvalidSocket \<Longrightarrow> pipe_send rt msg opt (Plain (ATcpPipe t), w)
     = map_option (\<lambda>(st, w'). (st, Plain (ATcpPipe t), w')) (write_frame (rt_endian rt) (rt_send rt) (tcp_fd t) msg 0 w)"
  by (simp add: pipe_send_def base_send_def tcp_send_def option.map_comp comp_def case_prod_unfold)

lemma pipe_recv_tcp:
  "tcp_fd t \<noteq> kInvalidSocket \<Longrightarrow> pipe_recv rt opt (Plain (ATcpPipe t), w)
     = map_option (\<lambda>(r, w'). (r, Plain (ATcpPipe t), w')) (read_frame (rt_endian rt) (rt_recv rt) (tcp_fd t) w)"
  by (simp add: pipe_recv_def base_recv_def tcp_recv_def option.map_comp comp_def case_prod_unfold)

lemma base_close_sent: "sent fd (snd (base_close rt (ATcpPipe t, w))) = sent fd w"
  by (simp add: base_close_def tcp_close_def close_keeps)

lemma pipe_close_plain:
  "pipe_close rt (Plain p, w) = Some (Plain (fst (base_close rt (p, w))), snd (base_close rt (p, w)))"
  by (simp add: pipe_close_def split: prod.split)

lemma listener_close_sent: "sent fd (snd (listener_close rt (ATcpListener l, w))) = sent fd w"
  by (simp add: listener_close_def tcp_listener_close_def close_keeps)

section \<open>The worker's turns\<close>

definition records :: "Message list \<Rightarrow> byte_seq" where
  "records ms = concat (map (tcp_record \<circ> view) ms)"

lemma records_simps [simp]:
  "records [] = []" "records (m # ms) = tcp_record (view m) @ records ms" "records (ms @ ms') = records ms @ records ms'"
  by (simp_all add: records_def)

text \<open>
  The worker's turns move records from the front of the queue to the connection, and nothing else; a
  turn that breaks a record off stops the worker.
\<close>

definition turns_effect :: "TcpPipe \<Rightarrow> 'w \<Rightarrow> 'u QosPipe \<Rightarrow> 'v QosPipe \<Rightarrow> 'w \<Rightarrow> bool" where
  "turns_effect t w q q' w' \<longleftrightarrow>
     qos q' = qos q \<and> (qos_inv q \<longrightarrow> qos_inv q') \<and> subseq (queued_now q') (queued_now q)
     \<and> pending (tcp_fd t) w' = pending (tcp_fd t) w
     \<and> (\<exists>out. sent (tcp_fd t) w' = sent (tcp_fd t) w @ out \<and> prefix out (records (queued_now q))
          \<and> (running q' \<longrightarrow> running q \<and> out @ records (queued_now q') = records (queued_now q)))"

lemma turns_effect_refl: "turns_effect t w q q w"
  by (simp add: turns_effect_def)

lemma turns_effect_trans:
  assumes "turns_effect t w q q1 w1" "running q1" "turns_effect t w1 q1 q2 w2"
  shows "turns_effect t w q q2 w2"
proof -
  from assms(1,2) obtain o1 where u: "sent (tcp_fd t) w1 = sent (tcp_fd t) w @ o1"
    "running q" "records (queued_now q) = o1 @ records (queued_now q1)"
    by (auto simp: turns_effect_def)
  from assms(3) obtain o2 where v: "sent (tcp_fd t) w2 = sent (tcp_fd t) w1 @ o2"
    "prefix o2 (records (queued_now q1))" "running q2 \<longrightarrow> o2 @ records (queued_now q2) = records (queued_now q1)"
    by (auto simp: turns_effect_def)
  have "sent (tcp_fd t) w2 = sent (tcp_fd t) w @ (o1 @ o2) \<and> prefix (o1 @ o2) (records (queued_now q))
      \<and> (running q2 \<longrightarrow> running q \<and> (o1 @ o2) @ records (queued_now q2) = records (queued_now q))"
    using u v by simp
  moreover have "subseq (queued_now q2) (queued_now q)"
    using assms(1,3) subseq_order.order_trans unfolding turns_effect_def by blast
  ultimately show ?thesis using assms(1,3) unfolding turns_effect_def by auto
qed

lemma worker_turn_tcp:
  assumes "underlying q = Some (ATcpPipe t, w)" "tcp_fd t \<noteq> kInvalidSocket" "qos_ttl (qos q) \<le> 0"
    and "\<forall>m\<in>set (queued_now q). wf_Message m"
    and "worker_turn (worker_send rt) now1 now2 q = (out, q', ph)"
  shows "\<exists>w'. underlying q' = Some (ATcpPipe t, w') \<and> turns_effect t w q q' w'"
proof -
  have eff: "qos q' = qos q" "qos_inv q \<longrightarrow> qos_inv q'" "subseq (queued_now q') (queued_now q)"
    using worker_turn_effect [OF assms(5)] subseq_order.order_trans [of "queued_now q'" "out @ queued_now q'" "queued_now q"]
    by (auto simp: qos_effect_def list_emb_append2)
  have same: "process_expired now1 q = q" using assms(3) by (simp add: process_expired_def)
  show ?thesis
  proof (cases "running q \<and> send_queue q \<noteq> [] \<and> can_send_message now2 q (hd (send_queue q))")
    case False
    then have "q' = q"
      using assms(5) same by (cases "send_queue q") (auto simp: worker_turn_def split: if_splits)
    with assms(1) turns_effect_refl show ?thesis by blast
  next
    case True
    then obtain qm rest where qm: "send_queue q = qm # rest" "running q" "can_send_message now2 q qm"
      by (cases "send_queue q") auto
    let ?m = "qmessage qm"
    have wf: "wf_Message ?m" using assms(4) qm(1) by (simp add: queued_now_def)
    obtain st w' where s: "write_frame (rt_endian rt) (rt_send rt) (tcp_fd t) ?m 0 w = Some (st, w')"
      using write_frame_some by blast
    have pend: "pending (tcp_fd t) w' = pending (tcp_fd t) w" by (rule write_frame_keeps [OF send_pending s])
    have call: "worker_send rt ?m SendOptions_default (underlying q) = (st, Some (ATcpPipe t, w'))"
      using s assms(1,2) by (simp add: worker_send_def base_send_def tcp_send_def)
    obtain k where k: "sent (tcp_fd t) w' = sent (tcp_fd t) w @ take k (tcp_record (view ?m))"
      "status_ok st \<longleftrightarrow> k = length (tcp_record (view ?m))"
      "\<not> status_ok st \<longrightarrow> k = 0 \<or> code st = kIoError \<or> code st = kClosed"
    proof (cases "msg_size ?m \<le> kMaxFramePayload")
      case True
      with write_frame_returns [OF wf True, of "rt_endian rt" "tcp_fd t" 0 w] s that show ?thesis
        by (auto simp: frame_bytes_record [OF wf])
    next
      case False
      with s that [of 0] show ?thesis
        by (auto simp: write_frame_def tcp_record_def frame_bytes_def)
    qed
    have recs: "records (queued_now q) = tcp_record (view ?m) @ records (map qmessage rest)"
      using qm(1) by (simp add: queued_now_def)
    have pre: "prefix (take k (tcp_record (view ?m))) (records (queued_now q))"
      unfolding recs by (metis append.assoc append_take_drop_id prefixI)
    have "q' = (if status_ok st then drop_front (q\<lparr>underlying := Some (ATcpPipe t, w')\<rparr>)
        else if code st = kClosed \<or> code st = kIoError then q\<lparr>underlying := Some (ATcpPipe t, w'), running := False\<rparr>
        else q\<lparr>underlying := Some (ATcpPipe t, w')\<rparr>)"
      using assms(5) same qm call by (auto simp: worker_turn_def)
    then have "underlying q' = Some (ATcpPipe t, w')"
      "running q' \<longrightarrow> take k (tcp_record (view ?m)) @ records (queued_now q') = records (queued_now q)"
      using k recs qm(1) by (auto simp: queued_now_def)
    with eff k(1) pend pre qm(2) show ?thesis by (auto simp: turns_effect_def)
  qed
qed

lemma qos_turns_tcp:
  assumes "underlying q = Some (ATcpPipe t, w)" "tcp_fd t \<noteq> kInvalidSocket" "qos_ttl (qos q) \<le> 0"
    and "\<forall>m\<in>set (queued_now q). wf_Message m"
  shows "\<exists>w'. underlying (qos_turns rt ts q) = Some (ATcpPipe t, w') \<and> turns_effect t w q (qos_turns rt ts q) w'"
  using assms
proof (induction ts arbitrary: q w)
  case (Cons n ts)
  obtain now1 now2 where n: "n = (now1, now2)" by force
  obtain out q1 ph where t: "worker_turn (worker_send rt) now1 now2 q = (out, q1, ph)" by (metis prod_cases3)
  obtain w1 where u: "underlying q1 = Some (ATcpPipe t, w1)" "turns_effect t w q q1 w1"
    using worker_turn_tcp [OF Cons.prems t] by blast
  show ?case
  proof (cases "running q1")
    case False
    then have "qos_turns rt ts q1 = q1"
      by (induction ts) (auto simp: worker_turn_def)
    with u n t show ?thesis by simp
  next
    case True
    have "qos q1 = qos q" "set (queued_now q1) \<subseteq> set (queued_now q)"
      using u(2) by (auto simp: turns_effect_def elim: list_emb_set)
    then obtain w2 where "underlying (qos_turns rt ts q1) = Some (ATcpPipe t, w2)"
      "turns_effect t w1 q1 (qos_turns rt ts q1) w2"
      using Cons.IH [OF u(1)] Cons.prems by auto
    with turns_effect_trans [OF u(2) True] n t show ?thesis by auto
  qed
qed (auto intro: turns_effect_refl)

lemma attach_simps [simp]:
  "underlying (attach w q) = Some (underlying q, w)" "qos (attach w q) = qos q" "running (attach w q) = running q"
  "queued_now (attach w q) = queued_now q" "send_queue (attach w q) = send_queue q"
  "send_bytes (attach w q) = send_bytes q" "qos_inv (attach w q) = qos_inv q"
  by (simp_all add: attach_def queued_now_def qos_inv_def)

lemma turns_effect_detach:
  assumes "detach q' = Some (q2, w')" "turns_effect t w q q' w'"
  shows "turns_effect t w q q2 w'" "underlying q' = Some (underlying q2, w')" "send_bytes q2 = send_bytes q'"
  using assms by (auto simp: detach_def turns_effect_def queued_now_def qos_inv_def)

section \<open>Connections behind a send queue\<close>

text \<open>
  The messages \<open>ms\<close> have been accepted on the connection since \<open>s0\<close> was on the wire: what is on the wire
  now is a front part of their records, and while the worker runs the rest is in the queue.
\<close>

definition conn :: "TcpPipe \<Rightarrow> QosOptions \<Rightarrow> byte_seq \<Rightarrow> Message list \<Rightarrow> base_pipe QosPipe \<Rightarrow> 'w \<Rightarrow> bool" where
  "conn t opts s0 ms q w \<longleftrightarrow>
     tcp_fd t \<noteq> kInvalidSocket \<and> underlying q = ATcpPipe t \<and> keeps_all opts \<and> qos q = opts \<and> qos_inv q
     \<and> (\<forall>m\<in>set ms. wf_Message m) \<and> subseq (queued_now q) ms
     \<and> (\<exists>out. sent (tcp_fd t) w = s0 @ out \<and> prefix out (records ms)
          \<and> (running q \<longrightarrow> out @ records (queued_now q) = records ms))"

lemma conn_wf: "conn t opts s0 ms q w \<Longrightarrow> m \<in> set (queued_now q) \<Longrightarrow> wf_Message m"
  unfolding conn_def by (auto elim: list_emb_set)

lemma conn_turns:
  assumes "conn t opts s0 ms q w" "running q" "turns_effect t w q q' w'" "underlying q' = ATcpPipe t"
  shows "conn t opts s0 ms q' w'"
proof -
  obtain out where o: "sent (tcp_fd t) w = s0 @ out" "records ms = out @ records (queued_now q)"
    using assms(1,2) by (auto simp: conn_def)
  obtain o2 where o2: "sent (tcp_fd t) w' = sent (tcp_fd t) w @ o2" "prefix o2 (records (queued_now q))"
    "running q' \<longrightarrow> o2 @ records (queued_now q') = records (queued_now q)"
    using assms(3) by (auto simp: turns_effect_def)
  have "subseq (queued_now q') ms"
    using assms(1,3) subseq_order.order_trans unfolding conn_def turns_effect_def by blast
  moreover have "sent (tcp_fd t) w' = s0 @ (out @ o2) \<and> prefix (out @ o2) (records ms)
      \<and> (running q' \<longrightarrow> (out @ o2) @ records (queued_now q') = records ms)"
    using o o2 by simp
  ultimately show ?thesis using assms(1,3,4) unfolding conn_def turns_effect_def by auto
qed

lemma conn_scheduled:
  assumes "conn t opts s0 ms q w" "rt_sched rt w = (sch, w1)"
  obtains Q w2 where "qos_turns rt ts (attach w1 q) = Q" "underlying Q = Some (ATcpPipe t, w2)"
    "turns_effect t w q Q w2"
proof -
  have "sent fd w1 = sent fd w" "pending fd w1 = pending fd w" for fd
    using sched_keeps [of fd w] assms(2) by simp_all
  moreover obtain w2 where "underlying (qos_turns rt ts (attach w1 q)) = Some (ATcpPipe t, w2)"
    "turns_effect t w1 (attach w1 q) (qos_turns rt ts (attach w1 q)) w2"
    using qos_turns_tcp [of "attach w1 q" t w1 ts] assms(1) conn_wf [OF assms(1)]
    by (auto simp: conn_def keeps_all_def)
  ultimately show ?thesis using that by (simp add: turns_effect_def)
qed

lemma conn_elapse:
  assumes "conn t opts s0 ms q w"
  shows "\<exists>q' w'. qos_elapse rt (q, w) = Some (q', w') \<and> conn t opts s0 ms q' w'
     \<and> pending (tcp_fd t) w' = pending (tcp_fd t) w"
proof (cases "running q")
  case False
  with assms show ?thesis by (simp add: qos_elapse_def)
next
  case True
  obtain sch w1 where sch: "rt_sched rt w = (sch, w1)" by force
  obtain Q w2 where Q: "qos_turns rt (sched_turns sch) (attach w1 q) = Q" "underlying Q = Some (ATcpPipe t, w2)"
    "turns_effect t w q Q w2" using conn_scheduled [OF assms sch] by blast
  obtain q2 where d: "detach Q = Some (q2, w2)" using Q(2) by (simp add: detach_def)
  note e = turns_effect_detach [OF d Q(3)]
  have "conn t opts s0 ms q2 w2" using conn_turns [OF assms True e(1)] e(2) Q(2) by simp
  with True sch Q d show ?thesis by (simp add: qos_elapse_def turns_effect_def)
qed

lemma conn_recv:
  assumes "conn t opts s0 ms q w"
  shows "\<exists>r q' w'. pipe_recv rt ropt (WithQos q, w) = Some (r, WithQos q', w') \<and> conn t opts s0 ms q' w'
     \<and> (case r of ResVal m \<Rightarrow> wf_Message m \<and> frame_of (rt_endian rt) (pending (tcp_fd t) w) = Some (view m, pending (tcp_fd t) w')
         | ResErr s \<Rightarrow> \<not> status_ok s \<and> (code s = kIoError \<or> frame_of (rt_endian rt) (pending (tcp_fd t) w) = None))"
proof -
  obtain q1 w1 where el: "qos_elapse rt (q, w) = Some (q1, w1)" "conn t opts s0 ms q1 w1"
    "pending (tcp_fd t) w1 = pending (tcp_fd t) w" using conn_elapse [OF assms] by blast
  obtain r w2 where r: "read_frame (rt_endian rt) (rt_recv rt) (tcp_fd t) w1 = Some (r, w2)"
    "case r of ResVal m \<Rightarrow> wf_Message m \<and> msg_size m \<le> kMaxFramePayload
       \<and> frame_of (rt_endian rt) (pending (tcp_fd t) w1) = Some (view m, pending (tcp_fd t) w2)
     | ResErr s \<Rightarrow> code s = kIoError \<or> (code s \<noteq> kOk \<and> frame_of (rt_endian rt) (pending (tcp_fd t) w1) = None)"
    using read_frame_decodes [of "rt_endian rt" "tcp_fd t" w1] by blast
  have u: "underlying q1 = ATcpPipe t" "tcp_fd t \<noteq> kInvalidSocket" using el(2) by (simp_all add: conn_def)
  then have "q1\<lparr>underlying := ATcpPipe t\<rparr> = q1" by (cases q1) simp
  then have "pipe_recv rt ropt (WithQos q, w) = Some (r, WithQos q1, w2)"
    using el(1) u r(1) by (simp add: pipe_recv_def base_recv_def tcp_recv_def)
  moreover have "conn t opts s0 ms q1 w2"
    using el(2) read_frame_keeps [OF recv_sent r(1)] by (simp add: conn_def)
  ultimately show ?thesis using r(2) el(3) by (cases r) (auto simp: status_ok_def)
qed

lemma conn_close:
  assumes "conn t opts s0 ms q w"
  shows "\<exists>pp w' out. pipe_close rt (WithQos q, w) = Some (pp, w') \<and> sent (tcp_fd t) w' = s0 @ out \<and> prefix out (records ms)"
proof -
  obtain q1 w1 where el: "qos_elapse rt (q, w) = Some (q1, w1)" "conn t opts s0 ms q1 w1"
    using conn_elapse [OF assms] by blast
  have "underlying q1 = ATcpPipe t" using el(2) by (simp add: conn_def)
  then have "\<exists>pp w'. pipe_close rt (WithQos q, w) = Some (pp, w') \<and> sent (tcp_fd t) w' = sent (tcp_fd t) w1"
    using el(1) base_close_sent [of "tcp_fd t" t w1] by (simp add: pipe_close_def case_prod_beta)
  with el(2) show ?thesis by (auto simp: conn_def)
qed

lemma qos_turns_empty: "send_queue q = [] \<Longrightarrow> qos_ttl (qos q) \<le> 0 \<Longrightarrow> qos_turns rt ts q = q"
  by (induction ts) (auto simp: worker_turn_def process_expired_def)

lemma conn_room:
  assumes "conn t opts s0 ms q w" "msg_bytes ms + msg_size m < unat (snd_hwm_bytes opts)"
  shows "\<not> at_limit q" "size_u64 m \<le> snd_hwm_bytes (qos q)"
proof -
  have "msg_bytes (queued_now q) \<le> msg_bytes ms" using assms(1) by (auto simp: conn_def intro: msg_bytes_subseq)
  then have lt: "msg_bytes (queued_now q) + msg_size m < unat (snd_hwm_bytes opts)" using assms(2) by simp
  have hw: "unat (snd_hwm_bytes opts) < 2 ^ 64" using unsigned_less [of "snd_hwm_bytes opts"] by simp
  have "send_bytes q = of_nat (msg_bytes (queued_now q))" "qos q = opts"
    using assms(1) by (auto simp: conn_def qos_inv_def)
  then show "\<not> at_limit q" "size_u64 m \<le> snd_hwm_bytes (qos q)"
    using lt hw by (simp_all add: at_limit_def size_u64_def word_le_nat_alt unat_of_nat_small)
qed

lemma conn_send:
  assumes "conn t opts s0 ms q w" "wf_Message m" "msg_bytes ms + msg_size m < unat (snd_hwm_bytes opts)"
  shows "\<exists>st q' w'. pipe_send rt m sopt (WithQos q, w) = Some (st, WithQos q', w')
     \<and> pending (tcp_fd t) w' = pending (tcp_fd t) w
     \<and> (if status_ok st then conn t opts s0 (ms @ [m]) q' w' else code st = kClosed \<and> \<not> running q' \<and> conn t opts s0 ms q' w')
     \<and> (if running q then send_queue q = [] \<longrightarrow> status_ok st else \<not> status_ok st)"
proof (cases "running q")
  case False
  with assms(1) show ?thesis by (simp add: pipe_send_def)
next
  case True
  obtain sch w1 where sch: "rt_sched rt w = (sch, w1)" by force
  obtain Q w2 where Q: "qos_turns rt (sched_turns sch) (attach w1 q) = Q" "underlying Q = Some (ATcpPipe t, w2)"
    "turns_effect t w q Q w2" using conn_scheduled [OF assms(1) sch] by blast
  obtain q2 where d: "detach Q = Some (q2, w2)" using Q(2) by (simp add: detach_def)
  note e = turns_effect_detach [OF d Q(3)]
  have c: "conn t opts s0 ms q2 w2" using conn_turns [OF assms(1) True e(1)] e(2) Q(2) by simp
  have pend: "pending (tcp_fd t) w2 = pending (tcp_fd t) w" using Q(3) by (simp add: turns_effect_def)
  have fresh: "running Q" if "send_queue q = []"
    using that True assms(1) Q(1) qos_turns_empty [of "attach w1 q" "sched_turns sch"] by (auto simp: conn_def keeps_all_def)
  have same: "running q2 = running Q" "qos q2 = qos Q" "queued_now q2 = queued_now Q" "send_queue q2 = send_queue Q"
    "send_count q2 = send_count Q"
    using d by (auto simp: detach_def queued_now_def)
  show ?thesis
  proof (cases "running Q")
    case False
    then have "pipe_send rt m sopt (WithQos q, w) = Some (closed_status ''pipe closed'', WithQos q2, w2)"
      using True sch Q(1) d by (simp add: pipe_send_def qos_send_def send_check_def)
    with c pend fresh False True same(1) show ?thesis by auto
  next
    case run: True
    have "\<not> at_limit Q" "\<not> size_u64 m > snd_hwm_bytes (qos Q)"
      using conn_room [OF c assms(3)] same(2) e(3) by (simp_all add: at_limit_def)
    then have "qos_send (sched_now sch) m Q = send_enqueue (sched_now sch) m Q"
      using run by (simp add: qos_send_def send_check_def send_locked_def)
    moreover define q3 where "q3 = q2\<lparr>send_queue := send_queue q2 @ [\<lparr>qmessage = m, timestamp = sched_now sch\<rparr>],
        send_bytes := send_bytes q2 + size_u64 m, send_count := send_count q2 + 1\<rparr>"
    ultimately have p: "pipe_send rt m sopt (WithQos q, w) = Some (Status_Ok, WithQos q3, w2)"
      using True sch Q(1) d by (auto simp: pipe_send_def send_enqueue_def detach_def)
    have "conn t opts s0 (ms @ [m]) q3 w2"
      using c run same(1) assms(2)
      by (auto simp: conn_def q3_def qos_inv_def queued_now_def size_u64_def)
    with p pend True show ?thesis by auto
  qed
qed

lemma conn_dial:
  assumes "connect_tcp (rt_sock rt) (if h = [] then ''127.0.0.1'' else h) p w = (ResVal fd, w1)"
    and "keeps_all (dial_qos opt)" "snd_hwm_bytes (dial_qos opt) \<noteq> 0"
  obtains q where "lib_dial rt (''tcp://'' @ h @ '':'' @ to_string_nat (unat p)) opt w = Some (ResVal (WithQos q), w1)"
    "conn \<lparr>tcp_fd = fd\<rparr> (dial_qos opt) (sent fd w1) [] q w1" "running q" "send_queue q = []"
proof -
  have fd: "fd \<noteq> kInvalidSocket"
    using assms(1) by (auto simp: connect_tcp_def split: prod.splits option.splits if_splits)
  let ?q = "mk_QosPipe (ATcpPipe \<lparr>tcp_fd = fd\<rparr>) (dial_qos opt)"
  have "lib_dial rt (''tcp://'' @ h @ '':'' @ to_string_nat (unat p)) opt w = Some (ResVal (WithQos ?q), w1)"
    using dial_tcp_text [of "rt_sock rt" "rt_shm rt" "rt_send rt" "fst (rt_random rt)" "snd (rt_random rt)" h p opt w] assms
    by (simp add: lib_dial_def as_tcp_def tcp_dial_def wrap_qos_def)
  moreover have "conn \<lparr>tcp_fd = fd\<rparr> (dial_qos opt) (sent fd w1) [] ?q w1"
    using assms(2) fd by (simp add: conn_def mk_QosPipe_def qos_inv_def queued_now_def)
  ultimately show ?thesis using that by (simp add: mk_QosPipe_def)
qed

end

end
