(* ===== verification/Duct_Programs.thy ===== *)
theory Duct_Programs
  imports Duct_Conn
begin

text \<open>
  The two command-line programs \<^verbatim>\<open>examples/duct_echo_server.cc\<close> and
  \<^verbatim>\<open>examples/duct_echo_client.cc\<close> on top of the library. A program is a function from its arguments and
  the world to what it prints, its exit code and the world it leaves; \<open>None\<close> when it does not end. The
  server is correct for every peer: whatever bytes arrive, it ends, and it has sent back exactly the
  payloads of the well-formed frames at the front of the stream.
\<close>

section \<open>Output\<close>

datatype line = Out string | Err string

fun code_int :: "StatusCode \<Rightarrow> nat" where
  "code_int kOk = 0"
| "code_int kInvalidArgument = 1"
| "code_int kNotSupported = 2"
| "code_int kIoError = 3"
| "code_int kTimeout = 4"
| "code_int kClosed = 5"
| "code_int kProtocolError = 6"

definition describe :: "string \<Rightarrow> Status \<Rightarrow> line" where
  "describe what st = Err (what @ to_string_nat (code_int (code st)) @ '' '' @ message st)"

section \<open>The echo server\<close>

text \<open>The loop, with the line it prints when it breaks off.\<close>

partial_function (option) echo_loop ::
  "'w runtime \<Rightarrow> any_pipe \<times> 'w \<Rightarrow> (line \<times> any_pipe \<times> 'w) option" where
  "echo_loop rt pw =
     (case pipe_recv rt RecvOptions_default pw of
        None \<Rightarrow> None
      | Some (r, pw1) \<Rightarrow>
          (case r of
             ResErr st \<Rightarrow> Some (describe ''recv: '' st, pw1)
           | ResVal m \<Rightarrow>
               (case pipe_send rt m SendOptions_default pw1 of
                  None \<Rightarrow> None
                | Some (st, pw2) \<Rightarrow>
                    if \<not> status_ok st then Some (describe ''send: '' st, pw2) else echo_loop rt pw2)))"

text \<open>The destructors run in the reverse order of the declarations: the pipe, then the listener.\<close>

definition echo_server_main :: "'w runtime \<Rightarrow> string \<Rightarrow> string list \<Rightarrow> 'w \<Rightarrow> (line list \<times> nat \<times> 'w) option" where
  "echo_server_main rt prog args w =
     (case args of
        [] \<Rightarrow> Some ([Err (''usage: '' @ prog @ '' <address>'')], 2, w)
      | address # _ \<Rightarrow>
          (case lib_listen rt address ListenOptions_default w of (lis, w1) \<Rightarrow>
             (case lis of
                ResErr st \<Rightarrow> Some ([describe ''listen failed: '' st], 1, w1)
              | ResVal l \<Rightarrow>
                  (case listener_accept rt l w1 of
                     None \<Rightarrow> None
                   | Some (p, w2) \<Rightarrow>
                       (case p of
                          ResErr st \<Rightarrow>
                            Some ([Err (''listening on '' @ address), describe ''accept failed: '' st], 1,
                                  snd (listener_close rt (l, w2)))
                        | ResVal pp \<Rightarrow>
                            (case echo_loop rt (pp, w2) of
                               None \<Rightarrow> None
                             | Some (why, pw3) \<Rightarrow>
                                 map_option (\<lambda>(pp4, w4). ([Err (''listening on '' @ address), why], 0,
                                     snd (listener_close rt (l, w4))))
                                   (pipe_close rt pw3)))))))"

section \<open>The echo client\<close>

definition echo_client_main :: "'w runtime \<Rightarrow> string \<Rightarrow> string list \<Rightarrow> 'w \<Rightarrow> (line list \<times> nat \<times> 'w) option" where
  "echo_client_main rt prog args w =
     (case args of
        address # body # _ \<Rightarrow>
          (case lib_dial rt address DialOptions_default w of
             None \<Rightarrow> None
           | Some (p, w1) \<Rightarrow>
               (case p of
                  ResErr st \<Rightarrow> Some ([describe ''dial failed: '' st], 1, w1)
                | ResVal pp \<Rightarrow>
                    (case pipe_send rt (from_string body) SendOptions_default (pp, w1) of
                       None \<Rightarrow> None
                     | Some (st, pw2) \<Rightarrow>
                         if \<not> status_ok st then
                           map_option (\<lambda>(_, w3). ([describe ''send failed: '' st], 1, w3)) (pipe_close rt pw2)
                         else
                           (case pipe_recv rt RecvOptions_default pw2 of
                              None \<Rightarrow> None
                            | Some (r, pw3) \<Rightarrow>
                                (case r of
                                   ResErr st \<Rightarrow>
                                     map_option (\<lambda>(_, w4). ([describe ''recv failed: '' st], 1, w4)) (pipe_close rt pw3)
                                 | ResVal m \<Rightarrow>
                                     map_option (\<lambda>(_, w4). ([Out (string_of_bytes (view m))], 0, w4))
                                       (pipe_close rt pw3))))))
      | _ \<Rightarrow> Some ([Err (''usage: '' @ prog @ '' <address> <message>'')], 2, w))"

section \<open>The server loop over TCP\<close>

text \<open>
  What may have been sent when the loop breaks off: a front part of the re-framed payloads, all of
  them if the reason is not a failing system call.
\<close>

definition echo_outcome :: "byte_seq list \<Rightarrow> line \<Rightarrow> byte_seq \<Rightarrow> bool" where
  "echo_outcome bss why out \<longleftrightarrow>
     prefix out (concat (map tcp_record bss)) \<and>
     (\<exists>st. \<not> status_ok st \<and>
        (why = describe ''recv: '' st \<and> (code st = kIoError \<or> out = concat (map tcp_record bss))
         \<or> why = describe ''send: '' st))"

lemma echo_outcome_recv: "\<not> status_ok st \<Longrightarrow> code st = kIoError \<or> bss = [] \<Longrightarrow> echo_outcome bss (describe ''recv: '' st) []"
  by (auto simp: echo_outcome_def)

lemma echo_outcome_send: "\<not> status_ok st \<Longrightarrow> prefix out (tcp_record bs) \<Longrightarrow> echo_outcome (bs # bss) (describe ''send: '' st) out"
  by (auto simp: echo_outcome_def intro: prefix_order.trans)

lemma echo_outcome_more: "echo_outcome bss why out \<Longrightarrow> echo_outcome (bs # bss) why (tcp_record bs @ out)"
  by (auto simp: echo_outcome_def)

text \<open>How the client ends, given the bytes that arrive on its connection.\<close>

definition client_outcome :: "endian \<Rightarrow> byte_seq \<Rightarrow> line list \<Rightarrow> nat \<Rightarrow> bool" where
  "client_outcome e str out c \<longleftrightarrow>
     (\<exists>x rest. frame_of e str = Some (x, rest) \<and> out = [Out (string_of_bytes x)] \<and> c = 0)
   \<or> (\<exists>st. out = [describe ''recv failed: '' st] \<and> c = 1 \<and> (code st = kIoError \<or> frame_of e str = None))"

context runtime_contract
begin

lemma echo_loop_tcp:
  assumes "tcp_fd t \<noteq> kInvalidSocket"
  shows "\<exists>why w' out. echo_loop rt (Plain (ATcpPipe t), w) = Some (why, Plain (ATcpPipe t), w')
     \<and> sent (tcp_fd t) w' = sent (tcp_fd t) w @ out
     \<and> echo_outcome (decode_frames (rt_endian rt) (pending (tcp_fd t) w)) why out"
proof (induction "length (pending (tcp_fd t) w)" arbitrary: w rule: less_induct)
  case less
  let ?e = "rt_endian rt" and ?fd = "tcp_fd t"
  obtain r w1 where r: "read_frame ?e (rt_recv rt) ?fd w = Some (r, w1)"
    "case r of ResVal m \<Rightarrow> wf_Message m \<and> msg_size m \<le> kMaxFramePayload
       \<and> frame_of ?e (pending ?fd w) = Some (view m, pending ?fd w1)
     | ResErr s \<Rightarrow> code s = kIoError \<or> (code s \<noteq> kOk \<and> frame_of ?e (pending ?fd w) = None)"
    using read_frame_decodes [of ?e ?fd w] by blast
  note keep = read_frame_keeps [OF recv_sent r(1)]
  show ?case
  proof (cases r)
    case (ResErr s)
    with r have "echo_outcome (decode_frames ?e (pending ?fd w)) (describe ''recv: '' s) []"
      by (intro echo_outcome_recv) (auto simp: status_ok_def decode_frames.simps)
    with r ResErr assms keep show ?thesis
      by (simp add: echo_loop.simps [of rt "(Plain (ATcpPipe t), w)"] pipe_recv_tcp)
  next
    case (ResVal m)
    with r have m: "wf_Message m" "msg_size m \<le> kMaxFramePayload"
      and fr: "frame_of ?e (pending ?fd w) = Some (view m, pending ?fd w1)" by simp_all
    note dec = decode_frames.simps [of ?e "pending ?fd w", unfolded fr]
    obtain st w2 k where s: "write_frame ?e (rt_send rt) ?fd m 0 w1 = Some (st, w2)"
      "sent ?fd w2 = sent ?fd w @ take k (tcp_record (view m))"
      "status_ok st \<longleftrightarrow> k = length (tcp_record (view m))"
      using write_frame_returns [OF m, of ?e ?fd 0 w1] keep by (auto simp: frame_bytes_record [OF m(1)])
    note step = echo_loop.simps [of rt "(Plain (ATcpPipe t), w)"]
    show ?thesis
    proof (cases "status_ok st")
      case False
      then have "echo_outcome (view m # decode_frames ?e (pending ?fd w1)) (describe ''send: '' st)
          (take k (tcp_record (view m)))"
        by (intro echo_outcome_send) (simp_all add: take_is_prefix)
      with False r(1) s ResVal dec assms show ?thesis by (simp add: step pipe_recv_tcp pipe_send_tcp)
    next
      case True
      have "pending ?fd w2 = pending ?fd w1" by (rule write_frame_keeps [OF send_pending s(1)])
      with less [of w2] frame_of_shorter [OF fr] obtain why w3 out where
        IH: "echo_loop rt (Plain (ATcpPipe t), w2) = Some (why, Plain (ATcpPipe t), w3)"
          "sent ?fd w3 = sent ?fd w2 @ out"
          "echo_outcome (decode_frames ?e (pending ?fd w1)) why out" by auto
      with True r(1) s ResVal dec assms echo_outcome_more [OF IH(3), of "view m"] show ?thesis
        by (simp add: step pipe_recv_tcp pipe_send_tcp)
    qed
  qed
qed

lemma echo_server_run:
  assumes "lib_listen rt address ListenOptions_default w = (ResVal (ATcpListener l), w1)"
    and "tcp_accept (rt_sock rt) l w1 = (ResVal p, w2)"
  shows "\<exists>why out w'. echo_server_main rt prog (address # rest) w = Some ([Err (''listening on '' @ address), why], 0, w')
     \<and> sent (tcp_fd p) w' = sent (tcp_fd p) w2 @ out
     \<and> echo_outcome (decode_frames (rt_endian rt) (pending (tcp_fd p) w2)) why out"
proof -
  have "tcp_fd p \<noteq> kInvalidSocket"
    using assms(2) by (auto simp: tcp_accept_def split: if_splits prod.splits)
  from echo_loop_tcp [OF this, of w2] obtain why w3 out where
    e: "echo_loop rt (Plain (ATcpPipe p), w2) = Some (why, Plain (ATcpPipe p), w3)"
    "sent (tcp_fd p) w3 = sent (tcp_fd p) w2 @ out"
    "echo_outcome (decode_frames (rt_endian rt) (pending (tcp_fd p) w2)) why out" by blast
  with assms show ?thesis
    by (simp add: echo_server_main_def listener_accept_def pipe_close_plain listener_close_sent base_close_sent)
qed

lemma echo_client_run:
  assumes "connect_tcp (rt_sock rt) (if h = [] then ''127.0.0.1'' else h) p w = (ResVal fd, w1)"
    and "length body \<le> kMaxFramePayload"
  shows "\<exists>out c w' snt. echo_client_main rt prog ((''tcp://'' @ h @ '':'' @ to_string_nat (unat p)) # body # args) w
       = Some (out, c, w')
     \<and> sent fd w' = sent fd w1 @ snt \<and> prefix snt (tcp_record (bytes_of_string body))
     \<and> client_outcome (rt_endian rt) (pending fd w1) out c"
proof -
  let ?o = "dial_qos DialOptions_default" and ?t = "\<lparr>tcp_fd = fd\<rparr>" and ?m = "from_string body"
  have o: "keeps_all ?o" "snd_hwm_bytes ?o \<noteq> 0"
    "msg_bytes [] + msg_size ?m < unat (snd_hwm_bytes ?o)" "view ?m = bytes_of_string body"
    using assms(2)
    by (simp_all add: keeps_all_def DialOptions_default_def QosOptions_default_def kMaxFramePayload_def from_string_def)
  obtain q where d: "lib_dial rt (''tcp://'' @ h @ '':'' @ to_string_nat (unat p)) DialOptions_default w
      = Some (ResVal (WithQos q), w1)" "conn ?t ?o (sent fd w1) [] q w1" "running q" "send_queue q = []"
    using conn_dial [OF assms(1) o(1,2)] by blast
  obtain st q2 w2 where s: "pipe_send rt ?m SendOptions_default (WithQos q, w1) = Some (st, WithQos q2, w2)" "status_ok st"
    "pending fd w2 = pending fd w1" "conn ?t ?o (sent fd w1) [?m] q2 w2"
    using conn_send [OF d(2) wf_from_string o(3), of SendOptions_default] d(3,4) by auto
  obtain r q3 w3 where r: "pipe_recv rt RecvOptions_default (WithQos q2, w2) = Some (r, WithQos q3, w3)"
    "conn ?t ?o (sent fd w1) [?m] q3 w3"
    "case r of ResVal m \<Rightarrow> wf_Message m \<and> frame_of (rt_endian rt) (pending fd w1) = Some (view m, pending fd w3)
     | ResErr s \<Rightarrow> \<not> status_ok s \<and> (code s = kIoError \<or> frame_of (rt_endian rt) (pending fd w1) = None)"
    using conn_recv [OF s(4), of RecvOptions_default] unfolding TcpPipe.simps s(3) by blast
  obtain pp w4 snt where c: "pipe_close rt (WithQos q3, w3) = Some (pp, w4)" "sent fd w4 = sent fd w1 @ snt"
    "prefix snt (tcp_record (bytes_of_string body))"
    using conn_close [OF r(2)] o(4) by auto
  show ?thesis
    using d(1) s(1,2) r(1,3) c
    by (cases r) (auto simp: echo_client_main_def client_outcome_def)
qed

end

lemma echoed_prefix:
  assumes "length bs \<le> kMaxFramePayload" "prefix snt (tcp_record bs)"
    and "echo_outcome (decode_frames e snt) why echoed" "frame_of e' echoed = Some (x, rest)"
  shows "x = bs"
proof -
  have none: "frame_of e' [] = None" by (simp add: frame_of_def kHeaderLen_def)
  show ?thesis
  proof (cases "snt = tcp_record bs")
    case True
    then have "decode_frames e snt = [bs]" using decode_records [of "[bs]" e] assms(1) by simp
    with assms(3) have "prefix echoed (tcp_record bs)" by (simp add: echo_outcome_def)
    with assms(1,4) frame_of_record(1) [OF assms(1), where rest = "[]" and e = e'] show ?thesis
      by (cases "echoed = tcp_record bs") (auto simp: frame_of_record(2) strict_prefix_def)
  next
    case False
    then have "decode_frames e snt = []"
      using assms(1,2) frame_of_record(2) [OF assms(1), where str = snt and e = e]
      by (subst decode_frames.simps) (simp add: strict_prefix_def)
    with assms(3,4) none show ?thesis by (simp add: echo_outcome_def)
  qed
qed

section \<open>Properties of the programs\<close>



section \<open>Runs over the scripted runtime\<close>

lemma script_write_all:
  "script w = [] \<Longrightarrow> write_all script_send fd p w = Some (Status_Ok, w\<lparr>outgoing := outgoing w @ p\<rparr>)"
  by (subst write_all.simps) (simp add: script_send_def write_all.simps)

lemma script_write_frame:
  "script w = [] \<Longrightarrow> wf_Message m \<Longrightarrow> msg_size m \<le> kMaxFramePayload \<Longrightarrow>
   write_frame e script_send fd m 0 w = Some (Status_Ok, w\<lparr>outgoing := outgoing w @ tcp_record (view m)\<rparr>)"
  by (simp add: write_frame_def script_write_all encode_header_net kHeaderLen_def frame_bytes_record [symmetric]
      frame_bytes_def)

lemma script_read_exact:
  "script w = [] \<Longrightarrow> n \<le> length (incoming w) \<Longrightarrow>
   read_exact script_recv fd n buf w = Some (Status_Ok, buf @ take n (incoming w), w\<lparr>incoming := drop n (incoming w)\<rparr>)"
  by (subst read_exact.simps) (auto simp: script_recv_def read_exact.simps min_def)

lemma script_read_frame:
  assumes "script w = []" "incoming w = tcp_record bs @ rest" "length bs \<le> kMaxFramePayload"
  shows "read_frame e script_recv fd w = Some (ResVal (from_span bs), w\<lparr>incoming := rest\<rparr>)"
proof -
  obtain hd where h: "tcp_record bs = net_header hd @ bs" "acceptable_header hd" "unat (payload_len hd) = length bs"
    using tcp_record_split [OF assms(3)] by blast
  have "decode_header e (net_header hd) = ResVal hd" using h(2) by (simp add: decode_header_iff)
  moreover have "payload_len hd = 0 \<longleftrightarrow> bs = []" using h(3) by (simp add: unat_eq_zero [symmetric])
  ultimately show ?thesis
    using assms h by (auto simp: read_frame_def kHeaderLen_def script_read_exact from_span_def)
qed

lemma script_read_end:
  "script w = [] \<Longrightarrow> incoming w = [] \<Longrightarrow> read_frame e script_recv fd w = Some (ResErr (closed_status ''peer closed''), w)"
  by (simp add: read_frame_def kHeaderLen_def read_exact.simps [of script_recv fd 16] script_recv_def)

definition demo_addr :: "string" where
  "demo_addr = ''tcp://'' @ ''127.0.0.1'' @ '':'' @ to_string_nat (unat (9000 :: u16))"

lemma script_listens:
  "lib_listen script_runtime demo_addr ListenOptions_default w
     = (ResVal (ATcpListener \<lparr>tl_fd = 3, tl_host = ''127.0.0.1'', tl_port = 9000\<rparr>), w)"
  using parse_tcp_port [of "''127.0.0.1''" 9000]
  by (simp add: demo_addr_def lib_listen_def listen_def tcp_listen_def listen_tcp_def script_runtime_def script_net_def
      kInvalidSocket_def)

lemma script_accepts:
  "tcp_accept (rt_sock script_runtime) \<lparr>tl_fd = 3, tl_host = ''127.0.0.1'', tl_port = 9000\<rparr> w = (ResVal \<lparr>tcp_fd = 4\<rparr>, w)"
  by (simp add: tcp_accept_def script_runtime_def script_net_def kInvalidSocket_def)


lemma script_connects:
  "connect_tcp (rt_sock script_runtime) (if ''127.0.0.1'' = [] then ''127.0.0.1'' else ''127.0.0.1'') 9000 w = (ResVal 3, w)"
  by (simp add: connect_tcp_def script_runtime_def script_net_def kInvalidSocket_def)

lemma script_rt:
  "rt_sock script_runtime = script_net" "rt_send script_runtime = script_send" "rt_recv script_runtime = script_recv"
  "rt_endian script_runtime = Little" "sys_close script_net fd w = (0, w)"
  "rt_sched script_runtime w = (\<lparr>sched_turns = [(0, 0)], sched_now = 0, sched_wait = []\<rparr>, w)"
  by (simp_all add: script_runtime_def script_net_def)

lemma script_server_run:
  assumes "length bs \<le> kMaxFramePayload"
  shows "echo_server_main script_runtime prog [demo_addr] \<lparr>outgoing = [], incoming = tcp_record bs, script = []\<rparr>
     = Some ([Err (''listening on '' @ demo_addr), describe ''recv: '' (closed_status ''peer closed'')], 0,
         \<lparr>outgoing = tcp_record bs, incoming = [], script = []\<rparr>)"
proof -
  let ?p = "Plain (ATcpPipe \<lparr>tcp_fd = 4\<rparr>)"
  have fd: "tcp_fd \<lparr>tcp_fd = 4\<rparr> \<noteq> kInvalidSocket" by (simp add: kInvalidSocket_def)
  have "echo_loop script_runtime (?p, \<lparr>outgoing = tcp_record bs, incoming = [], script = []\<rparr>)
      = Some (describe ''recv: '' (closed_status ''peer closed''), ?p, \<lparr>outgoing = tcp_record bs, incoming = [], script = []\<rparr>)"
    by (subst echo_loop.simps) (simp add: script_api.pipe_recv_tcp [OF fd] script_read_end script_rt)
  then have "echo_loop script_runtime (?p, \<lparr>outgoing = [], incoming = tcp_record bs, script = []\<rparr>)
      = Some (describe ''recv: '' (closed_status ''peer closed''), ?p, \<lparr>outgoing = tcp_record bs, incoming = [], script = []\<rparr>)"
    using assms script_read_frame [where rest = "[]"]
    by (subst echo_loop.simps)
      (simp add: script_api.pipe_recv_tcp [OF fd] script_api.pipe_send_tcp [OF fd] script_write_frame script_rt)
  then show ?thesis
    by (simp add: echo_server_main_def script_listens listener_accept_def script_accepts [unfolded script_rt] script_api.pipe_close_plain
        base_close_def tcp_close_def listener_close_def tcp_listener_close_def script_rt)
qed

lemma script_client_run:
  assumes "length body \<le> kMaxFramePayload"
  shows "echo_client_main script_runtime prog [demo_addr, body]
       \<lparr>outgoing = [], incoming = tcp_record (bytes_of_string body), script = []\<rparr>
     = Some ([Out body], 0, \<lparr>outgoing = tcp_record (bytes_of_string body), incoming = [], script = []\<rparr>)"
proof -
  let ?w = "\<lparr>outgoing = [], incoming = tcp_record (bytes_of_string body), script = []\<rparr>"
  let ?m = "from_string body" and ?t = "\<lparr>tcp_fd = 3\<rparr>"
  let ?q = "mk_QosPipe (ATcpPipe ?t) QosOptions_default"
  let ?q1 = "?q\<lparr>send_queue := [\<lparr>qmessage = ?m, timestamp = 0\<rparr>], send_bytes := size_u64 ?m, send_count := 1\<rparr>"
  let ?w1 = "\<lparr>outgoing = tcp_record (bytes_of_string body), incoming = tcp_record (bytes_of_string body), script = []\<rparr>"
  let ?w2 = "\<lparr>outgoing = tcp_record (bytes_of_string body), incoming = [], script = []\<rparr>"
  have fd: "tcp_fd ?t \<noteq> kInvalidSocket" by (simp add: kInvalidSocket_def)
  have m: "wf_Message ?m" "msg_size ?m \<le> kMaxFramePayload" "view ?m = bytes_of_string body"
    using assms by (simp_all add: from_string_def)
  have "msg_size ?m < 4194304" using m(2) by (simp add: kMaxFramePayload_def)
  then have lt: "size_u64 ?m < 4194304" by (simp add: size_u64_def word_less_nat_alt unat_of_nat_small)
  have dial: "lib_dial script_runtime demo_addr DialOptions_default ?w = Some (ResVal (WithQos ?q), ?w)"
    using dial_tcp_text [of script_net "rt_shm script_runtime" script_send _ _ "''127.0.0.1''" 9000
        DialOptions_default ?w] script_connects [of ?w, unfolded script_rt]
    by (simp add: lib_dial_def demo_addr_def as_tcp_def tcp_dial_def DialOptions_default_def wrap_qos_def
        QosOptions_default_def script_rt)
  have empty: "qos_turns script_runtime ts (attach w ?q) = attach w ?q" for ts w
    by (rule script_api.qos_turns_empty) (simp_all add: mk_QosPipe_def QosOptions_default_def attach_def)
  have send: "pipe_send script_runtime ?m SendOptions_default (WithQos ?q, ?w) = Some (Status_Ok, WithQos ?q1, ?w)"
    using lt unfolding pipe_send_def script_rt prod.case any_pipe.case sched.simps empty
    by (simp add: qos_send_def send_check_def send_locked_def at_limit_def send_enqueue_def detach_def attach_def
        mk_QosPipe_def QosOptions_default_def)
  have turn: "qos_elapse script_runtime (?q1, ?w) = Some (?q, ?w1)"
    using lt m fd script_write_frame [OF _ m(1,2), of ?w Little 3]
    by (simp add: qos_elapse_def script_rt attach_def detach_def worker_turn_def process_expired_def can_send_message_def
        worker_send_def base_send_def tcp_send_def drop_front_def mk_QosPipe_def QosOptions_default_def)
  have recv: "pipe_recv script_runtime RecvOptions_default (WithQos ?q1, ?w) = Some (ResVal ?m, WithQos ?q, ?w2)"
    using fd script_read_frame [of ?w1 "bytes_of_string body" "[]" Little 3] assms
    unfolding pipe_recv_def prod.case any_pipe.case turn
    by (simp add: base_recv_def tcp_recv_def script_rt from_span_def from_string_def mk_QosPipe_def)
  have rest: "qos_elapse script_runtime (?q, ?w2) = Some (?q, ?w2)"
    using empty [of "[(0, 0)]" ?w2] by (simp add: qos_elapse_def script_rt detach_def) (simp add: attach_def mk_QosPipe_def)
  have u: "underlying ?q = ATcpPipe ?t" by (simp add: mk_QosPipe_def)
  have "\<exists>pp. pipe_close script_runtime (WithQos ?q, ?w2) = Some (pp, ?w2)"
    by (simp add: pipe_close_def rest u base_close_def tcp_close_def script_rt)
  then show ?thesis by (auto simp: echo_client_main_def dial send recv m(3))
qed


end
