(* ===== verification/Duct_Convenience_Example.thy ===== *)
theory Duct_Convenience_Example
  imports Duct_Programs Duct_Utils "HOL-Library.Monad_Syntax"
begin

text \<open>
  The program \<^verbatim>\<open>examples/convenience_example.cc\<close>: seven small programs that use the builders, the
  owning wrappers and the helper functions, chosen by the first argument. The source prints in
  Chinese; the lines are given in English here, with the values they contain. An example ends with
  what it printed and the world, or not at all (\<open>None\<close>). Owners are destroyed at the end of the scope.
\<close>

section \<open>Numbers and owners\<close>

text \<open>\<open>std::stoi\<close>: leading white space, an optional sign, and digits; \<open>None\<close> when it throws.\<close>

definition is_space :: "char \<Rightarrow> bool" where
  "is_space c \<longleftrightarrow> c \<in> {CHR '' '', CHR 0x09, CHR 0x0A, CHR 0x0B, CHR 0x0C, CHR 0x0D}"

definition stoi :: "string \<Rightarrow> int option" where
  "stoi s =
     (let r = dropWhile is_space s;
          (neg, body) = (case r of c # cs \<Rightarrow> if c = CHR ''-'' then (True, cs) else if c = CHR ''+'' then (False, cs) else (False, r)
                         | [] \<Rightarrow> (False, r));
          ds = takeWhile is_digit body;
          v = (if neg then - int (digits_value ds) else int (digits_value ds))
      in if ds = [] \<or> v < - (2 ^ 31) \<or> v \<ge> 2 ^ 31 then None else Some v)"

text \<open>How a process ends: with a code, or because of an exception that nobody catches.\<close>

datatype exit = Exit nat | Terminated

text \<open>The methods of a \<open>ScopedPipe\<close> that owns a pipe; without one they dereference a null pointer.\<close>

definition owned_send :: "'w runtime \<Rightarrow> (any_pipe scoped \<times> 'w) psend" where
  "owned_send rt msg opt sw =
     (case sw of (s, w) \<Rightarrow>
        do { p \<leftarrow> s; map_option (\<lambda>(st, p', w'). (st, Some p', w')) (pipe_send rt msg opt (p, w)) })"

definition owned_recv :: "'w runtime \<Rightarrow> (any_pipe scoped \<times> 'w) precv" where
  "owned_recv rt opt sw =
     (case sw of (s, w) \<Rightarrow>
        do { p \<leftarrow> s; map_option (\<lambda>(r, p', w'). (r, Some p', w')) (pipe_recv rt opt (p, w)) })"

definition owned_destroy :: "'w runtime \<Rightarrow> any_pipe scoped \<times> 'w \<Rightarrow> 'w option" where
  "owned_destroy rt sw =
     (case sw of (None, w) \<Rightarrow> Some w | (Some p, w) \<Rightarrow> map_option snd (pipe_close rt (p, w)))"

definition lib_connect :: "'w runtime \<Rightarrow> string \<Rightarrow> DialOptions \<Rightarrow> 'w \<Rightarrow> (any_pipe scoped Result \<times> 'w) option" where
  "lib_connect rt a opt w =
     raii_connect (rt_sock rt) (rt_shm rt) (rt_send rt) (fst (rt_random rt)) (snd (rt_random rt)) a opt w"

definition demo_address :: string where
  "demo_address = ''tcp://127.0.0.1:9000''"

section \<open>The examples\<close>

definition example_builder_api :: "'w runtime \<Rightarrow> 'w \<Rightarrow> (line list \<times> 'w) option" where
  "example_builder_api rt w =
     (let b = db_auto_reconnect 100 (db_send_hwm (8 * 1024 * 1024) (db_timeout 5000 (tcp_builder ''127.0.0.1'' 9000)));
          title = Out ''=== example 1: builder ===''
      in do {
        (r, w1) \<leftarrow> db_connect (rt_sock rt) (rt_shm rt) (rt_send rt) (fst (rt_random rt)) (snd (rt_random rt)) b w;
        case r of
          ResErr st \<Rightarrow> Some ([title, Err (''connect failed: '' @ Status_to_string st)], w1)
        | ResVal p \<Rightarrow> do {
            (_, w2) \<leftarrow> pipe_close rt (p, w1);
            Some ([title, Out ''connected to the server''], w2) } })"

definition example_raii :: "'w runtime \<Rightarrow> 'w \<Rightarrow> (line list \<times> 'w) option" where
  "example_raii rt w =
     (let title = Out ''=== example 2: RAII ===''
      in do {
        (r, w1) \<leftarrow> lib_connect rt demo_address DialOptions_default w;
        case r of
          ResErr st \<Rightarrow> Some ([title, Err (''connect failed: '' @ Status_to_string st)], w1)
        | ResVal sp \<Rightarrow> do {
            (st, sw2) \<leftarrow> owned_send rt (from_string ''Hello, duct!'') SendOptions_default (sp, w1);
            w3 \<leftarrow> owned_destroy rt sw2;
            Some (title # (if \<not> status_ok st then [Err (''send failed: '' @ Status_to_string st)] else []), w3) } })"

definition example_request_response :: "'w runtime \<Rightarrow> 'w \<Rightarrow> (line list \<times> 'w) option" where
  "example_request_response rt w =
     (let title = Out ''=== example 3: request and response ===''
      in do {
        (r, w1) \<leftarrow> lib_connect rt demo_address DialOptions_default w;
        case r of
          ResErr st \<Rightarrow> Some ([title, Err (''connect failed: '' @ Status_to_string st)], w1)
        | ResVal sp \<Rightarrow> do {
            (response, sw2) \<leftarrow> request (owned_send rt) (owned_recv rt) (from_string ''ping'') 5000 (sp, w1);
            w3 \<leftarrow> owned_destroy rt sw2;
            Some ([title, (case response of
                ResVal m \<Rightarrow> Out (''received response: '' @ string_of_bytes (view m))
              | ResErr st \<Rightarrow> Err (''request failed: '' @ Status_to_string st))], w3) } })"

definition example_batch_operations :: "'w runtime \<Rightarrow> 'w \<Rightarrow> (line list \<times> 'w) option" where
  "example_batch_operations rt w =
     (let title = Out ''=== example 4: batch operations ===''
      in do {
        (r, w1) \<leftarrow> lib_connect rt demo_address DialOptions_default w;
        case r of
          ResErr st \<Rightarrow> Some ([title, Err (''connect failed: '' @ Status_to_string st)], w1)
        | ResVal sp \<Rightarrow>
            let messages = map (\<lambda>i. from_string (''message '' @ to_string_nat i)) [0..<10]
            in do {
              (sent, sw2) \<leftarrow> send_batch (owned_send rt) messages (sp, w1);
              w3 \<leftarrow> owned_destroy rt sw2;
              Some (title # (case sent of
                  ResVal n \<Rightarrow> [Out (''sent '' @ to_string_nat n @ '' messages'')] | ResErr st \<Rightarrow> []), w3) } })"

text \<open>The handler prints the message; the lines printed are its state.\<close>

definition print_handler :: "Message \<Rightarrow> line list \<Rightarrow> Status \<times> line list" where
  "print_handler m out = (Status_Ok, out @ [Out (''received message: '' @ string_of_bytes (view m))])"

definition example_callback_handler :: "'w runtime \<Rightarrow> 'w \<Rightarrow> (line list \<times> 'w) option" where
  "example_callback_handler rt w =
     (let title = Out ''=== example 5: callback handler ===''
      in do {
        (r, w1) \<leftarrow> connect_raw (rt_sock rt) (rt_shm rt) (rt_send rt) (fst (rt_random rt)) (snd (rt_random rt)) demo_address w;
        case r of
          ResErr st \<Rightarrow> Some ([title, Err (''connect failed: '' @ Status_to_string st)], w1)
        | ResVal p \<Rightarrow> do {
            (_, pw2, out) \<leftarrow> serve (pipe_recv rt) print_handler (p, w1) [title];
            (_, w3) \<leftarrow> pipe_close rt pw2;
            Some (out, w3) } })"

definition example_exception_style :: "'w runtime \<Rightarrow> any_pipe \<Rightarrow> 'w \<Rightarrow> (line list \<times> 'w) option" where
  "example_exception_style rt null w =
     (let title = Out ''=== example 6: exceptions ===''
      in do {
        (r, w1) \<leftarrow> lib_dial rt demo_address DialOptions_default w;
        case value_or_throw null r of
          Inl e \<Rightarrow> Some ([title, Err (''exception: '' @ full_message e)], w1)
        | Inr p \<Rightarrow> do {
            (st, sw2) \<leftarrow> owned_send rt (from_string ''Hello!'') SendOptions_default (Some p, w1);
            w3 \<leftarrow> owned_destroy rt sw2;
            Some ([title, (case throw_if_error st of
                Inl e \<Rightarrow> Err (''exception: '' @ full_message e) | Inr _ \<Rightarrow> Out ''message sent'')], w3) } })"

definition example_echo_server :: "'w runtime \<Rightarrow> 'w \<Rightarrow> (line list \<times> 'w) option" where
  "example_echo_server rt w =
     (let title = Out ''=== example 7: echo server ===''
      in case raii_bind (rt_sock rt) demo_address ListenOptions_default w of
        (ResErr st, w1) \<Rightarrow> Some ([title, Err (''listen failed: '' @ Status_to_string st)], w1)
      | (ResVal None, w1) \<Rightarrow> None
      | (ResVal (Some l), w1) \<Rightarrow> do {
          (r, w2) \<leftarrow> listener_accept rt l w1;
          case r of
            ResErr st \<Rightarrow> Some ([title, Out ''waiting for a connection'', Err (''accept failed: '' @ Status_to_string st)],
                snd (listener_close rt (l, w2)))
          | ResVal p \<Rightarrow> do {
              (st, pw3) \<leftarrow> echo_server (pipe_send rt) (pipe_recv rt) (p, w2);
              (_, w4) \<leftarrow> pipe_close rt pw3;
              Some ([title, Out ''waiting for a connection'', Out ''client connected'']
                  @ (if \<not> status_ok st then [Err (''echo server error: '' @ Status_to_string st)] else []),
                snd (listener_close rt (l, w4))) } })"

definition convenience_usage :: "string \<Rightarrow> line list" where
  "convenience_usage prog = map Err
     [''usage: '' @ prog @ '' <example_number>'', ''examples:'', ''  1 - builder'', ''  2 - RAII'', ''  3 - request and response'',
      ''  4 - batch operations'', ''  5 - callback handler'', ''  6 - exceptions'', ''  7 - echo server'']"

definition convenience_main ::
  "'w runtime \<Rightarrow> any_pipe \<Rightarrow> string \<Rightarrow> string list \<Rightarrow> 'w \<Rightarrow> (line list \<times> exit \<times> 'w) option" where
  "convenience_main rt null prog args w =
     (case args of
        [] \<Rightarrow> Some (convenience_usage prog, Exit 2, w)
      | a # _ \<Rightarrow>
          (case stoi a of
             None \<Rightarrow> Some ([], Terminated, w)
           | Some n \<Rightarrow>
               let examples = [example_builder_api rt, example_raii rt, example_request_response rt,
                    example_batch_operations rt, example_callback_handler rt, example_exception_style rt null,
                    example_echo_server rt]
               in if 1 \<le> n \<and> n \<le> 7 then map_option (\<lambda>(out, w'). (out, Exit 0, w')) ((examples ! nat (n - 1)) w)
                  else Some ([Err (''invalid example number: '' @ to_string_int n)], Exit 1, w)))"

section \<open>Dialling the demonstration address\<close>

lemma demo_address_text: "demo_address = ''tcp://'' @ ''127.0.0.1'' @ '':'' @ to_string_nat (unat (9000 :: u16))"
  by (simp add: demo_address_def to_string_nat.simps char_of_def bit_0)

lemma owned_simps [simp]:
  "owned_send rt m opt (Some p, w) = map_option (\<lambda>(st, p', w'). (st, Some p', w')) (pipe_send rt m opt (p, w))"
  "owned_recv rt ropt (Some p, w) = map_option (\<lambda>(r, p', w'). (r, Some p', w')) (pipe_recv rt ropt (p, w))"
  "owned_destroy rt (Some p, w) = map_option snd (pipe_close rt (p, w))"
  by (simp_all add: owned_send_def owned_recv_def owned_destroy_def)

lemma lib_connect_dial:
  "lib_connect rt a opt w = map_option (\<lambda>(r, w'). (case r of ResErr s \<Rightarrow> ResErr s | ResVal p \<Rightarrow> ResVal (Some p), w'))
     (lib_dial rt a opt w)"
  by (simp add: lib_connect_def raii_connect_def lib_dial_def)

context runtime_contract
begin

text \<open>Dialling returns an error, or a fresh connection.\<close>

lemma demo_dial:
  assumes "keeps_all (dial_qos opt)" "snd_hwm_bytes (dial_qos opt) \<noteq> 0"
  obtains (failed) st w1 where "lib_dial rt demo_address opt w = Some (ResErr st, w1)" "\<not> status_ok st"
      "\<forall>fd w1. connect_tcp (rt_sock rt) ''127.0.0.1'' 9000 w \<noteq> (ResVal fd, w1)"
  | (connected) fd w1 q where "connect_tcp (rt_sock rt) ''127.0.0.1'' 9000 w = (ResVal fd, w1)"
      "lib_dial rt demo_address opt w = Some (ResVal (WithQos q), w1)"
      "conn \<lparr>tcp_fd = fd\<rparr> (dial_qos opt) (sent fd w1) [] q w1" "running q" "send_queue q = []"
proof -
  obtain r w1 where c: "connect_tcp (rt_sock rt) ''127.0.0.1'' 9000 w = (r, w1)" by force
  show ?thesis
  proof (cases r)
    case (ResErr st)
    then have "lib_dial rt demo_address opt w = Some (ResErr st, w1)"
      using c dial_tcp_text [of "rt_sock rt" "rt_shm rt" "rt_send rt" "fst (rt_random rt)" "snd (rt_random rt)"
          "''127.0.0.1''" 9000 opt w]
      by (simp add: lib_dial_def demo_address_text as_tcp_def tcp_dial_def)
    moreover have "\<not> status_ok st"
      using c ResErr by (auto simp: connect_tcp_def split: prod.splits option.splits if_splits)
    ultimately show ?thesis using ResErr c failed by simp
  next
    case (ResVal fd)
    then have "connect_tcp (rt_sock rt) (if ''127.0.0.1'' = [] then ''127.0.0.1'' else ''127.0.0.1'') 9000 w = (ResVal fd, w1)"
      using c by simp
    from conn_dial [OF this assms] ResVal c connected show ?thesis by (metis demo_address_text)
  qed
qed

lemma default_qos: "keeps_all (dial_qos DialOptions_default)" "snd_hwm_bytes (dial_qos DialOptions_default) \<noteq> 0"
  "unat (snd_hwm_bytes (dial_qos DialOptions_default)) = 4194304"
  by (simp_all add: keeps_all_def DialOptions_default_def QosOptions_default_def)

lemma conn_destroy:
  assumes "conn t opts s0 ms q w"
  shows "\<exists>w' out. owned_destroy rt (Some (WithQos q), w) = Some w' \<and> sent (tcp_fd t) w' = s0 @ out \<and> prefix out (records ms)"
  using conn_close [OF assms] by auto

section \<open>What the examples send and print\<close>

lemma raii_example_run:
  assumes "connect_tcp (rt_sock rt) ''127.0.0.1'' 9000 w = (ResVal fd, w1)"
  shows "\<exists>w' out. example_raii rt w = Some ([Out ''=== example 2: RAII ===''], w')
     \<and> sent fd w' = sent fd w1 @ out \<and> prefix out (tcp_record (bytes_of_string ''Hello, duct!''))"
proof (cases rule: demo_dial [OF default_qos(1,2), of w, case_names failed connected])
  case (connected fd' w1' q)
  with assms have e: "fd' = fd" "w1' = w1" by simp_all
  let ?m = "from_string ''Hello, duct!''"
  have sz: "msg_bytes [] + msg_size ?m < unat (snd_hwm_bytes (dial_qos DialOptions_default))"
    by (simp add: default_qos from_string_def)
  obtain st q2 w2 where s: "pipe_send rt ?m SendOptions_default (WithQos q, w1) = Some (st, WithQos q2, w2)" "status_ok st"
    "conn \<lparr>tcp_fd = fd\<rparr> (dial_qos DialOptions_default) (sent fd w1) [?m] q2 w2"
    using conn_send [OF connected(3) wf_from_string sz, of SendOptions_default] connected(4,5) e by auto
  have "view ?m = bytes_of_string ''Hello, duct!''" by (simp add: from_string_def)
  with conn_destroy [OF s(3)] s(1,2) connected(2) e show ?thesis
    by (auto simp: example_raii_def lib_connect_dial)
qed (use assms in auto)

lemma raii_example_unscheduled:
  assumes "connect_tcp (rt_sock rt) ''127.0.0.1'' 9000 w = (ResVal fd, w1)"
    and idle: "\<forall>w. sched_turns (fst (rt_sched rt w)) = []"
  shows "\<exists>w'. example_raii rt w = Some ([Out ''=== example 2: RAII ===''], w') \<and> sent fd w' = sent fd w1"
proof (cases rule: demo_dial [OF default_qos(1,2), of w, case_names failed connected])
  case (connected fd' w1' q)
  with assms have e: "fd' = fd" "w1' = w1" by simp_all
  obtain sch w2 where sch: "rt_sched rt w1 = (sch, w2)" "sched_turns sch = []" using idle by (metis prod.collapse)
  have q: "running q" "send_queue q = []" "send_bytes q = 0" "underlying q = ATcpPipe \<lparr>tcp_fd = fd\<rparr>"
    "qos q = dial_qos DialOptions_default"
    using connected(3-5) e by (auto simp: conn_def qos_inv_def queued_now_def)
  obtain q2 where s: "pipe_send rt (from_string ''Hello, duct!'') SendOptions_default (WithQos q, w1)
      = Some (Status_Ok, WithQos q2, w2)" "underlying q2 = ATcpPipe \<lparr>tcp_fd = fd\<rparr>"
    using q sch
    by (simp add: pipe_send_def qos_send_def send_check_def send_locked_def at_limit_def send_enqueue_def detach_def
        attach_def size_u64_def from_string_def DialOptions_default_def QosOptions_default_def)
  obtain sch' w3 where sch': "rt_sched rt w2 = (sch', w3)" "sched_turns sch' = []" using idle by (metis prod.collapse)
  have "qos_elapse rt (q2, w2) = Some (q2, if running q2 then w3 else w2)"
    using sch' by (simp add: qos_elapse_def detach_def attach_def)
  then have "\<exists>w'. owned_destroy rt (Some (WithQos q2), w2) = Some w' \<and> sent fd w' = sent fd w2"
    using s(2) base_close_sent [of fd "\<lparr>tcp_fd = fd\<rparr>"] sched_keeps(1) [of fd w2] sch'(1)
    by (simp add: pipe_close_def case_prod_beta)
  moreover have "sent fd w2 = sent fd w1" using sched_keeps(1) [of fd w1] sch(1) by simp
  ultimately show ?thesis using connected(2) s(1) e by (auto simp: example_raii_def lib_connect_dial)
qed (use assms in auto)

lemma request_example_run:
  assumes "connect_tcp (rt_sock rt) ''127.0.0.1'' 9000 w = (ResVal fd, w1)"
  shows "\<exists>ans w' out. example_request_response rt w = Some ([Out ''=== example 3: request and response ==='', ans], w')
     \<and> sent fd w' = sent fd w1 @ out \<and> prefix out (tcp_record (bytes_of_string ''ping''))
     \<and> ((\<exists>x rest. frame_of (rt_endian rt) (pending fd w1) = Some (x, rest) \<and> ans = Out (''received response: '' @ string_of_bytes x))
        \<or> (\<exists>st. ans = Err (''request failed: '' @ Status_to_string st)
             \<and> (code st = kIoError \<or> frame_of (rt_endian rt) (pending fd w1) = None)))"
proof (cases rule: demo_dial [OF default_qos(1,2), of w, case_names failed connected])
  case (connected fd' w1' q)
  with assms have e: "fd' = fd" "w1' = w1" by simp_all
  let ?m = "from_string ''ping''"
  have sz: "msg_bytes [] + msg_size ?m < unat (snd_hwm_bytes (dial_qos DialOptions_default))"
    by (simp add: default_qos from_string_def)
  obtain st q2 w2 where s: "pipe_send rt ?m \<lparr>snd_timeout = 5000\<rparr> (WithQos q, w1) = Some (st, WithQos q2, w2)" "status_ok st"
    "conn \<lparr>tcp_fd = fd\<rparr> (dial_qos DialOptions_default) (sent fd w1) [?m] q2 w2" "pending fd w2 = pending fd w1"
    using conn_send [OF connected(3) wf_from_string sz, of "\<lparr>snd_timeout = 5000\<rparr>"] connected(4,5) e by auto
  obtain r q3 w3 where r: "pipe_recv rt \<lparr>rcv_timeout = 5000\<rparr> (WithQos q2, w2) = Some (r, WithQos q3, w3)"
    "conn \<lparr>tcp_fd = fd\<rparr> (dial_qos DialOptions_default) (sent fd w1) [?m] q3 w3"
    "case r of ResVal m \<Rightarrow> wf_Message m \<and> frame_of (rt_endian rt) (pending fd w1) = Some (view m, pending fd w3)
     | ResErr s \<Rightarrow> \<not> status_ok s \<and> (code s = kIoError \<or> frame_of (rt_endian rt) (pending fd w1) = None)"
    using conn_recv [OF s(3), of "\<lparr>rcv_timeout = 5000\<rparr>"] unfolding TcpPipe.simps s(4) by blast
  have "view ?m = bytes_of_string ''ping''" by (simp add: from_string_def)
  with conn_destroy [OF r(2)] s(1,2) r(1,3) connected(2) e show ?thesis
    by (cases r) (auto simp: example_request_response_def lib_connect_dial request_def)
qed (use assms in auto)

lemma conn_send_loop:
  assumes "conn t opts s0 ms q w" "\<forall>m\<in>set xs. wf_Message m" "msg_bytes ms + msg_bytes xs < unat (snd_hwm_bytes opts)"
  shows "\<exists>r q' w'. send_loop (owned_send rt) xs k (Some (WithQos q), w) = Some (r, Some (WithQos q'), w')
     \<and> (case r of ResVal n \<Rightarrow> n = k + length xs \<and> conn t opts s0 (ms @ xs) q' w'
         | ResErr st \<Rightarrow> code st = kClosed \<and> (\<exists>ys. prefix ys xs \<and> conn t opts s0 (ms @ ys) q' w'))"
  using assms
proof (induction xs arbitrary: ms q w k)
  case (Cons x xs)
  obtain st q1 w1 where s: "pipe_send rt x SendOptions_default (WithQos q, w) = Some (st, WithQos q1, w1)"
    "if status_ok st then conn t opts s0 (ms @ [x]) q1 w1 else code st = kClosed \<and> conn t opts s0 ms q1 w1"
    using conn_send [OF Cons.prems(1), of x SendOptions_default] Cons.prems by auto
  show ?case
  proof (cases "status_ok st")
    case True
    then have "conn t opts s0 (ms @ [x]) q1 w1" using s(2) by simp
    from Cons.IH [OF this, of "Suc k"] Cons.prems obtain r q2 w2 where
      "send_loop (owned_send rt) xs (Suc k) (Some (WithQos q1), w1) = Some (r, Some (WithQos q2), w2)"
      "case r of ResVal n \<Rightarrow> n = Suc k + length xs \<and> conn t opts s0 ((ms @ [x]) @ xs) q2 w2
         | ResErr st \<Rightarrow> code st = kClosed \<and> (\<exists>ys. prefix ys xs \<and> conn t opts s0 ((ms @ [x]) @ ys) q2 w2)"
      by auto
    with s(1) True show ?thesis
      by (cases r) (auto intro: exI [of _ "x # ys" for ys])
  next
    case False
    with s show ?thesis by (auto intro!: exI [of _ "[]"])
  qed
qed simp

lemma batch_example_run:
  assumes "connect_tcp (rt_sock rt) ''127.0.0.1'' 9000 w = (ResVal fd, w1)"
  shows "\<exists>said w' out. example_batch_operations rt w = Some (Out ''=== example 4: batch operations ==='' # said, w')
     \<and> (said = [] \<or> said = [Out (''sent '' @ to_string_nat 10 @ '' messages'')])
     \<and> sent fd w' = sent fd w1 @ out
     \<and> prefix out (records (map (\<lambda>i. from_string (''message '' @ to_string_nat i)) [0..<10]))"
proof (cases rule: demo_dial [OF default_qos(1,2), of w, case_names failed connected])
  case (connected fd' w1' q)
  with assms have e: "fd' = fd" "w1' = w1" by simp_all
  let ?ms = "map (\<lambda>i. from_string (''message '' @ to_string_nat i)) [0..<10]"
  have "length (to_string_nat i) \<le> 1" if "i < 10" for i using length_to_string_nat [of 1 i] that by simp
  then have "msg_bytes ?ms \<le> sum_list (map (\<lambda>i. 9) [0..<10])"
    unfolding msg_bytes_def map_map by (intro sum_list_mono) (auto simp: from_string_def)
  then have sz: "msg_bytes [] + msg_bytes ?ms < unat (snd_hwm_bytes (dial_qos DialOptions_default))"
    by (simp add: default_qos sum_list_triv)
  obtain r q2 w2 where s: "send_batch (owned_send rt) ?ms (Some (WithQos q), w1) = Some (r, Some (WithQos q2), w2)"
    "case r of ResVal n \<Rightarrow> n = 0 + length ?ms \<and> conn \<lparr>tcp_fd = fd\<rparr> (dial_qos DialOptions_default) (sent fd w1) ([] @ ?ms) q2 w2
      | ResErr st \<Rightarrow> code st = kClosed
          \<and> (\<exists>ys. prefix ys ?ms \<and> conn \<lparr>tcp_fd = fd\<rparr> (dial_qos DialOptions_default) (sent fd w1) ([] @ ys) q2 w2)"
    using conn_send_loop [OF connected(3) _ sz, where k = 0] e unfolding send_batch_def by auto
  then obtain ys where ys: "prefix ys ?ms" "conn \<lparr>tcp_fd = fd\<rparr> (dial_qos DialOptions_default) (sent fd w1) ys q2 w2"
    by (cases r) auto
  from conn_destroy [OF ys(2)] obtain w3 out where d: "owned_destroy rt (Some (WithQos q2), w2) = Some w3"
    "sent fd w3 = sent fd w1 @ out" "prefix out (records ys)" by auto
  have "prefix (records ys) (records ?ms)" using ys(1) by (auto simp: prefix_def)
  with d(3) have "prefix out (records ?ms)" by (rule prefix_order.trans)
  with s d connected(2) e show ?thesis
    by (cases r) (auto simp: example_batch_operations_def lib_connect_dial Let_def simp del: upt_Suc)
qed (use assms in auto)

section \<open>Every example ends\<close>

lemma conn_serve:
  assumes "conn t opts s0 ms q w"
  shows "\<exists>st q' w' h'. serve (pipe_recv rt) handler (WithQos q, w) h = Some (st, (WithQos q', w'), h') \<and> conn t opts s0 ms q' w'"
  using assms
proof (induction "length (pending (tcp_fd t) w)" arbitrary: q w h rule: less_induct)
  case less
  obtain r q1 w1 where r: "pipe_recv rt RecvOptions_default (WithQos q, w) = Some (r, WithQos q1, w1)" "conn t opts s0 ms q1 w1"
    "case r of ResVal m \<Rightarrow> wf_Message m \<and> frame_of (rt_endian rt) (pending (tcp_fd t) w) = Some (view m, pending (tcp_fd t) w1)
     | ResErr s \<Rightarrow> \<not> status_ok s \<and> (code s = kIoError \<or> frame_of (rt_endian rt) (pending (tcp_fd t) w) = None)"
    using conn_recv [OF less.prems, of RecvOptions_default] by blast
  note step = serve.simps [of "pipe_recv rt" handler "(WithQos q, w)" h]
  show ?case
  proof (cases r)
    case (ResErr st)
    with r show ?thesis by (simp add: step)
  next
    case (ResVal m)
    then have "length (pending (tcp_fd t) w1) < length (pending (tcp_fd t) w)"
      using r(3) by (auto dest: frame_of_shorter)
    from less.hyps [OF this r(2)] ResVal r show ?thesis
      by (cases "handler m h") (auto simp: step)
  qed
qed

lemma echo_server_tcp_ends:
  assumes "tcp_fd t \<noteq> kInvalidSocket"
  shows "\<exists>st w'. echo_server (pipe_send rt) (pipe_recv rt) (Plain (ATcpPipe t), w) = Some (st, Plain (ATcpPipe t), w')"
proof (induction "length (pending (tcp_fd t) w)" arbitrary: w rule: less_induct)
  case less
  let ?e = "rt_endian rt" and ?fd = "tcp_fd t"
  obtain r w1 where r: "read_frame ?e (rt_recv rt) ?fd w = Some (r, w1)"
    "case r of ResVal m \<Rightarrow> wf_Message m \<and> msg_size m \<le> kMaxFramePayload
       \<and> frame_of ?e (pending ?fd w) = Some (view m, pending ?fd w1)
     | ResErr s \<Rightarrow> code s = kIoError \<or> (code s \<noteq> kOk \<and> frame_of ?e (pending ?fd w) = None)"
    using read_frame_decodes [of ?e ?fd w] by blast
  note step = echo_server.simps [of "pipe_send rt" "pipe_recv rt" "(Plain (ATcpPipe t), w)"]
  show ?case
  proof (cases r)
    case (ResErr s)
    with r assms show ?thesis by (simp add: step pipe_recv_tcp)
  next
    case (ResVal m)
    obtain st w2 where s: "write_frame ?e (rt_send rt) ?fd m 0 w1 = Some (st, w2)" using write_frame_some by blast
    have "length (pending ?fd w2) < length (pending ?fd w)"
      using r(2) ResVal write_frame_keeps [OF send_pending s] by (auto dest: frame_of_shorter)
    from less [OF this] ResVal r(1) s assms show ?thesis
      by (auto simp: step pipe_recv_tcp pipe_send_tcp)
  qed
qed

lemma builder_example_ends: "\<exists>r. example_builder_api rt w = Some r"
proof -
  let ?b = "db_auto_reconnect 100 (db_send_hwm (8 * 1024 * 1024) (db_timeout 5000 (tcp_builder ''127.0.0.1'' 9000)))"
  have b: "db_address ?b = demo_address" "keeps_all (dial_qos (db_options ?b))" "snd_hwm_bytes (dial_qos (db_options ?b)) \<noteq> 0"
    by (simp_all add: db_auto_reconnect_def db_reconnect_def db_send_hwm_def db_qos_def db_timeout_def tcp_builder_def
        mk_DialBuilder_def demo_address_text keeps_all_def DialOptions_default_def QosOptions_default_def)
  have d: "db_connect (rt_sock rt) (rt_shm rt) (rt_send rt) (fst (rt_random rt)) (snd (rt_random rt)) ?b w
      = lib_dial rt demo_address (db_options ?b) w" using b(1) by (simp add: db_connect_def lib_dial_def)
  show ?thesis
  proof (cases rule: demo_dial [OF b(2,3), of w, case_names failed connected])
    case (failed st w1)
    with d show ?thesis by (simp add: example_builder_api_def Let_def)
  next
    case (connected fd w1 q)
    with d conn_close [OF connected(3)] show ?thesis by (auto simp: example_builder_api_def Let_def)
  qed
qed

text \<open>When dialling fails, every client example prints so and ends.\<close>

lemma failed_dial_ends:
  assumes "lib_dial rt demo_address DialOptions_default w = Some (ResErr st, w1)" "\<not> status_ok st"
  shows "\<exists>r. example_raii rt w = Some r" "\<exists>r. example_request_response rt w = Some r"
    "\<exists>r. example_batch_operations rt w = Some r" "\<exists>r. example_callback_handler rt w = Some r"
    "\<exists>r. example_exception_style rt null w = Some r"
  using assms
  by (simp_all add: example_raii_def example_request_response_def example_batch_operations_def lib_connect_dial
      example_callback_handler_def connect_raw_def lib_dial_def example_exception_style_def value_or_throw_def
      throw_if_error_def Let_def)

lemma connected_ends:
  assumes "lib_dial rt demo_address DialOptions_default w = Some (ResVal (WithQos q), w1)"
    and "conn \<lparr>tcp_fd = fd\<rparr> (dial_qos DialOptions_default) s0 [] q w1"
  shows "\<exists>r. example_callback_handler rt w = Some r" "\<exists>r. example_exception_style rt null w = Some r"
proof -
  obtain st q2 w2 h where s: "serve (pipe_recv rt) print_handler (WithQos q, w1) [Out ''=== example 5: callback handler ===''] = Some (st, (WithQos q2, w2), h)"
    "conn \<lparr>tcp_fd = fd\<rparr> (dial_qos DialOptions_default) s0 [] q2 w2"
    using conn_serve [OF assms(2), of print_handler "[Out ''=== example 5: callback handler ==='']"] by blast
  from conn_close [OF s(2)] s(1) assms(1) show "\<exists>r. example_callback_handler rt w = Some r"
    by (auto simp: example_callback_handler_def connect_raw_def lib_dial_def Let_def)
  have sz: "msg_bytes [] + msg_size (from_string ''Hello!'') < unat (snd_hwm_bytes (dial_qos DialOptions_default))"
    by (simp add: default_qos from_string_def)
  obtain st' q3 w3 ms where p: "pipe_send rt (from_string ''Hello!'') SendOptions_default (WithQos q, w1) = Some (st', WithQos q3, w3)"
    "conn \<lparr>tcp_fd = fd\<rparr> (dial_qos DialOptions_default) s0 ms q3 w3"
    using conn_send [OF assms(2) wf_from_string sz, of SendOptions_default] by (auto split: if_splits)
  from conn_close [OF p(2)] p(1) assms(1) show "\<exists>r. example_exception_style rt null w = Some r"
    by (auto simp: example_exception_style_def value_or_throw_def throw_if_error_def Let_def)
qed

lemma server_example_ends: "\<exists>r. example_echo_server rt w = Some r"
proof (cases "listen (rt_sock rt) demo_address ListenOptions_default w")
  case (Pair r w1)
  show ?thesis
  proof (cases r)
    case (ResErr st)
    with Pair show ?thesis by (simp add: example_echo_server_def raii_bind_def Let_def)
  next
    case (ResVal l)
    then obtain t where l: "l = ATcpListener t"
      using Pair parse_tcp_port [of "''127.0.0.1''" 9000]
      by (auto simp: listen_def demo_address_text split: prod.splits Result.splits)
    obtain a w2 where a: "tcp_accept (rt_sock rt) t w1 = (a, w2)" by force
    show ?thesis
    proof (cases a)
      case (ResErr st)
      with Pair ResVal l a show ?thesis
        by (simp add: example_echo_server_def raii_bind_def listener_accept_def Let_def)
    next
      case p: (ResVal p)
      then have "tcp_fd p \<noteq> kInvalidSocket"
        using a by (auto simp: tcp_accept_def split: if_splits prod.splits)
      then obtain st w3 where "echo_server (pipe_send rt) (pipe_recv rt) (Plain (ATcpPipe p), w2) = Some (st, Plain (ATcpPipe p), w3)"
        using echo_server_tcp_ends by blast
      with Pair ResVal l a p show ?thesis
        by (simp add: example_echo_server_def raii_bind_def listener_accept_def pipe_close_plain Let_def)
    qed
  qed
qed

lemma client_examples_end:
  "\<exists>r. example_raii rt w = Some r" "\<exists>r. example_request_response rt w = Some r"
  "\<exists>r. example_batch_operations rt w = Some r" "\<exists>r. example_callback_handler rt w = Some r"
  "\<exists>r. example_exception_style rt null w = Some r"
proof -
  show "\<exists>r. example_raii rt w = Some r" "\<exists>r. example_request_response rt w = Some r"
    "\<exists>r. example_batch_operations rt w = Some r" "\<exists>r. example_callback_handler rt w = Some r"
    "\<exists>r. example_exception_style rt null w = Some r"
    using raii_example_run [of w] request_example_run [of w] batch_example_run [of w] failed_dial_ends [of w]
      connected_ends [of w] demo_dial [OF default_qos(1,2), of w]
    by metis+
qed

end

section \<open>Properties of the examples\<close>


text \<open>
  The request example prints the peer's answer: what it writes to the connection is a front part of
  the frame of its request, and the line it prints is the payload of the first frame the peer sends, or
  a diagnostic if the stream does not begin with a well-formed frame or a system call fails.
\<close>

theorem request_example:
  assumes "runtime_contract rt sent signals pending"
    and "connect_tcp (rt_sock rt) ''127.0.0.1'' 9000 w = (ResVal fd, w1)"
  shows "\<exists>ans w' out. example_request_response rt w = Some ([Out ''=== example 3: request and response ==='', ans], w')
     \<and> sent fd w' = sent fd w1 @ out \<and> prefix out (tcp_record (bytes_of_string ''ping''))
     \<and> ((\<exists>x rest. frame_of (rt_endian rt) (pending fd w1) = Some (x, rest) \<and> ans = Out (''received response: '' @ string_of_bytes x))
        \<or> (\<exists>st. ans = Err (''request failed: '' @ Status_to_string st)
             \<and> (code st = kIoError \<or> frame_of (rt_endian rt) (pending fd w1) = None)))"
  by (rule runtime_contract.request_example_run [OF assms])

text \<open>
  Closing a dialled pipe discards what is still queued: when the worker gets no turn between the
  calls, the owning-wrapper example sends its message, reports no error and ends, and not one byte of
  the message has been sent.
\<close>

theorem raii_example_loses_message:
  assumes "runtime_contract rt sent signals pending"
    and "connect_tcp (rt_sock rt) ''127.0.0.1'' 9000 w = (ResVal fd, w1)"
    and "\<forall>w. sched_turns (fst (rt_sched rt w)) = []"
  shows "\<exists>w'. example_raii rt w = Some ([Out ''=== example 2: RAII ===''], w') \<and> sent fd w' = sent fd w1"
  by (rule runtime_contract.raii_example_unscheduled [OF assms])


lemma demo_connects: "connect_tcp (rt_sock script_runtime) ''127.0.0.1'' 9000 w = (ResVal 3, w)"
  by (simp add: connect_tcp_def script_runtime_def script_net_def kInvalidSocket_def)

lemma request_example_witness:
  "\<exists>ans w' out. example_request_response script_runtime \<lparr>outgoing = [], incoming = tcp_record [112], script = [Chunk 2]\<rparr>
      = Some ([Out ''=== example 3: request and response ==='', ans], w')
     \<and> outgoing w' = out \<and> prefix out (tcp_record (bytes_of_string ''ping''))"
  using request_example [OF script_api.runtime_contract_axioms demo_connects,
      of "\<lparr>outgoing = [], incoming = tcp_record [112], script = [Chunk 2]\<rparr>"] by fastforce

definition idle_runtime :: "sock_world runtime" where
  "idle_runtime = script_runtime\<lparr>rt_sched := (\<lambda>w. (\<lparr>sched_turns = [], sched_now = 0, sched_wait = []\<rparr>, w))\<rparr>"

interpretation idle_api: runtime_contract idle_runtime "\<lambda>fd. outgoing" script_signals "\<lambda>fd. incoming"
  using script_tcp.stream_socket_axioms
  by (simp add: runtime_contract_def runtime_contract_axioms_def idle_runtime_def script_runtime_def script_net_def)

lemma raii_example_loses_message_witness:
  "\<exists>w'. example_raii idle_runtime \<lparr>outgoing = [7], incoming = [], script = []\<rparr>
      = Some ([Out ''=== example 2: RAII ===''], w') \<and> outgoing w' = [7]"
proof -
  have "connect_tcp (rt_sock idle_runtime) ''127.0.0.1'' 9000 \<lparr>outgoing = [7], incoming = [], script = []\<rparr>
      = (ResVal 3, \<lparr>outgoing = [7], incoming = [], script = []\<rparr>)"
    using demo_connects by (simp add: idle_runtime_def)
  from raii_example_loses_message [OF idle_api.runtime_contract_axioms this] show ?thesis
    by (simp add: idle_runtime_def)
qed

end
