(* ===== verification/Duct_Async_Example.thy ===== *)
theory Duct_Async_Example
  imports Duct_Convenience_Example
begin

text \<open>
  The program \<^verbatim>\<open>examples/async_example.cc\<close>: futures, callbacks, the event loop, the channel, the
  background server and a batch of asynchronous sends. Examples whose threads only hand a result back
  are functions, with the order in which concurrent calls happen as an argument; the event loop and
  the channel are step relations of the threads involved. Lines are given in English.
\<close>

section \<open>Futures and callbacks\<close>

definition lib_async_dial :: "'w runtime \<Rightarrow> any_pipe \<Rightarrow> string \<Rightarrow> 'w \<Rightarrow> ((Exception + any_pipe) \<times> 'w) option" where
  "lib_async_dial rt null a w =
     async_dial (rt_sock rt) (rt_shm rt) (rt_send rt) (fst (rt_random rt)) (snd (rt_random rt)) null a DialOptions_default w"

definition example_async_future :: "'w runtime \<Rightarrow> any_pipe \<Rightarrow> 'w \<Rightarrow> (line list \<times> 'w) option" where
  "example_async_future rt null w =
     (let title = Out ''=== example 1: futures ===''
      in do {
        (x, w1) \<leftarrow> lib_async_dial rt null demo_address w;
        case x of
          Inl e \<Rightarrow> Some ([title, Err (''error: '' @ full_message e)], w1)
        | Inr p \<Rightarrow> do {
            (y, pw2) \<leftarrow> async_send (pipe_send rt) (from_string ''Hello, async!'') (p, w1);
            (_, w3) \<leftarrow> pipe_close rt pw2;
            Some ([title, Out ''connected to the server'',
                (case y of Inl e \<Rightarrow> Err (''error: '' @ full_message e) | Inr _ \<Rightarrow> Out ''message sent'')], w3) } })"

text \<open>
  The callback runs on a detached thread; the example sleeps for 100 ms and returns, and this is the run
  in which the call has returned by then.
\<close>

definition example_async_callback :: "'w runtime \<Rightarrow> 'w \<Rightarrow> (line list \<times> 'w) option" where
  "example_async_callback rt w =
     (let title = Out ''=== example 2: callbacks ===''
      in do {
        (r, w1) \<leftarrow> lib_dial rt demo_address DialOptions_default w;
        case r of
          ResErr st \<Rightarrow> Some ([title, Err (''connect failed: '' @ Status_to_string st)], w1)
        | ResVal p \<Rightarrow> do {
            (pw2, out) \<leftarrow> async_send_cb (pipe_send rt) (from_string ''Hello with callback!'')
              (\<lambda>st out. out @ [if status_ok st then Out ''sent (callback)'' else Err (''send failed: '' @ Status_to_string st)])
              (p, w1) [title];
            (_, w3) \<leftarrow> pipe_close rt pw2;
            Some (out, w3) } })"

section \<open>The event loop\<close>

text \<open>Registering the pipes: a connection that fails is reported and skipped.\<close>

fun register_pipes ::
  "'w runtime \<Rightarrow> nat list \<Rightarrow> (any_pipe, line list) PipeEntry list \<Rightarrow> line list \<Rightarrow> 'w
     \<Rightarrow> ((any_pipe, line list) PipeEntry list \<times> line list \<times> 'w) option" where
  "register_pipes rt [] pipes out w = Some (pipes, out, w)"
| "register_pipes rt (i # is) pipes out w = do {
     (r, w1) \<leftarrow> lib_dial rt demo_address DialOptions_default w;
     case r of
       ResErr st \<Rightarrow> register_pipes rt is pipes (out @ [Err (''connection '' @ to_string_nat i @ '' failed'')]) w1
     | ResVal p \<Rightarrow>
         register_pipes rt is
           (add_pipe p
             (Some (\<lambda>m h. h @ [Out (''pipe '' @ to_string_nat i @ '' received: '' @ string_of_bytes (view m))]))
             (Some (\<lambda>st h. h @ [Err (''pipe '' @ to_string_nat i @ '' error: '' @ Status_to_string st)])) pipes) out w1 }"

definition example_event_loop_setup ::
  "'w runtime \<Rightarrow> 'w \<Rightarrow> ((any_pipe, line list) PipeEntry list \<times> line list \<times> 'w) option" where
  "example_event_loop_setup rt w = do {
     (pipes, out, w1) \<leftarrow> register_pipes rt [0..<3] [] [Out ''=== example 3: event loop ===''] w;
     Some (pipes, out @ [Out ''the event loop runs''], w1) }"

text \<open>
  The thread of the example: it starts the loop in the background, sleeps, stops the loop and returns.
  The loop's thread takes the steps of its own: it locks, polls, waits, is woken, and leaves when it is
  told to stop.
\<close>

datatype ev_pc = EvStart | EvSleep | EvJoin | EvReturned

inductive loop_thread :: "el_sys \<Rightarrow> el_sys \<Rightarrow> bool" where
  lt_lock: "el_loop s = LStart \<or> el_loop s = LWoken \<Longrightarrow> el_mutex s = HFree \<Longrightarrow>
    loop_thread s (s\<lparr>el_mutex := HLoop, el_loop := LHead\<rparr>)"
| lt_leave: "el_loop s = LHead \<Longrightarrow> \<not> el_running s \<Longrightarrow> loop_thread s (s\<lparr>el_mutex := HFree, el_loop := LDone\<rparr>)"
| lt_active: "el_loop s = LHead \<Longrightarrow> el_running s \<Longrightarrow> loop_thread s s"
| lt_idle: "el_loop s = LHead \<Longrightarrow> el_running s \<Longrightarrow> loop_thread s (s\<lparr>el_mutex := HFree, el_loop := LAsleep\<rparr>)"
| lt_wake: "el_loop s = LAsleep \<Longrightarrow> loop_thread s (s\<lparr>el_loop := LWoken\<rparr>)"

inductive ev_step :: "ev_pc \<times> el_sys \<Rightarrow> ev_pc \<times> el_sys \<Rightarrow> bool" where
  ev_run: "el_mutex s = HFree \<Longrightarrow> el_loop s = LNone \<Longrightarrow>
    ev_step (EvStart, s) (EvSleep, s\<lparr>el_running := True, el_background := True, el_loop := LStart\<rparr>)"
| ev_loop: "loop_thread s s' \<Longrightarrow> ev_step (pc, s) (pc, s')"
| ev_stop_alone: "el_mutex s = HFree \<Longrightarrow> \<not> (el_background s \<and> el_loop s \<noteq> LNone) \<Longrightarrow>
    ev_step (EvSleep, s) (EvReturned, s\<lparr>el_running := False, el_loop := el_notify (el_loop s)\<rparr>)"
| ev_stop_join: "el_mutex s = HFree \<Longrightarrow> el_background s \<Longrightarrow> el_loop s \<noteq> LNone \<Longrightarrow>
    ev_step (EvSleep, s)
      (EvJoin, s\<lparr>el_mutex := HStop, el_running := False, el_loop := el_notify (el_loop s), el_stopper := StJoin\<rparr>)"
| ev_joined: "el_loop s = LDone \<Longrightarrow>
    ev_step (EvJoin, s) (EvReturned, s\<lparr>el_mutex := HFree, el_loop := LNone, el_stopper := StOut\<rparr>)"

definition ev_inv :: "ev_pc \<times> el_sys \<Rightarrow> bool" where
  "ev_inv c \<longleftrightarrow> (case c of (pc, s) \<Rightarrow>
     (case pc of
        EvStart \<Rightarrow> el_loop s = LNone
      | EvSleep \<Rightarrow> el_background s \<and> el_running s \<and> el_loop s \<notin> {LNone, LDone} \<and> (el_mutex s = HLoop \<longleftrightarrow> el_loop s = LHead)
      | EvJoin \<Rightarrow> el_mutex s = HStop \<and> (el_loop s = LStart \<or> el_loop s = LWoken)
      | EvReturned \<Rightarrow> False))"

lemma ev_inv_step: "ev_step c c' \<Longrightarrow> ev_inv c \<Longrightarrow> ev_inv c'"
proof (induction rule: ev_step.induct)
  case (ev_loop s s' pc)
  then show ?case
    by (cases rule: loop_thread.cases) (auto simp: ev_inv_def split: ev_pc.splits)
next
  case (ev_stop_join s)
  then show ?case by (cases "el_loop s") (auto simp: ev_inv_def el_notify_def)
qed (auto simp: ev_inv_def)

section \<open>The channel\<close>

text \<open>
  The producer has sent \<open>next\<close> messages and then closes the channel; the consumer runs, sleeps in
  \<open>recv\<close>, was woken, or has left its loop. \<open>seen\<close> are the messages it printed.
\<close>

datatype consumer_pc = CRun | CAsleep | CWoken | CLeft

record chan_demo =
  cd_chan :: "Message Channel"
  cd_next :: nat
  cd_closed :: bool
  cd_consumer :: consumer_pc
  cd_seen :: "Message list"

definition chan_message :: "nat \<Rightarrow> Message" where
  "chan_message i = from_string (''Message '' @ to_string_nat i)"

definition chan_demo_init :: chan_demo where
  "chan_demo_init = \<lparr>cd_chan = mk_Channel, cd_next = 0, cd_closed = False, cd_consumer = CRun, cd_seen = []\<rparr>"

definition wake_consumer :: "consumer_pc \<Rightarrow> consumer_pc" where
  "wake_consumer c = (if c = CAsleep then CWoken else c)"

text \<open>The steps of the two threads, without the spurious wake-ups.\<close>

inductive chan_work :: "chan_demo \<Rightarrow> chan_demo \<Rightarrow> bool" where
  produce: "cd_next s < 5 \<Longrightarrow> ch_send (chan_message (cd_next s)) (cd_chan s) = (ok, c) \<Longrightarrow>
    chan_work s (s\<lparr>cd_chan := c, cd_next := cd_next s + 1,
      cd_consumer := (if ok then wake_consumer (cd_consumer s) else cd_consumer s)\<rparr>)"
| finish: "cd_next s = 5 \<Longrightarrow> \<not> cd_closed s \<Longrightarrow>
    chan_work s (s\<lparr>cd_chan := ch_close (cd_chan s), cd_closed := True, cd_consumer := wake_consumer (cd_consumer s)\<rparr>)"
| consume: "cd_consumer s = CRun \<or> cd_consumer s = CWoken \<Longrightarrow> ch_recv (cd_chan s) = Some (Some m, c) \<Longrightarrow>
    chan_work s (s\<lparr>cd_chan := c, cd_consumer := CRun, cd_seen := cd_seen s @ [m]\<rparr>)"
| quit: "cd_consumer s = CRun \<or> cd_consumer s = CWoken \<Longrightarrow> ch_recv (cd_chan s) = Some (None, c) \<Longrightarrow>
    chan_work s (s\<lparr>cd_chan := c, cd_consumer := CLeft\<rparr>)"
| fall_asleep: "cd_consumer s = CRun \<or> cd_consumer s = CWoken \<Longrightarrow> ch_recv (cd_chan s) = None \<Longrightarrow>
    chan_work s (s\<lparr>cd_consumer := CAsleep\<rparr>)"

inductive chan_step :: "chan_demo \<Rightarrow> chan_demo \<Rightarrow> bool" where
  work: "chan_work s s' \<Longrightarrow> chan_step s s'"
| spurious_wake: "cd_consumer s = CAsleep \<Longrightarrow> chan_step s (s\<lparr>cd_consumer := CWoken\<rparr>)"

definition chan_demo_inv :: "chan_demo \<Rightarrow> bool" where
  "chan_demo_inv s \<longleftrightarrow>
     cd_next s \<le> 5 \<and> cd_seen s @ ch_queue (cd_chan s) = map chan_message [0..<cd_next s]
   \<and> ch_closed (cd_chan s) = cd_closed s \<and> (cd_closed s \<longrightarrow> cd_next s = 5)
   \<and> (cd_consumer s = CAsleep \<longrightarrow> ch_queue (cd_chan s) = [] \<and> \<not> cd_closed s)
   \<and> (cd_consumer s = CLeft \<longrightarrow> cd_closed s \<and> ch_queue (cd_chan s) = [])"

lemmas chan_ops = ch_send_def ch_recv_def recv_pred_def take_front_def ch_close_def wake_consumer_def

lemma chan_work_inv: "chan_work s s' \<Longrightarrow> chan_demo_inv s \<Longrightarrow> chan_demo_inv s'"
  by (induction rule: chan_work.induct)
    (auto simp: chan_demo_inv_def chan_ops split: if_splits list.splits)

lemma chan_step_inv: "chan_step s s' \<Longrightarrow> chan_demo_inv s \<Longrightarrow> chan_demo_inv s'"
  by (induction rule: chan_step.induct) (auto simp: chan_work_inv, auto simp: chan_demo_inv_def)

lemma chan_demo_inv_reach: "chan_step\<^sup>*\<^sup>* chan_demo_init s \<Longrightarrow> chan_demo_inv s"
  by (induction rule: rtranclp_induct)
    (simp add: chan_demo_inv_def chan_demo_init_def mk_Channel_def, rule chan_step_inv)

text \<open>Each step of work brings the end nearer: messages to send, the close, messages to receive.\<close>

definition chan_measure :: "chan_demo \<Rightarrow> nat" where
  "chan_measure s = 4 * (5 - cd_next s) + (if cd_closed s then 0 else 4) + 2 * length (ch_queue (cd_chan s))
     + (case cd_consumer s of CRun \<Rightarrow> 1 | CWoken \<Rightarrow> 1 | CAsleep \<Rightarrow> 0 | CLeft \<Rightarrow> 0)"

lemma chan_work_measure: "chan_work s s' \<Longrightarrow> chan_demo_inv s \<Longrightarrow> chan_measure s' < chan_measure s"
  by (induction rule: chan_work.induct)
    (auto simp: chan_demo_inv_def chan_measure_def chan_ops split: if_splits list.splits consumer_pc.splits)

lemma chan_progress:
  assumes "chan_demo_inv s" "cd_consumer s \<noteq> CLeft \<or> \<not> cd_closed s"
  shows "\<exists>s'. chan_work s s'"
proof -
  obtain ok c where snd: "ch_send (chan_message (cd_next s)) (cd_chan s) = (ok, c)" by force
  have pc: "cd_consumer s = CRun \<or> cd_consumer s = CWoken" if "cd_closed s" "cd_consumer s \<noteq> CLeft"
    using that assms(1) by (cases "cd_consumer s") (auto simp: chan_demo_inv_def)
  have "\<exists>r c. ch_recv (cd_chan s) = Some (r, c)" if "cd_closed s"
    using that assms(1) by (simp add: chan_demo_inv_def ch_recv_def recv_pred_def)
  then show ?thesis
    using produce [OF _ snd] finish [of s] consume [of s] quit [of s] pc assms
    by (metis chan_demo_inv_def le_neq_implies_less not_None_eq)
qed

section \<open>The background server\<close>

text \<open>
  The client's part of the example. \<open>stop\<close> is the function that stops the server (it closes the
  listener and joins the accepting thread); an exception of \<open>listen\<close> is not caught.
\<close>

definition server_address :: string where
  "server_address = ''tcp://127.0.0.1:9001''"

fun echo_rounds :: "'w runtime \<Rightarrow> nat list \<Rightarrow> any_pipe scoped \<times> 'w \<Rightarrow> line list \<Rightarrow> (line list \<times> any_pipe scoped \<times> 'w) option" where
  "echo_rounds rt [] sw out = Some (out, sw)"
| "echo_rounds rt (i # is) sw out = do {
     (_, sw1) \<leftarrow> owned_send rt (from_string (''Echo '' @ to_string_nat i)) SendOptions_default sw;
     (echo, sw2) \<leftarrow> owned_recv rt RecvOptions_default sw1;
     echo_rounds rt is sw2
       (case echo of ResVal m \<Rightarrow> out @ [Out (''received echo: '' @ string_of_bytes (view m))] | ResErr st \<Rightarrow> out) }"

definition example_background_server ::
  "'w runtime \<Rightarrow> any_listener \<Rightarrow> ('w \<Rightarrow> 'w option) \<Rightarrow> 'w \<Rightarrow> (line list \<times> exit \<times> 'w) option" where
  "example_background_server rt null stop w =
     (let title = Out ''=== example 5: background server ===''
      in case server_listen (rt_sock rt) null server_address w of
        (Inl e, w1) \<Rightarrow> Some ([title], Terminated, w1)
      | (Inr l, w1) \<Rightarrow> do {
          (r, w2) \<leftarrow> lib_dial rt server_address DialOptions_default w1;
          case r of
            ResErr st \<Rightarrow> do {
              w3 \<leftarrow> stop w2;
              Some ([title, Out ''server started'', Err (''connect failed: '' @ Status_to_string st)], Exit 0, w3) }
          | ResVal p \<Rightarrow> do {
              (out, sp, w3) \<leftarrow> echo_rounds rt [0..<3] (Some p, w2) [title, Out ''server started''];
              w4 \<leftarrow> stop w3;
              w5 \<leftarrow> owned_destroy rt (sp, w4);
              Some (out @ [Out ''server stopped''], Exit 0, w5) } })"

section \<open>A batch of asynchronous sends\<close>

text \<open>
  Ten calls run on threads of their own, in any order \<open>ord\<close>; then the results are read in the order of
  the calls, and the first exception, which nobody catches, terminates the program.
\<close>

definition async_message :: "nat \<Rightarrow> Message" where
  "async_message i = from_string (''Async message '' @ to_string_nat i)"

fun async_sends ::
  "'w runtime \<Rightarrow> nat list \<Rightarrow> any_pipe \<times> 'w \<Rightarrow> ((nat \<times> (Exception + unit)) list \<times> any_pipe \<times> 'w) option" where
  "async_sends rt [] pw = Some ([], pw)"
| "async_sends rt (i # is) pw = do {
     (y, pw1) \<leftarrow> async_send (pipe_send rt) (async_message i) pw;
     (ys, pw2) \<leftarrow> async_sends rt is pw1;
     Some ((i, y) # ys, pw2) }"

fun get_all :: "(nat \<Rightarrow> Exception + unit) \<Rightarrow> nat list \<Rightarrow> line list \<Rightarrow> line list \<times> bool" where
  "get_all result [] out = (out, True)"
| "get_all result (i # is) out =
     (case result i of
        Inl e \<Rightarrow> (out, False)
      | Inr _ \<Rightarrow> get_all result is (out @ [Out (''message '' @ to_string_nat i @ '' sent'')]))"

definition example_batch_async :: "'w runtime \<Rightarrow> nat list \<Rightarrow> 'w \<Rightarrow> (line list \<times> exit \<times> 'w) option" where
  "example_batch_async rt ord w =
     (let title = Out ''=== example 6: batch ===''
      in do {
        (r, w1) \<leftarrow> lib_dial rt demo_address DialOptions_default w;
        case r of
          ResErr st \<Rightarrow> Some ([title, Err (''connect failed: '' @ Status_to_string st)], Exit 0, w1)
        | ResVal p \<Rightarrow> do {
            (results, pw2) \<leftarrow> async_sends rt ord (p, w1);
            (case get_all (\<lambda>i. the (map_of results i)) [0..<10] [title] of
               (out, False) \<Rightarrow> Some (out, Terminated, snd pw2)
             | (out, True) \<Rightarrow> do {
                 (_, w3) \<leftarrow> pipe_close rt pw2;
                 Some (out @ [Out ''all messages sent''], Exit 0, w3) }) } })"

section \<open>Choosing the example\<close>

definition async_usage :: "string \<Rightarrow> line list" where
  "async_usage prog = map Err
     [''usage: '' @ prog @ '' <example_number>'', ''examples:'', ''  1 - futures'', ''  2 - callbacks'', ''  3 - event loop'',
      ''  4 - channel'', ''  5 - background server'', ''  6 - batch'']"

text \<open>What the program does before an example runs: it ends, or it runs the example of this number.\<close>

definition async_choose :: "string \<Rightarrow> string list \<Rightarrow> (line list \<times> exit) + nat" where
  "async_choose prog args =
     (case args of
        [] \<Rightarrow> Inl (async_usage prog, Exit 2)
      | a # _ \<Rightarrow>
          (case stoi a of
             None \<Rightarrow> Inl ([], Terminated)
           | Some n \<Rightarrow>
               if 1 \<le> n \<and> n \<le> 6 then Inr (nat n)
               else Inl ([Err (''invalid example number: '' @ to_string_int n)], Exit 1)))"

definition sent_lines :: "nat list \<Rightarrow> line list" where
  "sent_lines is = map (\<lambda>i. Out (''message '' @ to_string_nat i @ '' sent'')) is"

lemma get_all_ok:
  "\<forall>i\<in>set is. result i = Inr () \<Longrightarrow>
   get_all result is out = (out @ sent_lines is, True)"
  by (induction "is" arbitrary: out) (simp_all add: sent_lines_def)

lemma get_all_grows: "prefix out (fst (get_all result is out))"
  by (induction "is" arbitrary: out) (auto split: sum.splits dest: prefix_order.trans [rotated] append_prefixD)

lemma get_all_stops: "\<exists>i\<in>set is. \<exists>e. result i = Inl e \<Longrightarrow> \<not> snd (get_all result is out)"
  by (induction "is" arbitrary: out) (auto split: sum.splits)

context runtime_contract
begin

lemma async_sends_stopped:
  assumes "conn t opts s0 ms q w" "\<not> running q" "msg_bytes ms + msg_bytes (map async_message ord) < unat (snd_hwm_bytes opts)"
  shows "\<exists>ys q' w'. async_sends rt ord (WithQos q, w) = Some (ys, WithQos q', w') \<and> map fst ys = ord
     \<and> (\<forall>x\<in>set ys. \<exists>e. snd x = Inl e) \<and> conn t opts s0 ms q' w'"
  using assms
proof (induction ord arbitrary: q w)
  case (Cons i ord)
  then obtain st q1 w1 where s: "pipe_send rt (async_message i) SendOptions_default (WithQos q, w) = Some (st, WithQos q1, w1)"
    "\<not> status_ok st" "\<not> running q1" "conn t opts s0 ms q1 w1"
    using conn_send [OF Cons.prems(1), of "async_message i" SendOptions_default] by (auto simp: async_message_def split: if_splits)
  from Cons.IH [OF s(4,3)] Cons.prems(3) obtain ys q2 w2 where
    "async_sends rt ord (WithQos q1, w1) = Some (ys, WithQos q2, w2)" "map fst ys = ord"
    "\<forall>x\<in>set ys. \<exists>e. snd x = Inl e" "conn t opts s0 ms q2 w2" by auto
  with s(1,2) show ?case
    by (simp add: async_send_def throw_if_error_def)
qed simp

lemma async_sends_conn:
  assumes "conn t opts s0 ms q w" "msg_bytes ms + msg_bytes (map async_message ord) < unat (snd_hwm_bytes opts)"
  shows "\<exists>ys q' w' zs. async_sends rt ord (WithQos q, w) = Some (ys, WithQos q', w') \<and> map fst ys = ord
     \<and> prefix zs ord \<and> conn t opts s0 (ms @ map async_message zs) q' w' \<and> (zs = ord \<longleftrightarrow> (\<forall>x\<in>set ys. snd x = Inr ()))"
  using assms
proof (induction ord arbitrary: q w ms)
  case (Cons i ord)
  then obtain st q1 w1 where s: "pipe_send rt (async_message i) SendOptions_default (WithQos q, w) = Some (st, WithQos q1, w1)"
    "if status_ok st then conn t opts s0 (ms @ [async_message i]) q1 w1 else \<not> running q1 \<and> conn t opts s0 ms q1 w1"
    using conn_send [OF Cons.prems(1), of "async_message i" SendOptions_default] by (auto simp: async_message_def split: if_splits)
  show ?case
  proof (cases "status_ok st")
    case True
    then have "conn t opts s0 (ms @ [async_message i]) q1 w1" using s(2) by simp
    moreover have "msg_bytes (ms @ [async_message i]) + msg_bytes (map async_message ord) < unat (snd_hwm_bytes opts)"
      using Cons.prems(2) by simp
    ultimately obtain ys q2 w2 zs where
      "async_sends rt ord (WithQos q1, w1) = Some (ys, WithQos q2, w2)" "map fst ys = ord" "prefix zs ord"
      "conn t opts s0 ((ms @ [async_message i]) @ map async_message zs) q2 w2" "zs = ord \<longleftrightarrow> (\<forall>x\<in>set ys. snd x = Inr ())"
      using Cons.IH by blast
    with s(1) True show ?thesis
      by (intro exI [of _ "(i, Inr ()) # ys"] exI [of _ q2] exI [of _ w2] exI [of _ "i # zs"])
        (simp add: async_send_def throw_if_error_def)
  next
    case False
    with s(2) have "conn t opts s0 ms q1 w1" "\<not> running q1" by simp_all
    from async_sends_stopped [OF this, of ord] Cons.prems(2) obtain ys q2 w2 where
      "async_sends rt ord (WithQos q1, w1) = Some (ys, WithQos q2, w2)" "map fst ys = ord" "conn t opts s0 ms q2 w2" by auto
    with s(1) False show ?thesis
      by (intro exI [of _ "(i, Inl (Exception_of_Status st)) # ys"] exI [of _ q2] exI [of _ w2] exI [of _ "[]"])
        (simp add: async_send_def throw_if_error_def)
  qed
qed simp

lemma async_batch_size:
  assumes "distinct ord" "set ord = {0..<10}"
  shows "msg_bytes (map async_message ord) \<le> 150"
proof -
  have "length (to_string_nat i) \<le> 1" if "i < 10" for i using length_to_string_nat [of 1 i] that by simp
  then have "msg_bytes (map async_message ord) \<le> sum_list (map (\<lambda>i. 15) ord)"
    unfolding msg_bytes_def map_map using assms(2)
    by (intro sum_list_mono) (auto simp: async_message_def from_string_def)
  moreover have "length ord = 10" using distinct_card [OF assms(1)] assms(2) by simp
  ultimately show ?thesis by (simp add: sum_list_triv)
qed

lemma batch_async_run:
  assumes "connect_tcp (rt_sock rt) ''127.0.0.1'' 9000 w = (ResVal fd, w1)" "distinct ord" "set ord = {0..<10}"
  shows "\<exists>lines ex w' zs out. example_batch_async rt ord w = Some (Out ''=== example 6: batch ==='' # lines, ex, w')
     \<and> prefix zs ord \<and> sent fd w' = sent fd w1 @ out \<and> prefix out (records (map async_message zs))
     \<and> (if zs = ord then ex = Exit 0 \<and> lines = sent_lines [0..<10] @ [Out ''all messages sent''] else ex = Terminated)"
proof (cases rule: demo_dial [OF default_qos(1,2), of w, case_names failed connected])
  case (connected fd' w1' q)
  let ?c = "conn \<lparr>tcp_fd = fd\<rparr> (dial_qos DialOptions_default) (sent fd w1)"
  have e: "fd' = fd" "w1' = w1" using connected(1) assms(1) by simp_all
  have sz: "msg_bytes [] + msg_bytes (map async_message ord) < unat (snd_hwm_bytes (dial_qos DialOptions_default))"
    using async_batch_size [OF assms(2,3)] by (simp add: default_qos)
  obtain ys q2 w2 zs where s: "async_sends rt ord (WithQos q, w1) = Some (ys, WithQos q2, w2)" "map fst ys = ord" "prefix zs ord"
    "?c (map async_message zs) q2 w2" "zs = ord \<longleftrightarrow> (\<forall>x\<in>set ys. snd x = Inr ())"
    using async_sends_conn [OF _ sz] connected(3) e by fastforce
  let ?get = "get_all (\<lambda>i. the (map_of ys i)) [0..<10] [Out ''=== example 6: batch ==='']"
  have d: "distinct (map fst ys)" "set (map fst ys) = {0..<10}"
    using assms(2,3) s(2) by simp_all
  show ?thesis
  proof (cases "zs = ord")
    case True
    have "\<forall>i\<in>set [0..<10]. the (map_of ys i) = Inr ()"
      using True s(5) d by (force dest!: map_of_is_SomeI simp: set_map)
    note g = get_all_ok [OF this, of "[Out ''=== example 6: batch ==='']"]
    obtain pp w3 out where "pipe_close rt (WithQos q2, w2) = Some (pp, w3)" "sent fd w3 = sent fd w1 @ out"
      "prefix out (records (map async_message zs))"
      using conn_close [OF s(4)] by auto
    with True s(1) connected(2) e g show ?thesis
      by (auto simp: example_batch_async_def Let_def simp del: upt_Suc)
  next
    case False
    then have "\<exists>x\<in>set ys. snd x \<noteq> Inr ()" using s(5) by blast
    then obtain i v where v: "(i, v) \<in> set ys" "v \<noteq> Inr ()" by force
    then obtain err where "(i, Inl err) \<in> set ys" by (cases v) auto
    with d have "\<exists>i\<in>set [0..<10]. \<exists>e. the (map_of ys i) = Inl e"
      by (intro bexI [of _ i]) (auto simp: map_of_is_SomeI intro!: rev_image_eqI)
    note g = get_all_stops [OF this, of "[Out ''=== example 6: batch ==='']"]
    obtain pre where "fst ?get = Out ''=== example 6: batch ==='' # pre"
      using get_all_grows [of "[Out ''=== example 6: batch ==='']" "\<lambda>i. the (map_of ys i)" "[0..<10]"]
      by (auto simp: prefix_def simp del: upt_Suc)
    with g have g: "?get = (Out ''=== example 6: batch ==='' # pre, False)" by (simp add: prod_eq_iff)
    obtain out where "sent fd w2 = sent fd w1 @ out" "prefix out (records (map async_message zs))"
      using s(4) by (auto simp: conn_def)
    with False s(1,3) connected(2) e g show ?thesis
      by (auto simp: example_batch_async_def Let_def simp del: upt_Suc)
  qed
qed (use assms in auto)

end

section \<open>Properties of the examples\<close>

text \<open>
  The event-loop example never returns: \<open>stop\<close> holds the loop's mutex while it joins the loop's
  thread, and that thread needs the mutex to leave its wait. In every interleaving of the example with
  the loop's thread, spurious wake-ups included, the example is still inside \<open>stop\<close> or before it.
\<close>

theorem event_loop_example_hangs:
  assumes "ev_step\<^sup>*\<^sup>* (EvStart, el_init) c"
  shows "fst c \<noteq> EvReturned"
proof -
  have "ev_inv c"
    using assms by (induction rule: rtranclp_induct) (simp add: ev_inv_def el_init_def, rule ev_inv_step)
  then show ?thesis by (cases c) (auto simp: ev_inv_def)
qed

text \<open>
  C34: The channel example delivers: in every interleaving of producer and consumer, what the consumer
  has printed followed by what is queued is exactly what was sent, in order; when the consumer leaves
  it has printed all five messages; until both are done some thread can do work, and work always
  brings the end nearer, so neither thread is left waiting.
\<close>

theorem channel_example:
  assumes "chan_step\<^sup>*\<^sup>* chan_demo_init s"
  shows "cd_seen s @ ch_queue (cd_chan s) = map chan_message [0..<cd_next s]
     \<and> (if cd_consumer s = CLeft then cd_closed s \<and> cd_seen s = map chan_message [0..<5]
        else (\<exists>s'. chan_work s s'))
     \<and> (\<forall>s'. chan_work s s' \<longrightarrow> chan_measure s' < chan_measure s)"
proof -
  have i: "chan_demo_inv s" by (rule chan_demo_inv_reach [OF assms])
  then show ?thesis
    using chan_progress [OF i] chan_work_measure [OF _ i] by (auto simp: chan_demo_inv_def simp del: upt_Suc)
qed


lemma event_loop_example_hangs_witness: "\<exists>s. ev_step\<^sup>*\<^sup>* (EvStart, el_init) (EvJoin, s) \<and> fst (EvJoin, s) \<noteq> EvReturned"
proof -
  let ?s1 = "el_init\<lparr>el_running := True, el_background := True, el_loop := LStart\<rparr>"
  have "ev_step (EvStart, el_init) (EvSleep, ?s1)" by (rule ev_run) (simp_all add: el_init_def)
  moreover have "ev_step (EvSleep, ?s1)
      (EvJoin, ?s1\<lparr>el_mutex := HStop, el_running := False, el_loop := el_notify (el_loop ?s1), el_stopper := StJoin\<rparr>)"
    by (rule ev_stop_join) (simp_all add: el_init_def)
  ultimately have "\<exists>s. ev_step\<^sup>*\<^sup>* (EvStart, el_init) (EvJoin, s)"
    by (blast intro: rtranclp.rtrancl_into_rtrancl)
  then show ?thesis using event_loop_example_hangs by blast
qed

lemma channel_example_witness:
  "chan_step\<^sup>*\<^sup>* chan_demo_init chan_demo_init
     \<and> (\<exists>s'. chan_work chan_demo_init s')"
  using channel_example [OF rtranclp.rtrancl_refl] by (simp add: chan_demo_init_def)


end
