(* ===== verification/Duct_Logging.thy ===== *)
theory Duct_Logging
  imports Complex_Main Duct_Prelude
begin

text \<open>
  \<^verbatim>\<open>include/duct/logging.h\<close> and \<^verbatim>\<open>src/logging.cc\<close>: log levels, the loggers, the default logger, log
  streams and metrics. Loggers and counters are shared objects: they live in a store, and a
  shared pointer is an index into it. Doubles are rational numbers; rounding is not modelled.
\<close>

section \<open>Levels\<close>

datatype LogLevel = kTrace | kDebug | kInfo | kWarning | kError | kFatal

fun level_rank :: "LogLevel \<Rightarrow> nat" where
  "level_rank kTrace = 0"
| "level_rank kDebug = 1"
| "level_rank kInfo = 2"
| "level_rank kWarning = 3"
| "level_rank kError = 4"
| "level_rank kFatal = 5"

lemma level_rank_inj: "level_rank a = level_rank b \<Longrightarrow> a = b"
  by (cases a; cases b) auto

instantiation LogLevel :: linorder
begin

definition less_eq_LogLevel :: "LogLevel \<Rightarrow> LogLevel \<Rightarrow> bool" where
  "less_eq_LogLevel a b \<longleftrightarrow> level_rank a \<le> level_rank b"

definition less_LogLevel :: "LogLevel \<Rightarrow> LogLevel \<Rightarrow> bool" where
  "less_LogLevel a b \<longleftrightarrow> level_rank a < level_rank b"

instance
  by standard (auto simp: less_eq_LogLevel_def less_LogLevel_def dest: level_rank_inj)

end

fun LogLevel_to_string :: "LogLevel \<Rightarrow> string" where
  "LogLevel_to_string kTrace = ''TRACE''"
| "LogLevel_to_string kDebug = ''DEBUG''"
| "LogLevel_to_string kInfo = ''INFO''"
| "LogLevel_to_string kWarning = ''WARNING''"
| "LogLevel_to_string kError = ''ERROR''"
| "LogLevel_to_string kFatal = ''FATAL''"

section \<open>Loggers\<close>

text \<open>
  Every logger has a level. A callback logger has a callback or not; a prefix logger has a base,
  which existed before it, so that its index is smaller.
\<close>

datatype Logger =
    ConsoleLogger (level: LogLevel)
  | NullLogger (level: LogLevel)
  | CallbackLogger (level: LogLevel) bool
  | PrefixLogger (level: LogLevel) nat string

type_synonym log_store = "Logger list"

definition Logger_default_level :: LogLevel where
  "Logger_default_level = kInfo"

text \<open>What a call of \<open>log\<close> does: a line on one of the two streams, or a call of the callback of a logger.\<close>

datatype log_output = Cout string | Cerr string | Called nat LogLevel string

definition console_log :: "LogLevel \<Rightarrow> LogLevel \<Rightarrow> string \<Rightarrow> log_output list" where
  "console_log own l msg =
     (if l < own then []
      else
        let line = ''['' @ LogLevel_to_string l @ ''] '' @ msg
        in [if l \<ge> kWarning then Cerr line else Cout line])"

function log_to :: "log_store \<Rightarrow> nat \<Rightarrow> LogLevel \<Rightarrow> string \<Rightarrow> log_output list option" where
  "log_to st a l msg =
     (if a < length st then
        (case st ! a of
           ConsoleLogger own \<Rightarrow> Some (console_log own l msg)
         | NullLogger own \<Rightarrow> Some []
         | CallbackLogger own cb \<Rightarrow> Some (if cb \<and> l \<ge> own then [Called a l msg] else [])
         | PrefixLogger own base pre \<Rightarrow>
             if l \<ge> own then (if base < a then log_to st base l (pre @ msg) else None) else Some [])
      else None)"
  by pat_completeness auto
termination by (relation "measure (\<lambda>(st, a, l, msg). a)") auto

declare log_to.simps [simp del]

fun with_level :: "LogLevel \<Rightarrow> Logger \<Rightarrow> Logger" where
  "with_level l (ConsoleLogger own) = ConsoleLogger l"
| "with_level l (NullLogger own) = NullLogger l"
| "with_level l (CallbackLogger own cb) = CallbackLogger l cb"
| "with_level l (PrefixLogger own base pre) = PrefixLogger l base pre"

text \<open>\<open>PrefixLogger::set_level\<close> passes the level on to its base.\<close>

function set_level :: "nat \<Rightarrow> LogLevel \<Rightarrow> log_store \<Rightarrow> log_store" where
  "set_level a l st =
     (if a < length st then
        (case st ! a of
           PrefixLogger own base pre \<Rightarrow>
             if base < a then set_level base l (st[a := with_level l (st ! a)]) else st[a := with_level l (st ! a)]
         | _ \<Rightarrow> st[a := with_level l (st ! a)])
      else st)"
  by pat_completeness auto
termination by (relation "measure (\<lambda>(a, l, st). a)") auto

declare set_level.simps [simp del]

text \<open>The default logger: an index, or null after \<open>set_logger(nullptr)\<close>; using null is an error.\<close>

record log_state =
  log_objects :: log_store
  log_default :: "nat option"

definition log_initial :: log_state where
  "log_initial = \<lparr>log_objects = [ConsoleLogger Logger_default_level], log_default = Some 0\<rparr>"

definition set_logger :: "nat option \<Rightarrow> log_state \<Rightarrow> log_state" where
  "set_logger a s = s\<lparr>log_default := a\<rparr>"

definition log_global :: "LogLevel \<Rightarrow> string \<Rightarrow> log_state \<Rightarrow> log_output list option" where
  "log_global l msg s = (case log_default s of None \<Rightarrow> None | Some a \<Rightarrow> log_to (log_objects s) a l msg)"

definition set_log_level :: "LogLevel \<Rightarrow> log_state \<Rightarrow> log_state option" where
  "set_log_level l s =
     (case log_default s of None \<Rightarrow> None | Some a \<Rightarrow> Some (s\<lparr>log_objects := set_level a l (log_objects s)\<rparr>))"

text \<open>The methods and the global functions named after the levels.\<close>

definition logger_trace :: "log_store \<Rightarrow> nat \<Rightarrow> string \<Rightarrow> log_output list option" where
  "logger_trace st a msg = log_to st a kTrace msg"

definition logger_debug :: "log_store \<Rightarrow> nat \<Rightarrow> string \<Rightarrow> log_output list option" where
  "logger_debug st a msg = log_to st a kDebug msg"

definition logger_info :: "log_store \<Rightarrow> nat \<Rightarrow> string \<Rightarrow> log_output list option" where
  "logger_info st a msg = log_to st a kInfo msg"

definition logger_warning :: "log_store \<Rightarrow> nat \<Rightarrow> string \<Rightarrow> log_output list option" where
  "logger_warning st a msg = log_to st a kWarning msg"

definition logger_error :: "log_store \<Rightarrow> nat \<Rightarrow> string \<Rightarrow> log_output list option" where
  "logger_error st a msg = log_to st a kError msg"

definition logger_fatal :: "log_store \<Rightarrow> nat \<Rightarrow> string \<Rightarrow> log_output list option" where
  "logger_fatal st a msg = log_to st a kFatal msg"

definition get_logger :: "log_state \<Rightarrow> nat option" where
  "get_logger s = log_default s"

definition log_trace :: "string \<Rightarrow> log_state \<Rightarrow> log_output list option" where
  "log_trace msg s = Option.bind (get_logger s) (\<lambda>a. logger_trace (log_objects s) a msg)"

definition log_debug :: "string \<Rightarrow> log_state \<Rightarrow> log_output list option" where
  "log_debug msg s = Option.bind (get_logger s) (\<lambda>a. logger_debug (log_objects s) a msg)"

definition log_info :: "string \<Rightarrow> log_state \<Rightarrow> log_output list option" where
  "log_info msg s = Option.bind (get_logger s) (\<lambda>a. logger_info (log_objects s) a msg)"

definition log_warning :: "string \<Rightarrow> log_state \<Rightarrow> log_output list option" where
  "log_warning msg s = Option.bind (get_logger s) (\<lambda>a. logger_warning (log_objects s) a msg)"

definition log_error :: "string \<Rightarrow> log_state \<Rightarrow> log_output list option" where
  "log_error msg s = Option.bind (get_logger s) (\<lambda>a. logger_error (log_objects s) a msg)"

definition log_fatal :: "string \<Rightarrow> log_state \<Rightarrow> log_output list option" where
  "log_fatal msg s = Option.bind (get_logger s) (\<lambda>a. logger_fatal (log_objects s) a msg)"

text \<open>The macros of the same names.\<close>

definition DUCT_LOG :: "LogLevel \<Rightarrow> string \<Rightarrow> log_state \<Rightarrow> log_output list option" where
  "DUCT_LOG l msg = log_global l msg"

definition DUCT_TRACE :: "string \<Rightarrow> log_state \<Rightarrow> log_output list option" where
  "DUCT_TRACE msg = DUCT_LOG kTrace msg"

definition DUCT_DEBUG :: "string \<Rightarrow> log_state \<Rightarrow> log_output list option" where
  "DUCT_DEBUG msg = DUCT_LOG kDebug msg"

definition DUCT_INFO :: "string \<Rightarrow> log_state \<Rightarrow> log_output list option" where
  "DUCT_INFO msg = DUCT_LOG kInfo msg"

definition DUCT_WARNING :: "string \<Rightarrow> log_state \<Rightarrow> log_output list option" where
  "DUCT_WARNING msg = DUCT_LOG kWarning msg"

definition DUCT_ERROR :: "string \<Rightarrow> log_state \<Rightarrow> log_output list option" where
  "DUCT_ERROR msg = DUCT_LOG kError msg"

definition DUCT_FATAL :: "string \<Rightarrow> log_state \<Rightarrow> log_output list option" where
  "DUCT_FATAL msg = DUCT_LOG kFatal msg"

text \<open>Flushing: which of the standard streams are flushed; a prefix logger passes the call on.\<close>

datatype std_stream = StdCout | StdCerr

function flush :: "log_store \<Rightarrow> nat \<Rightarrow> std_stream list option" where
  "flush st a =
     (if a < length st then
        (case st ! a of
           ConsoleLogger own \<Rightarrow> Some [StdCout, StdCerr]
         | NullLogger own \<Rightarrow> Some []
         | CallbackLogger own cb \<Rightarrow> Some []
         | PrefixLogger own base pre \<Rightarrow> if base < a then flush st base else None)
      else None)"
  by pat_completeness auto
termination by (relation "measure snd") auto

declare flush.simps [simp del]

section \<open>Log streams\<close>

record LogStream =
  ls_level :: LogLevel
  ls_logger :: nat
  ls_buffer :: string
  ls_handled :: bool

definition mk_LogStream :: "LogLevel \<Rightarrow> nat \<Rightarrow> LogStream" where
  "mk_LogStream l a = \<lparr>ls_level = l, ls_logger = a, ls_buffer = [], ls_handled = False\<rparr>"

text \<open>\<open>operator<<\<close> with the text the value is formatted to.\<close>

definition ls_append :: "string \<Rightarrow> LogStream \<Rightarrow> LogStream" where
  "ls_append t s = s\<lparr>ls_buffer := ls_buffer s @ t\<rparr>"

text \<open>The new stream and what is left of the old one, whose buffer has been moved from.\<close>

definition ls_move :: "LogStream \<Rightarrow> LogStream \<times> LogStream" where
  "ls_move s = (s, s\<lparr>ls_buffer := [], ls_handled := True\<rparr>)"

definition ls_destroy :: "log_store \<Rightarrow> LogStream \<Rightarrow> log_output list option" where
  "ls_destroy st s = (if \<not> ls_handled s then log_to st (ls_logger s) (ls_level s) (ls_buffer s) else Some [])"

section \<open>Metrics\<close>

datatype MetricType = kCounter | kGauge | kHistogram

record Counter =
  counter_name :: string
  counter_value :: rat

definition mk_Counter :: "string \<Rightarrow> Counter" where
  "mk_Counter n = \<lparr>counter_name = n, counter_value = 0\<rparr>"

definition counter_increment :: "rat \<Rightarrow> Counter \<Rightarrow> Counter" where
  "counter_increment d c = c\<lparr>counter_value := counter_value c + d\<rparr>"

definition counter_reset :: "Counter \<Rightarrow> Counter" where
  "counter_reset c = c\<lparr>counter_value := 0\<rparr>"

record Gauge =
  gauge_name :: string
  gauge_value :: rat

definition mk_Gauge :: "string \<Rightarrow> Gauge" where
  "mk_Gauge n = \<lparr>gauge_name = n, gauge_value = 0\<rparr>"

definition gauge_set :: "rat \<Rightarrow> Gauge \<Rightarrow> Gauge" where
  "gauge_set v g = g\<lparr>gauge_value := v\<rparr>"

definition gauge_increment :: "rat \<Rightarrow> Gauge \<Rightarrow> Gauge" where
  "gauge_increment d g = g\<lparr>gauge_value := gauge_value g + d\<rparr>"

definition gauge_decrement :: "rat \<Rightarrow> Gauge \<Rightarrow> Gauge" where
  "gauge_decrement d g = g\<lparr>gauge_value := gauge_value g - d\<rparr>"

record Histogram =
  histo_name :: string
  histo_values :: "rat list"
  histo_count :: nat
  histo_sum :: rat

definition mk_Histogram :: "string \<Rightarrow> Histogram" where
  "mk_Histogram n = \<lparr>histo_name = n, histo_values = [], histo_count = 0, histo_sum = 0\<rparr>"

definition observe :: "rat \<Rightarrow> Histogram \<Rightarrow> Histogram" where
  "observe v h =
     h\<lparr>histo_values := histo_values h @ [v], histo_count := histo_count h + 1, histo_sum := histo_sum h + v\<rparr>"

definition histo_mean :: "Histogram \<Rightarrow> rat" where
  "histo_mean h = (if histo_count h > 0 then histo_sum h / of_nat (histo_count h) else 0)"

text \<open>The interface the three kinds of metrics share; the value of a histogram is its count.\<close>

datatype Metric = MCounter Counter | MGauge Gauge | MHistogram Histogram

fun metric_name :: "Metric \<Rightarrow> string" where
  "metric_name (MCounter c) = counter_name c"
| "metric_name (MGauge g) = gauge_name g"
| "metric_name (MHistogram h) = histo_name h"

fun metric_type :: "Metric \<Rightarrow> MetricType" where
  "metric_type (MCounter c) = kCounter"
| "metric_type (MGauge g) = kGauge"
| "metric_type (MHistogram h) = kHistogram"

fun metric_value :: "Metric \<Rightarrow> rat" where
  "metric_value (MCounter c) = counter_value c"
| "metric_value (MGauge g) = gauge_value g"
| "metric_value (MHistogram h) = of_nat (histo_count h)"

text \<open>
  The registry: for each kind a map from names to shared objects; the three look-ups differ only
  in the object they make when the name is new.
\<close>

record 'm metric_table =
  table_map :: "string \<rightharpoonup> nat"
  table_objects :: "'m list"

definition get_metric :: "(string \<Rightarrow> 'm) \<Rightarrow> string \<Rightarrow> 'm metric_table \<Rightarrow> nat \<times> 'm metric_table" where
  "get_metric mk n r =
     (case table_map r n of
        Some a \<Rightarrow> (a, r)
      | None \<Rightarrow>
          (length (table_objects r),
           r\<lparr>table_map := (table_map r)(n \<mapsto> length (table_objects r)),
             table_objects := table_objects r @ [mk n]\<rparr>))"

record MetricRegistry =
  reg_counters :: "Counter metric_table"
  reg_gauges :: "Gauge metric_table"
  reg_histograms :: "Histogram metric_table"

definition table_empty :: "'m metric_table" where
  "table_empty = \<lparr>table_map = Map.empty, table_objects = []\<rparr>"

definition mk_MetricRegistry :: MetricRegistry where
  "mk_MetricRegistry = \<lparr>reg_counters = table_empty, reg_gauges = table_empty, reg_histograms = table_empty\<rparr>"

definition get_counter :: "string \<Rightarrow> MetricRegistry \<Rightarrow> nat \<times> MetricRegistry" where
  "get_counter n r = (case get_metric mk_Counter n (reg_counters r) of (a, t) \<Rightarrow> (a, r\<lparr>reg_counters := t\<rparr>))"

definition get_gauge :: "string \<Rightarrow> MetricRegistry \<Rightarrow> nat \<times> MetricRegistry" where
  "get_gauge n r = (case get_metric mk_Gauge n (reg_gauges r) of (a, t) \<Rightarrow> (a, r\<lparr>reg_gauges := t\<rparr>))"

definition get_histogram :: "string \<Rightarrow> MetricRegistry \<Rightarrow> nat \<times> MetricRegistry" where
  "get_histogram n r = (case get_metric mk_Histogram n (reg_histograms r) of (a, t) \<Rightarrow> (a, r\<lparr>reg_histograms := t\<rparr>))"

text \<open>Looking a counter up and incrementing it through the shared pointer.\<close>

definition count_up :: "string \<Rightarrow> rat \<Rightarrow> MetricRegistry \<Rightarrow> MetricRegistry" where
  "count_up n d r =
     (case get_counter n r of (a, r') \<Rightarrow>
        r'\<lparr>reg_counters := (reg_counters r')\<lparr>table_objects :=
          (table_objects (reg_counters r'))[a := counter_increment d (table_objects (reg_counters r') ! a)]\<rparr>\<rparr>)"

section \<open>What a message passes through\<close>

fun base_of :: "Logger \<Rightarrow> nat option" where
  "base_of (PrefixLogger own base pre) = Some base"
| "base_of _ = None"

fun prefix_of :: "Logger \<Rightarrow> string" where
  "prefix_of (PrefixLogger own base pre) = pre"
| "prefix_of _ = []"

definition store_ok :: "log_store \<Rightarrow> bool" where
  "store_ok st \<longleftrightarrow> (\<forall>a<length st. \<forall>b. base_of (st ! a) = Some b \<longrightarrow> b < a)"

text \<open>The loggers from the given one down to the one that writes.\<close>

function chain :: "log_store \<Rightarrow> nat \<Rightarrow> nat list" where
  "chain st a = a # (case base_of (st ! a) of Some b \<Rightarrow> if b < a then chain st b else [] | None \<Rightarrow> [])"
  by pat_completeness auto
termination by (relation "measure snd") auto

declare chain.simps [simp del]

text \<open>What the last of them writes when it does not filter.\<close>

definition log_deliver :: "log_store \<Rightarrow> nat \<Rightarrow> LogLevel \<Rightarrow> string \<Rightarrow> log_output list" where
  "log_deliver st a l msg =
     (case st ! a of
        ConsoleLogger own \<Rightarrow> console_log kTrace l msg
      | CallbackLogger own cb \<Rightarrow> if cb then [Called a l msg] else []
      | _ \<Rightarrow> [])"

lemma chain_neq_Nil [simp]: "chain st a \<noteq> []"
  by (simp add: chain.simps)

lemma chain_bound: "b \<in> set (chain st a) \<Longrightarrow> b \<le> a"
proof (induction a rule: less_induct)
  case (less a)
  from less.prems show ?case
    using less.IH by (subst (asm) chain.simps) (force split: option.splits if_splits)
qed

lemma chain_base: "store_ok st \<Longrightarrow> a < length st \<Longrightarrow> base_of (st ! a) = Some b \<Longrightarrow> chain st a = a # chain st b"
  by (subst chain.simps) (simp add: store_ok_def)

lemma chain_sink: "base_of (st ! a) = None \<Longrightarrow> chain st a = [a]"
  by (subst chain.simps) simp

lemma chain_cong: "\<forall>b\<le>a. base_of (st ! b) = base_of (st' ! b) \<Longrightarrow> chain st a = chain st' a"
proof (induction a rule: less_induct)
  case (less a)
  then show ?case
    by (subst (1 2) chain.simps) (auto split: option.splits)
qed

lemma base_with_level [simp]: "base_of (with_level l x) = base_of x" "prefix_of (with_level l x) = prefix_of x"
  "level (with_level l x) = l"
  by (cases x; simp)+

lemma kTrace_least [simp]: "\<not> l < kTrace" "kTrace \<le> l"
  by (simp_all add: less_LogLevel_def less_eq_LogLevel_def)

lemma console_log_pass: "own \<le> l \<Longrightarrow> console_log own l msg = console_log kTrace l msg"
  by (simp add: console_log_def not_less less_LogLevel_def less_eq_LogLevel_def)

lemma log_chain:
  assumes "store_ok st" "a < length st"
  shows "log_to st a l msg = Some (if \<forall>b\<in>set (chain st a). level (st ! b) \<le> l
     then log_deliver st (last (chain st a)) l (concat (rev (map (prefix_of \<circ> (!) st) (chain st a))) @ msg)
     else [])"
  using assms(2)
proof (induction a arbitrary: msg rule: less_induct)
  case (less a)
  show ?case
  proof (cases "base_of (st ! a)")
    case None
    then show ?thesis
      using less.prems chain_sink [OF None]
      by (cases "st ! a") (auto simp: log_to.simps [of st a] log_deliver_def console_log_pass console_log_def not_le)
  next
    case (Some b)
    then have b: "b < a" "b < length st" using assms(1) less.prems by (auto simp: store_ok_def)
    obtain own pre where n: "st ! a = PrefixLogger own b pre" using Some by (cases "st ! a") auto
    with b less.prems less.IH [OF b, of "pre @ msg"] chain_base [OF assms(1) less.prems Some] show ?thesis
      by (simp add: log_to.simps [of st a])
  qed
qed

lemma length_set_level [simp]: "length (set_level a l st) = length st"
proof (induction a arbitrary: st rule: less_induct)
  case (less a)
  then show ?case by (subst set_level.simps) (simp split: Logger.splits)
qed

lemma set_level_nth:
  assumes "store_ok st" "a < length st" "b < length st"
  shows "set_level a l st ! b = (if b \<in> set (chain st a) then with_level l (st ! b) else st ! b)"
  using assms
proof (induction a arbitrary: st rule: less_induct)
  case (less a)
  show ?case
  proof (cases "base_of (st ! a)")
    case None
    then show ?thesis using less.prems chain_sink [OF None]
      by (cases "st ! a") (auto simp: set_level.simps [of a])
  next
    case (Some c)
    then have c: "c < a" using less.prems by (auto simp: store_ok_def)
    obtain own pre where n: "st ! a = PrefixLogger own c pre" using Some by (cases "st ! a") auto
    let ?st = "st[a := with_level l (st ! a)]"
    have shape: "\<forall>b. base_of (?st ! b) = base_of (st ! b)"
      by (metis less.prems(2) base_with_level(1) nth_list_update)
    have "store_ok ?st" using less.prems(1) shape by (simp add: store_ok_def)
    moreover have "chain ?st c = chain st c" using shape by (intro chain_cong) simp
    moreover have "a \<notin> set (chain st c)" using chain_bound [of a st c] c by auto
    ultimately show ?thesis
      using less.IH [OF c, of ?st] less.prems c n chain_base [OF less.prems(1,2) Some]
      by (auto simp: set_level.simps [of a] nth_list_update)
  qed
qed

lemma base_set_level:
  "store_ok st \<Longrightarrow> a < length st \<Longrightarrow> b < length st \<Longrightarrow> base_of (set_level a l st ! b) = base_of (st ! b)"
  by (simp add: set_level_nth)

text \<open>A flush reaches the standard streams exactly when the chain ends in a console logger.\<close>

lemma flush_chain:
  assumes "store_ok st" "a < length st"
  shows "flush st a = Some (case st ! last (chain st a) of ConsoleLogger own \<Rightarrow> [StdCout, StdCerr] | _ \<Rightarrow> [])"
  using assms(2)
proof (induction a rule: less_induct)
  case (less a)
  show ?case
  proof (cases "base_of (st ! a)")
    case None
    then show ?thesis using less.prems chain_sink [OF None]
      by (cases "st ! a") (auto simp: flush.simps [of st a])
  next
    case (Some b)
    then have b: "b < a" "b < length st" using assms(1) less.prems by (auto simp: store_ok_def)
    obtain own pre where "st ! a = PrefixLogger own b pre" using Some by (cases "st ! a") auto
    with b less.prems less.IH [OF b] chain_base [OF assms(1) less.prems Some] show ?thesis
      by (simp add: flush.simps [of st a])
  qed
qed

lemma log_named:
  "log_trace msg s = log_global kTrace msg s" "log_debug msg s = log_global kDebug msg s"
  "log_info msg s = log_global kInfo msg s" "log_warning msg s = log_global kWarning msg s"
  "log_error msg s = log_global kError msg s" "log_fatal msg s = log_global kFatal msg s"
  by (simp_all add: log_trace_def log_debug_def log_info_def log_warning_def log_error_def log_fatal_def
      logger_trace_def logger_debug_def logger_info_def logger_warning_def logger_error_def
      logger_fatal_def log_global_def get_logger_def split: option.splits)

lemmas log_macro_defs = DUCT_LOG_def DUCT_TRACE_def DUCT_DEBUG_def DUCT_INFO_def DUCT_WARNING_def DUCT_ERROR_def DUCT_FATAL_def

lemma log_macros:
  "DUCT_TRACE = log_trace" "DUCT_DEBUG = log_debug" "DUCT_INFO = log_info" "DUCT_WARNING = log_warning"
  "DUCT_ERROR = log_error" "DUCT_FATAL = log_fatal"
  by (simp_all add: fun_eq_iff log_macro_defs log_named)

section \<open>Counters\<close>

definition table_ok :: "(string \<Rightarrow> 'm \<Rightarrow> bool) \<Rightarrow> 'm metric_table \<Rightarrow> bool" where
  "table_ok named t \<longleftrightarrow>
     (\<forall>n a. table_map t n = Some a \<longrightarrow> a < length (table_objects t) \<and> named n (table_objects t ! a))"

text \<open>The value of the counter of a name; a name never asked for counts as zero.\<close>

definition counter_of :: "string \<Rightarrow> MetricRegistry \<Rightarrow> rat" where
  "counter_of n r =
     (case table_map (reg_counters r) n of
        None \<Rightarrow> 0 | Some a \<Rightarrow> counter_value (table_objects (reg_counters r) ! a))"

definition counters_ok :: "MetricRegistry \<Rightarrow> bool" where
  "counters_ok r \<longleftrightarrow> table_ok (\<lambda>n c. counter_name c = n) (reg_counters r)"

lemma get_metric_ok:
  assumes "table_ok named t" "get_metric mk n t = (a, t')" "named n (mk n)"
  shows "table_ok named t'" "a < length (table_objects t')" "table_map t' = (table_map t)(n \<mapsto> a)"
    "table_map t n = None \<Longrightarrow> table_objects t' ! a = mk n"
    "b < length (table_objects t) \<Longrightarrow> table_objects t' ! b = table_objects t ! b"
    "table_map t n = Some c \<Longrightarrow> a = c"
  using assms
  by (cases "table_map t n"; force simp: table_ok_def get_metric_def nth_append fun_upd_idem split: if_splits)+

lemma counters_update:
  "table_ok (\<lambda>n c. counter_name c = n) t \<Longrightarrow> a < length (table_objects t) \<Longrightarrow>
   table_ok (\<lambda>n c. counter_name c = n)
     (t\<lparr>table_objects := (table_objects t)[a := counter_increment d (table_objects t ! a)]\<rparr>)"
  by (auto simp: table_ok_def nth_list_update counter_increment_def)

lemma count_up_ok: "counters_ok r \<Longrightarrow> counters_ok (count_up n d r)"
  using get_metric_ok(1,2) [of "\<lambda>n c. counter_name c = n" "reg_counters r" mk_Counter n]
  by (auto simp: counters_ok_def count_up_def get_counter_def mk_Counter_def split: prod.splits
      intro!: counters_update)

lemma counter_of_count_up:
  assumes "counters_ok r"
  shows "counter_of m (count_up n d r) = counter_of m r + (if m = n then d else 0)"
proof -
  obtain a t where g: "get_metric mk_Counter n (reg_counters r) = (a, t)" by force
  note tab = assms [unfolded counters_ok_def]
  note facts = get_metric_ok [OF tab g, unfolded mk_Counter_def, simplified]
  have distinct: "b \<noteq> a" if "table_map t m = Some b" "m \<noteq> n" for b
    using that facts(1-3) unfolding table_ok_def by (metis fun_upd_apply option.inject)
  show ?thesis
  proof (cases "m = n")
    case True
    then show ?thesis using facts tab
      by (cases "table_map (reg_counters r) n")
        (auto simp: counter_of_def count_up_def get_counter_def g counter_increment_def table_ok_def)
  next
    case False
    then show ?thesis using facts tab distinct
      by (cases "table_map (reg_counters r) m")
        (auto simp: counter_of_def count_up_def get_counter_def g table_ok_def)
  qed
qed

section \<open>Properties of logging and metrics\<close>

text \<open>
  C38: What a message logged through any chain of prefix loggers becomes: it is written if and only if
  its level is at least the level of every logger of the chain, with the prefixes of the chain,
  the innermost first, in front of it; and after \<open>set_level\<close> on the outermost logger this is the
  case exactly for the messages of at least that level.
\<close>

theorem logger_chain:
  assumes "store_ok st" "a < length st"
  shows "log_to st a l msg = Some (if \<forall>b\<in>set (chain st a). level (st ! b) \<le> l
        then log_deliver st (last (chain st a)) l (concat (rev (map (prefix_of \<circ> (!) st) (chain st a))) @ msg)
        else [])
     \<and> log_to (set_level a own st) a l msg = Some (if own \<le> l
        then log_deliver st (last (chain st a)) l (concat (rev (map (prefix_of \<circ> (!) st) (chain st a))) @ msg)
        else [])"
proof -
  let ?st = "set_level a own st"
  have in_store: "b < length st" if "b \<in> set (chain st a)" for b
    using chain_bound [OF that] assms(2) by simp
  have ok: "store_ok ?st" using assms by (simp add: store_ok_def base_set_level)
  have ch: "chain ?st a = chain st a" using assms by (intro chain_cong) (simp add: base_set_level)
  have nth: "?st ! b = with_level own (st ! b)" if "b \<in> set (chain st a)" for b
    using set_level_nth [OF assms in_store [OF that]] that by simp
  have "map (prefix_of \<circ> (!) ?st) (chain st a) = map (prefix_of \<circ> (!) st) (chain st a)"
    by (simp add: nth)
  moreover have "log_deliver ?st (last (chain st a)) = log_deliver st (last (chain st a))"
    using nth [OF last_in_set [OF chain_neq_Nil]]
    by (cases "st ! last (chain st a)") (auto simp: log_deliver_def fun_eq_iff)
  moreover have "(\<forall>b\<in>set (chain st a). level (?st ! b) \<le> l) \<longleftrightarrow> own \<le> l"
    using nth by (auto simp: chain.simps [of st a])
  ultimately show ?thesis
    using log_chain [OF assms] log_chain [OF ok, of a l msg] assms(2) ch by (simp cong: map_cong)
qed

text \<open>
  Counters with the same name are the same object: however increments of several names are
  interleaved, starting from the empty registry, the counter of a name holds the sum of the
  increments made under that name.
\<close>

theorem counters_add_up:
  "counter_of m (fold (\<lambda>(n, d). count_up n d) incs mk_MetricRegistry)
     = sum_list (map snd (filter (\<lambda>p. fst p = m) incs))"
proof -
  have "counter_of m (fold (\<lambda>(n, d). count_up n d) incs r)
      = counter_of m r + sum_list (map snd (filter (\<lambda>p. fst p = m) incs))" if "counters_ok r" for r
    using that by (induction incs arbitrary: r) (auto simp: counter_of_count_up count_up_ok)
  moreover have "counters_ok mk_MetricRegistry"
    by (simp add: counters_ok_def table_ok_def mk_MetricRegistry_def table_empty_def)
  ultimately show ?thesis by (simp add: counter_of_def mk_MetricRegistry_def table_empty_def)
qed

lemma histogram_consistent:
  "fold observe vs (mk_Histogram n) = \<lparr>histo_name = n, histo_values = vs, histo_count = length vs, histo_sum = sum_list vs\<rparr>"
proof -
  have "fold observe vs h = h\<lparr>histo_values := histo_values h @ vs, histo_count := histo_count h + length vs,
      histo_sum := histo_sum h + sum_list vs\<rparr>" for h
    by (induction vs arbitrary: h) (simp_all add: observe_def)
  then show ?thesis by (simp add: mk_Histogram_def)
qed

lemma logger_chain_witness:
  "log_to [ConsoleLogger kInfo, PrefixLogger kDebug 0 ''a: ''] 1 kError ''x'' = Some [Cerr ''[ERROR] a: x'']
   \<and> log_to (set_level 1 kFatal [ConsoleLogger kInfo, PrefixLogger kDebug 0 ''a: '']) 1 kError ''x'' = Some []"
proof -
  let ?st = "[ConsoleLogger kInfo, PrefixLogger kDebug 0 ''a: '']"
  have "store_ok ?st" by (auto simp: store_ok_def less_Suc_eq)
  moreover have "chain ?st 1 = [1, 0]" by (simp add: chain.simps)
  ultimately show ?thesis
    using logger_chain [of ?st 1 kError "''x''" kFatal]
    by (simp add: log_deliver_def console_log_def less_eq_LogLevel_def)
qed

end
