(* ===== verification/Duct_Utils_Example.thy ===== *)
theory Duct_Utils_Example
  imports Duct_Convenience_Example Duct_Logging
begin

text \<open>
  The program \<^verbatim>\<open>examples/utils_example.cc\<close>: address builders, timers, guards, the string builder, the
  wrapper type, logging, metrics and the periodic executor. The readings of the steady clock are an
  argument, one for each time the example looks at it. Lines are given in English.
\<close>

section \<open>Numbers on an output stream\<close>

text \<open>
  A stream prints a floating-point number with six significant digits and without trailing zeros, in
  scientific notation if the exponent is below -4 or above 5. The exponent of a double is between
  -324 and 308, so 400 steps of scaling are enough to find it. Numbers are rationals, as for the metrics.
\<close>

fun ilog10 :: "nat \<Rightarrow> rat \<Rightarrow> int" where
  "ilog10 0 x = 0"
| "ilog10 (Suc n) x = (if x \<ge> 10 then ilog10 n (x / 10) + 1 else if x < 1 then ilog10 n (x * 10) - 1 else 0)"

definition scale10 :: "int \<Rightarrow> rat" where
  "scale10 k = (if k \<ge> 0 then 10 ^ nat k else 1 / 10 ^ nat (- k))"

definition with_fraction :: "string \<Rightarrow> string \<Rightarrow> string" where
  "with_fraction whole ds =
     (case rev (dropWhile ((=) CHR ''0'') (rev ds)) of [] \<Rightarrow> whole | f \<Rightarrow> whole @ ''.'' @ f)"

definition stream_rat :: "rat \<Rightarrow> string" where
  "stream_rat x =
     (if x = 0 then ''0''
      else
        let e0 = ilog10 400 \<bar>x\<bar>;
            n0 = nat (round_even (\<bar>x\<bar> * scale10 (5 - e0)));
            e = (if n0 = 1000000 then e0 + 1 else e0);
            ds = to_string_nat (if n0 = 1000000 then 100000 else n0);
            expo = to_string_nat (nat \<bar>e\<bar>)
        in (if x < 0 then ''-'' else []) @
           (if e < -4 \<or> e > 5 then
              with_fraction (take 1 ds) (drop 1 ds) @ (if e < 0 then ''e-'' else ''e+'') @ replicate (2 - length expo) CHR ''0'' @ expo
            else if e \<ge> 0 then with_fraction (take (nat e + 1) ds) (drop (nat e + 1) ds)
            else with_fraction ''0'' (replicate (nat (- e) - 1) CHR ''0'' @ ds)))"

lemma ilog10_numeral:
  "ilog10 (numeral k) x =
     (if x \<ge> 10 then ilog10 (pred_numeral k) (x / 10) + 1 else if x < 1 then ilog10 (pred_numeral k) (x * 10) - 1 else 0)"
  by (simp add: numeral_eq_Suc)

section \<open>The examples\<close>

definition example_type_safe_address :: "line list" where
  "example_type_safe_address =
     [Out ''=== example 1: addresses ==='',
      Out (''TCP address: '' @ TcpAddr_build \<lparr>ta_host = ''127.0.0.1'', ta_port = port_literal 9000\<rparr>),
      Out (''TCP address: '' @ TcpAddr_build \<lparr>ta_host = ''localhost'', ta_port = port_literal 8080\<rparr>),
      Out (''SHM address: '' @ ShmAddr_build ''gamebus''),
      Out (''UDS address: '' @ UdsAddr_build ''/tmp/mysocket'')]"

definition example_timer :: "(nat \<Rightarrow> time_point) \<Rightarrow> line list" where
  "example_timer clock =
     (let timer = timer_reset (clock 0)
      in [Out ''=== example 2: timer ==='',
          Out (''elapsed: '' @ to_string_int (timer_elapsed_ms (clock 1) timer) @ '' ms'')]
         @ (if timer_has_elapsed (clock 2) (duration_literal 150) timer then [Out ''more than 150ms''] else []))"

text \<open>The lines of the guarded function appear as often as the guard has run it.\<close>

definition example_scope_guard :: "line list" where
  "example_scope_guard =
     [Out ''=== example 3: scope guard ==='', Out ''inside the scope'']
     @ replicate (g_calls (guard_destroy make_scope_guard)) (Out ''cleaning up'')
     @ [Out ''left the scope'']"

definition example_defer :: "line list" where
  "example_defer =
     [Out ''=== example 4: defer ==='', Out ''working'']
     @ replicate (d_calls (defer_destroy defer_call)) (Out ''releasing resources'')"

definition example_string_builder :: "line list" where
  "example_string_builder =
     (let b = sb_append_int 0 (sb_append ''.'' (sb_append_int 1 (sb_append ''.'' (sb_append_int 0
                (sb_append ''! Version: '' (sb_append ''duct'' (sb_append ''Hello, '' [])))))))
      in [Out ''=== example 5: string builder ==='', Out (sb_build b)])"

definition example_strong_type :: "line list" where
  "example_strong_type =
     (let user1 = StrongType (123 :: int); user2 = StrongType 456
      in Out ''=== example 6: strong type ===''
         # (if strong_lt user1 user2 then [Out ''user1 < user2''] else []))"

definition lines_of :: "log_output list \<Rightarrow> line list" where
  "lines_of os = concat (map (\<lambda>x. case x of Cout t \<Rightarrow> [Out t] | Cerr t \<Rightarrow> [Err t] | Called _ _ _ \<Rightarrow> []) os)"

definition new_logger :: "Logger \<Rightarrow> log_state \<Rightarrow> nat \<times> log_state" where
  "new_logger l s = (length (log_objects s), s\<lparr>log_objects := log_objects s @ [l]\<rparr>)"

definition example_logging :: "log_state \<Rightarrow> (line list \<times> log_state) option" where
  "example_logging s = do {
     s1 \<leftarrow> set_log_level kDebug s;
     o1 \<leftarrow> log_trace ''a trace message'' s1;
     o2 \<leftarrow> log_debug ''a debug message'' s1;
     o3 \<leftarrow> log_info ''an info message'' s1;
     o4 \<leftarrow> log_warning ''a warning message'' s1;
     o5 \<leftarrow> log_error ''an error message'' s1;
     o6 \<leftarrow> DUCT_INFO ''logging by macro'' s1;
     a \<leftarrow> get_logger s1;
     o7 \<leftarrow> ls_destroy (log_objects s1)
       (ls_append (stream_rat (314 / 100)) (ls_append '', '' (ls_append (to_string_int 42)
         (ls_append ''stream: '' (mk_LogStream kInfo a)))));
     let (base, s2) = new_logger (ConsoleLogger Logger_default_level) s1;
         (prefixed, s3) = new_logger (PrefixLogger Logger_default_level base ''[MyApp] '') s2;
         s4 = set_logger (Some prefixed) s3
     in do {
       o8 \<leftarrow> DUCT_INFO ''with a prefix'' s4;
       let (console, s5) = new_logger (ConsoleLogger Logger_default_level) s4
       in Some (Out ''=== example 7: logging ==='' # lines_of (o1 @ o2 @ o3 @ o4 @ o5 @ o6 @ o7 @ o8),
                set_logger (Some console) s5) } }"

text \<open>Calling a method of a metric through the shared pointer.\<close>

definition metric_call :: "nat \<Rightarrow> ('m \<Rightarrow> 'm) \<Rightarrow> 'm metric_table \<Rightarrow> 'm metric_table" where
  "metric_call a f t = t\<lparr>table_objects := (table_objects t)[a := f (table_objects t ! a)]\<rparr>"

definition example_metrics :: "MetricRegistry \<Rightarrow> line list \<times> MetricRegistry" where
  "example_metrics r0 =
     (let (c, r1) = get_counter ''requests_total'' r0;
          r2 = r1\<lparr>reg_counters := metric_call c (counter_increment 1) (metric_call c (counter_increment 1) (reg_counters r1))\<rparr>;
          l1 = Out (''requests: '' @ stream_rat (counter_value (table_objects (reg_counters r2) ! c)));
          (g, r3) = get_gauge ''active_connections'' r2;
          r4 = r3\<lparr>reg_gauges := metric_call g (gauge_decrement 1) (metric_call g (gauge_increment 1)
                    (metric_call g (gauge_set 10) (reg_gauges r3)))\<rparr>;
          l2 = Out (''connections: '' @ stream_rat (gauge_value (table_objects (reg_gauges r4) ! g)));
          (h, r5) = get_histogram ''request_duration_ms'' r4;
          r6 = r5\<lparr>reg_histograms := metric_call h (observe (157 / 10)) (metric_call h (observe (203 / 10))
                    (metric_call h (observe (105 / 10)) (reg_histograms r5)))\<rparr>;
          hist = table_objects (reg_histograms r6) ! h
      in ([Out ''=== example 8: metrics ==='', l1, l2, Out (''observations: '' @ to_string_nat (histo_count hist)),
           Out (''mean: '' @ stream_rat (histo_mean hist) @ '' ms'')], r6))"

text \<open>The callback counts its calls and prints the count.\<close>

definition executor_callback :: "nat \<times> line list \<Rightarrow> nat \<times> line list" where
  "executor_callback h = (fst h + 1, snd h @ [Out (''execution '' @ to_string_nat (fst h + 1))])"

fun tick_loop :: "time_point list \<Rightarrow> 'h PeriodicExecutor \<Rightarrow> 'h \<Rightarrow> 'h" where
  "tick_loop [] e h = h"
| "tick_loop (t # ts) e h = (case tick t e h of (_, e', h') \<Rightarrow> tick_loop ts e' h')"

definition example_periodic_executor :: "(nat \<Rightarrow> time_point) \<Rightarrow> line list" where
  "example_periodic_executor clock =
     snd (tick_loop (map clock [1..<4]) (mk_PeriodicExecutor (clock 0) (duration_literal 100) (Some executor_callback))
       (0, [Out ''=== example 9: periodic executor ==='']))"

definition utils_usage :: "string \<Rightarrow> line list" where
  "utils_usage prog = map Err
     [''usage: '' @ prog @ '' <example_number>'', ''examples:'', ''  1 - addresses'', ''  2 - timer'', ''  3 - scope guard'',
      ''  4 - defer'', ''  5 - string builder'', ''  6 - strong type'', ''  7 - logging'', ''  8 - metrics'',
      ''  9 - periodic executor'']"

text \<open>The whole program; \<open>None\<close> would be the use of a null logger.\<close>

definition utils_main :: "(nat \<Rightarrow> time_point) \<Rightarrow> string \<Rightarrow> string list \<Rightarrow> (line list \<times> exit) option" where
  "utils_main clock prog args =
     (case args of
        [] \<Rightarrow> Some (utils_usage prog, Exit 2)
      | a # _ \<Rightarrow>
          (case stoi a of
             None \<Rightarrow> Some ([], Terminated)
           | Some n \<Rightarrow>
               if n = 1 then Some (example_type_safe_address, Exit 0)
               else if n = 2 then Some (example_timer clock, Exit 0)
               else if n = 3 then Some (example_scope_guard, Exit 0)
               else if n = 4 then Some (example_defer, Exit 0)
               else if n = 5 then Some (example_string_builder, Exit 0)
               else if n = 6 then Some (example_strong_type, Exit 0)
               else if n = 7 then map_option (\<lambda>r. (fst r, Exit 0)) (example_logging log_initial)
               else if n = 8 then Some (fst (example_metrics mk_MetricRegistry), Exit 0)
               else if n = 9 then Some (example_periodic_executor clock, Exit 0)
               else Some ([Err (''invalid example number: '' @ to_string_int n)], Exit 1)))"

section \<open>What the examples print\<close>

lemma round_even_ints [simp]: "round_even (of_int k) = k" "round_even (numeral n) = numeral n"
  using floor_numeral [of n, where 'a = rat] by (simp_all add: round_even_def)

lemma floor_quotient [simp]: "\<lfloor>numeral a / numeral b :: rat\<rfloor> = numeral a div numeral b"
  using floor_divide_of_int_eq [of "numeral a" "numeral b", where 'a = rat] by simp

lemmas number_texts = stream_rat_def ilog10_numeral scale10_def with_fraction_def to_string_nat.simps char_of_def bit_0

lemma stream_samples:
  "stream_rat (157 / 50) = ''3.14''" "stream_rat 2 = ''2''" "stream_rat 10 = ''10''" "stream_rat (31 / 2) = ''15.5''"
  "stream_rat (1 / 3) = ''0.333333''" "stream_rat (-1234567) = ''-1.23457e+06''" "stream_rat (9999999 / 10) = ''1e+06''"
  by (simp_all add: number_texts round_even_def Let_def)

lemma number_literals:
  "to_string_nat 0 = ''0''" "to_string_nat 1 = ''1''" "to_string_nat 2 = ''2''" "to_string_nat 3 = ''3''" "to_string_nat 42 = ''42''"
  "to_string_nat 8080 = ''8080''" "to_string_nat 9000 = ''9000''"
  "to_string_nat (Suc 0) = ''1''" "to_string_nat (Suc (Suc 0)) = ''2''" "to_string_nat (Suc (Suc (Suc 0))) = ''3''"
  by (simp_all add: to_string_nat.simps char_of_def bit_0)

lemmas text_evaluation = stream_samples number_literals to_string_int_def

lemma logging_example:
  "\<exists>s. example_logging log_initial = Some (map Out [''=== example 7: logging ==='', ''[DEBUG] a debug message'', ''[INFO] an info message'']
       @ map Err [''[WARNING] a warning message'', ''[ERROR] an error message'']
       @ map Out [''[INFO] logging by macro'', ''[INFO] stream: 42, 3.14'', ''[INFO] [MyApp] with a prefix''], s)
     \<and> log_global kDebug msg s = Some []"
  by (simp add: example_logging_def log_initial_def set_log_level_def set_level.simps log_trace_def log_debug_def log_info_def
      log_warning_def log_error_def logger_trace_def logger_debug_def logger_info_def logger_warning_def logger_error_def
      log_macro_defs log_global_def get_logger_def log_to.simps console_log_def less_LogLevel_def less_eq_LogLevel_def Logger_default_level_def
      ls_destroy_def ls_append_def mk_LogStream_def new_logger_def set_logger_def lines_of_def nth_append text_evaluation)

lemma metrics_example:
  "fst (example_metrics mk_MetricRegistry) =
     map Out [''=== example 8: metrics ==='', ''requests: 2'', ''connections: 10'', ''observations: 3'', ''mean: 15.5 ms'']"
  by (simp add: example_metrics_def mk_MetricRegistry_def table_empty_def get_counter_def get_gauge_def get_histogram_def
      get_metric_def metric_call_def mk_Counter_def counter_increment_def mk_Gauge_def gauge_set_def gauge_increment_def
      gauge_decrement_def mk_Histogram_def observe_def histo_mean_def text_evaluation)

section \<open>Properties of the program\<close>

text \<open>
  What the examples that do not depend on the clock print: the addresses; the guarded and the
  deferred function run exactly once and at the end of their scope; the built string; the log lines
  from the level set on, warnings and errors on the error stream, the prefix inside the line; the
  metrics after the updates.
\<close>

theorem utils_example_prints:
  "example_type_safe_address = map Out [''=== example 1: addresses ==='', ''TCP address: tcp://127.0.0.1:9000'',
     ''TCP address: tcp://localhost:8080'', ''SHM address: shm://gamebus'', ''UDS address: uds:///tmp/mysocket'']
   \<and> example_scope_guard = map Out [''=== example 3: scope guard ==='', ''inside the scope'', ''cleaning up'', ''left the scope'']
   \<and> example_defer = map Out [''=== example 4: defer ==='', ''working'', ''releasing resources'']
   \<and> example_string_builder = map Out [''=== example 5: string builder ==='', ''Hello, duct! Version: 0.1.0'']
   \<and> example_strong_type = map Out [''=== example 6: strong type ==='', ''user1 < user2'']
   \<and> map_option fst (example_logging log_initial) = Some (
       map Out [''=== example 7: logging ==='', ''[DEBUG] a debug message'', ''[INFO] an info message'']
       @ map Err [''[WARNING] a warning message'', ''[ERROR] an error message'']
       @ map Out [''[INFO] logging by macro'', ''[INFO] stream: 42, 3.14'', ''[INFO] [MyApp] with a prefix''])
   \<and> fst (example_metrics mk_MetricRegistry) =
       map Out [''=== example 8: metrics ==='', ''requests: 2'', ''connections: 10'', ''observations: 3'', ''mean: 15.5 ms'']"
proof (intro conjI)
  show "map_option fst (example_logging log_initial) = Some (
       map Out [''=== example 7: logging ==='', ''[DEBUG] a debug message'', ''[INFO] an info message'']
       @ map Err [''[WARNING] a warning message'', ''[ERROR] an error message'']
       @ map Out [''[INFO] logging by macro'', ''[INFO] stream: 42, 3.14'', ''[INFO] [MyApp] with a prefix''])"
    using logging_example by force
qed (simp_all add: metrics_example example_type_safe_address_def TcpAddr_build_def ShmAddr_build_def UdsAddr_build_def port_literal_def
    example_scope_guard_def guard_destroy_def make_scope_guard_def mk_ScopeGuard_def example_defer_def defer_destroy_def
    defer_call_def example_string_builder_def sb_append_def sb_append_int_def sb_build_def example_strong_type_def strong_lt_def
    text_evaluation)

text \<open>
  The examples that wait: if every sleep lasts at least as long as asked, the timer reports at
  least 100 ms and notices that 150 ms have passed, and the executor runs its callback at each of the
  three ticks.
\<close>

theorem utils_example_timed:
  assumes "clock 1 - clock 0 \<ge> ms_to_ns 100" "clock 2 - clock 1 \<ge> ms_to_ns 50"
    and "\<forall>k<3. tick_clock (Suc k) - tick_clock k \<ge> ms_to_ns 150"
  shows "(\<exists>ms\<ge>100. example_timer clock =
        map Out [''=== example 2: timer ==='', ''elapsed: '' @ to_string_int ms @ '' ms'', ''more than 150ms''])
     \<and> example_periodic_executor tick_clock =
        map Out [''=== example 9: periodic executor ==='', ''execution 1'', ''execution 2'', ''execution 3'']"
proof
  have "timer_elapsed_ms (clock 1) (clock 0) \<ge> 100" "timer_has_elapsed (clock 2) 150 (clock 0)"
    using assms(1,2) by (auto simp: timer_elapsed_ms_def timer_has_elapsed_def ms_to_ns_def)
  then show "\<exists>ms\<ge>100. example_timer clock =
        map Out [''=== example 2: timer ==='', ''elapsed: '' @ to_string_int ms @ '' ms'', ''more than 150ms'']"
    by (auto simp: example_timer_def timer_reset_def duration_literal_def)
  have "tick_clock 1 - tick_clock 0 \<ge> ms_to_ns 100" "tick_clock 2 - tick_clock 1 \<ge> ms_to_ns 100" "tick_clock 3 - tick_clock 2 \<ge> ms_to_ns 100"
    using assms(3) [rule_format, of 0] assms(3) [rule_format, of 1] assms(3) [rule_format, of 2]
    by (auto simp: ms_to_ns_def eval_nat_numeral)
  then show "example_periodic_executor tick_clock =
        map Out [''=== example 9: periodic executor ==='', ''execution 1'', ''execution 2'', ''execution 3'']"
    by (simp add: example_periodic_executor_def upt_conv_Cons mk_PeriodicExecutor_def duration_literal_def tick_def execute_now_def
        executor_callback_def number_literals eval_nat_numeral)
qed

text \<open>
  The program ends for every command line with the documented exit code, and never uses a null logger.
\<close>

theorem utils_example_exits:
  "\<exists>out. utils_main clock prog args = Some (out,
     case args of [] \<Rightarrow> Exit 2 | a # _ \<Rightarrow>
       (case stoi a of None \<Rightarrow> Terminated | Some n \<Rightarrow> if 1 \<le> n \<and> n \<le> 9 then Exit 0 else Exit 1))"
proof (cases args)
  case (Cons a rest)
  show ?thesis
  proof (cases "stoi a")
    case (Some n)
    have "n \<in> {1, 2, 3, 4, 5, 6, 7, 8, 9}" if "1 \<le> n" "n \<le> 9" using that by auto
    with Cons Some logging_example show ?thesis by (fastforce simp: utils_main_def)
  qed (use Cons in \<open>simp add: utils_main_def\<close>)
qed (simp add: utils_main_def)

lemma utils_example_timed_witness:
  "(\<exists>ms\<ge>100. example_timer (\<lambda>k. int k * 100000000) =
        map Out [''=== example 2: timer ==='', ''elapsed: '' @ to_string_int ms @ '' ms'', ''more than 150ms''])
     \<and> example_periodic_executor (\<lambda>k. int k * 150000000) =
        map Out [''=== example 9: periodic executor ==='', ''execution 1'', ''execution 2'', ''execution 3'']"
  using utils_example_timed [of "\<lambda>k. int k * 100000000" "\<lambda>k. int k * 150000000"] by (simp add: ms_to_ns_def)

end
