(* ===== verification/Duct_Test_Programs.thy ===== *)
theory Duct_Test_Programs
  imports Duct_Programs
begin

text \<open>
  The manual test programs \<^verbatim>\<open>examples/qos_test.cc\<close>, \<^verbatim>\<open>examples/shm_test.cc\<close> and \<^verbatim>\<open>examples/pipe_test.cc\<close>: a
  server that echoes a fixed number of messages and a client that sends numbered messages and reads
  the echoes. A program is a function of the library's interface, which is a record of its calls, since
  the programs address different transports; \<open>posix_api\<close> is the interface of the POSIX build. Sleeping and
  printing do not touch the world.
\<close>

section \<open>The library's interface\<close>

record ('l, 'p, 'w) duct_api =
  api_listen :: "string \<Rightarrow> 'w \<Rightarrow> 'l Result \<times> 'w"
  api_dial :: "string \<Rightarrow> DialOptions \<Rightarrow> 'w \<Rightarrow> ('p Result \<times> 'w) option"
  api_accept :: "'l \<Rightarrow> 'w \<Rightarrow> ('p Result \<times> 'w) option"
  api_send :: "('p \<times> 'w) psend"
  api_recv :: "('p \<times> 'w) precv"
  api_close :: "'p \<times> 'w \<Rightarrow> ('p \<times> 'w) option"
  api_unlisten :: "'l \<Rightarrow> 'w \<Rightarrow> 'w"

definition posix_api :: "'w runtime \<Rightarrow> (any_listener, any_pipe, 'w) duct_api" where
  "posix_api rt =
     \<lparr>api_listen = (\<lambda>address. lib_listen rt address ListenOptions_default), api_dial = lib_dial rt,
      api_accept = listener_accept rt, api_send = pipe_send rt, api_recv = pipe_recv rt, api_close = pipe_close rt,
      api_unlisten = (\<lambda>l w. snd (listener_close rt (l, w)))\<rparr>"

section \<open>Loops and turns\<close>

text \<open>
  A counted loop whose body says what it prints and whether to go on or to break off: \<open>n\<close> more rounds
  from round \<open>i\<close>.
\<close>

type_synonym 's turn = "nat \<Rightarrow> 's \<Rightarrow> (line list \<times> bool \<times> 's) option"

fun for_break :: "'s turn \<Rightarrow> nat \<Rightarrow> nat \<Rightarrow> 's \<Rightarrow> (line list \<times> 's) option" where
  "for_break body i 0 s = Some ([], s)"
| "for_break body i (Suc n) s =
     (case body i s of
        None \<Rightarrow> None
      | Some (ls, go, s1) \<Rightarrow>
          if go then map_option (\<lambda>(ls', s'). (ls @ ls', s')) (for_break body (Suc i) n s1) else Some (ls, s1))"

text \<open>
  A round of a server: receive, print \<open>heard\<close>, answer, print \<open>said\<close>; a failing call ends the loop.
\<close>

definition serve_turn ::
  "('l, 'p, 'w) duct_api \<Rightarrow> (nat \<Rightarrow> Message \<Rightarrow> line list) \<Rightarrow> (Message \<Rightarrow> Message) \<Rightarrow> (Message \<Rightarrow> line list) \<Rightarrow> ('p \<times> 'w) turn"
where
  "serve_turn api heard answer said i pw =
     (case api_recv api RecvOptions_default pw of
        None \<Rightarrow> None
      | Some (ResErr st, pw1) \<Rightarrow> Some ([Err (''recv failed: '' @ message st)], False, pw1)
      | Some (ResVal m, pw1) \<Rightarrow>
          (case api_send api (answer m) SendOptions_default pw1 of
             None \<Rightarrow> None
           | Some (st, pw2) \<Rightarrow>
               if status_ok st then Some (heard i m @ said m, True, pw2)
               else Some (heard i m @ [Err (''send failed: '' @ message st)], False, pw2)))"

text \<open>The two halves of a round of a client.\<close>

definition send_turn ::
  "('l, 'p, 'w) duct_api \<Rightarrow> (nat \<Rightarrow> string) \<Rightarrow> (nat \<Rightarrow> string) \<Rightarrow> (nat \<Rightarrow> string) \<Rightarrow> ('p \<times> 'w) turn" where
  "send_turn api wording failed said i pw =
     (case api_send api (from_string (wording i)) SendOptions_default pw of
        None \<Rightarrow> None
      | Some (st, pw1) \<Rightarrow>
          if status_ok st then Some ([Out (said i)], True, pw1) else Some ([Err (failed i @ message st)], False, pw1))"

definition recv_turn ::
  "('l, 'p, 'w) duct_api \<Rightarrow> (nat \<Rightarrow> string) \<Rightarrow> (string \<Rightarrow> string) \<Rightarrow> ('p \<times> 'w) turn" where
  "recv_turn api failed got i pw =
     (case api_recv api RecvOptions_default pw of
        None \<Rightarrow> None
      | Some (ResErr st, pw1) \<Rightarrow> Some ([Err (failed i @ message st)], False, pw1)
      | Some (ResVal m, pw1) \<Rightarrow> Some ([Out (got (string_of_bytes (view m)))], True, pw1))"

definition then_turn :: "'s turn \<Rightarrow> 's turn \<Rightarrow> 's turn" where
  "then_turn a b i s =
     (case a i s of
        None \<Rightarrow> None
      | Some (ls, go, s1) \<Rightarrow>
          if go then map_option (\<lambda>(ls', go', s'). (ls @ ls', go', s')) (b i s1) else Some (ls, False, s1))"

text \<open>
  The frame all servers share: listen, accept one connection, run the loop; the pipe and the listener
  are destroyed at the end, in this order.
\<close>

definition server_program ::
  "('l, 'p, 'w) duct_api \<Rightarrow> string \<Rightarrow> string list \<Rightarrow> string list \<Rightarrow> string list \<Rightarrow> string list
     \<Rightarrow> ('p \<times> 'w \<Rightarrow> (line list \<times> 'p \<times> 'w) option) \<Rightarrow> 'w \<Rightarrow> (line list \<times> nat \<times> 'w) option" where
  "server_program api address intro waiting joined finished run w =
     (case api_listen api address w of
        (ResErr st, w1) \<Rightarrow> Some (map Out intro @ [Err (''listen failed: '' @ message st)], 1, w1)
      | (ResVal l, w1) \<Rightarrow>
          (case api_accept api l w1 of
             None \<Rightarrow> None
           | Some (ResErr st, w2) \<Rightarrow>
               Some (map Out (intro @ waiting) @ [Err (''accept failed: '' @ message st)], 1, api_unlisten api l w2)
           | Some (ResVal p, w2) \<Rightarrow>
               (case run (p, w2) of
                  None \<Rightarrow> None
                | Some (ls, pw3) \<Rightarrow>
                    map_option (\<lambda>(_, w4). (map Out (intro @ waiting @ joined) @ ls @ map Out finished, 0, api_unlisten api l w4))
                      (api_close api pw3))))"

definition client_program ::
  "('l, 'p, 'w) duct_api \<Rightarrow> string \<Rightarrow> DialOptions \<Rightarrow> string list \<Rightarrow> string list \<Rightarrow> string list
     \<Rightarrow> ('p \<times> 'w \<Rightarrow> (line list \<times> 'p \<times> 'w) option) \<Rightarrow> 'w \<Rightarrow> (line list \<times> nat \<times> 'w) option" where
  "client_program api address opt intro joined finished run w =
     (case api_dial api address opt w of
        None \<Rightarrow> None
      | Some (ResErr st, w1) \<Rightarrow> Some (map Out intro @ [Err (''dial failed: '' @ message st)], 1, w1)
      | Some (ResVal p, w1) \<Rightarrow>
          (case run (p, w1) of
             None \<Rightarrow> None
           | Some (ls, pw2) \<Rightarrow>
               map_option (\<lambda>(_, w3). (map Out (intro @ joined) @ ls @ map Out finished, 0, w3)) (api_close api pw2)))"

text \<open>First all sends, then all receives; an end of the first loop does not skip the second.\<close>

definition both_loops ::
  "'s turn \<Rightarrow> 's turn \<Rightarrow> nat \<Rightarrow> 's \<Rightarrow> (line list \<times> 's) option" where
  "both_loops a b n s =
     (case for_break a 0 n s of
        None \<Rightarrow> None
      | Some (ls, s1) \<Rightarrow> map_option (\<lambda>(ls', s2). (ls @ ls', s2)) (for_break b 0 n s1))"

section \<open>The quality-of-service test\<close>

definition qos_address :: string where
  "qos_address = ''tcp://127.0.0.1:9001''"

definition qos_serve_turn :: "('l, 'p, 'w) duct_api \<Rightarrow> ('p \<times> 'w) turn" where
  "qos_serve_turn api = serve_turn api (\<lambda>i m. [Out (''Received message '' @ to_string_nat i)]) (\<lambda>m. m) (\<lambda>m. [])"

definition qos_text :: "nat \<Rightarrow> string" where
  "qos_text i = ''message '' @ to_string_nat i"

definition qos_send_turn :: "('l, 'p, 'w) duct_api \<Rightarrow> ('p \<times> 'w) turn" where
  "qos_send_turn api = send_turn api qos_text (\<lambda>i. ''send '' @ to_string_nat i @ '' failed: '') (\<lambda>i. ''Sent message '' @ to_string_nat i)"

definition qos_recv_turn :: "('l, 'p, 'w) duct_api \<Rightarrow> ('p \<times> 'w) turn" where
  "qos_recv_turn api = recv_turn api (\<lambda>i. ''recv '' @ to_string_nat i @ '' failed: '') (\<lambda>s. ''Received echo: '' @ s)"

text \<open>The three client modes set the same small limit and differ in the policy.\<close>

definition qos_mode :: "string \<Rightarrow> (BackpressurePolicy \<times> string) option" where
  "qos_mode mode =
     (if mode = ''client-block'' then Some (kBlock, ''Client with BLOCK backpressure'')
      else if mode = ''client-drop'' then Some (kDropNew, ''Client with DROP_NEW backpressure'')
      else if mode = ''client-failfast'' then Some (kFailFast, ''Client with FAIL_FAST backpressure'')
      else None)"

definition qos_dial_options :: "BackpressurePolicy \<Rightarrow> DialOptions" where
  "qos_dial_options pol =
     DialOptions_default\<lparr>dial_timeout := 5000, dial_qos := QosOptions_default\<lparr>snd_hwm_bytes := 1024, backpressure := pol\<rparr>\<rparr>"

definition qos_client :: "('l, 'p, 'w) duct_api \<Rightarrow> BackpressurePolicy \<Rightarrow> string \<Rightarrow> 'w \<Rightarrow> (line list \<times> nat \<times> 'w) option" where
  "qos_client api pol banner =
     client_program api qos_address (qos_dial_options pol) [banner] [] [] (both_loops (qos_send_turn api) (qos_recv_turn api) 50)"

definition qos_server :: "('l, 'p, 'w) duct_api \<Rightarrow> 'w \<Rightarrow> (line list \<times> nat \<times> 'w) option" where
  "qos_server api =
     server_program api qos_address [] [''Server listening on tcp://127.0.0.1:9001''] [''Client connected''] []
       (for_break (qos_serve_turn api) 0 50)"

definition qos_test_main :: "('l, 'p, 'w) duct_api \<Rightarrow> string \<Rightarrow> string list \<Rightarrow> 'w \<Rightarrow> (line list \<times> nat \<times> 'w) option" where
  "qos_test_main api prog args w =
     (case args of
        [mode] \<Rightarrow>
          if mode = ''server'' then qos_server api w
          else (case qos_mode mode of
                  None \<Rightarrow> Some ([Err (''unknown mode: '' @ mode)], 2, w)
                | Some (pol, banner) \<Rightarrow> qos_client api pol banner w)
      | _ \<Rightarrow> Some ([Err (''usage: '' @ prog @ '' <mode>''),
                   Err ''modes: server, client-block, client-drop, client-failfast''], 2, w))"

section \<open>The shared-memory and the named-pipe test\<close>

definition client_text :: "nat \<Rightarrow> string" where
  "client_text i = ''Message '' @ to_string_nat i @ '' from client''"

definition heard_line :: "nat \<Rightarrow> Message \<Rightarrow> line list" where
  "heard_line i m = [Out (''Server received: '' @ string_of_bytes (view m))]"

definition shm_serve_turn :: "('l, 'p, 'w) duct_api \<Rightarrow> ('p \<times> 'w) turn" where
  "shm_serve_turn api = serve_turn api heard_line (\<lambda>m. m) (\<lambda>m. [])"

definition shm_send_turn :: "('l, 'p, 'w) duct_api \<Rightarrow> ('p \<times> 'w) turn" where
  "shm_send_turn api = send_turn api client_text (\<lambda>i. ''send failed: '') (\<lambda>i. ''Client sent: '' @ client_text i)"

definition shm_recv_turn :: "('l, 'p, 'w) duct_api \<Rightarrow> ('p \<times> 'w) turn" where
  "shm_recv_turn api = recv_turn api (\<lambda>i. ''recv failed: '') (\<lambda>s. ''Client received echo: '' @ s)"

definition shm_test_main :: "('l, 'p, 'w) duct_api \<Rightarrow> string \<Rightarrow> string list \<Rightarrow> 'w \<Rightarrow> (line list \<times> nat \<times> 'w) option" where
  "shm_test_main api prog args w =
     (case args of
        [mode, bus_name] \<Rightarrow>
          if mode = ''server'' then
            server_program api (''shm://'' @ bus_name) [''Starting Windows shared memory server on bus: '' @ bus_name]
              [''Waiting for client connection...''] [''Client connected!''] [''Server done.'']
              (for_break (shm_serve_turn api) 0 5) w
          else if mode = ''client'' then
            client_program api (''shm://'' @ bus_name) DialOptions_default
              [''Starting Windows shared memory client to bus: '' @ bus_name] [''Connected to server!''] [''Client done.'']
              (both_loops (shm_send_turn api) (shm_recv_turn api) 5) w
          else Some ([Err (''unknown mode: '' @ mode)], 2, w)
      | _ \<Rightarrow> Some ([Err (''usage: '' @ prog @ '' <mode> <bus_name>''), Err ''modes: server, client''], 2, w))"

text \<open>The server of the named-pipe test answers with a prefix.\<close>

definition echo_answer :: "Message \<Rightarrow> Message" where
  "echo_answer m = from_string (''Echo: '' @ string_of_bytes (view m))"

definition pipe_serve_turn :: "('l, 'p, 'w) duct_api \<Rightarrow> ('p \<times> 'w) turn" where
  "pipe_serve_turn api =
     serve_turn api heard_line echo_answer (\<lambda>m. [Out (''Server sent: '' @ ''Echo: '' @ string_of_bytes (view m))])"

definition pipe_client_turn :: "('l, 'p, 'w) duct_api \<Rightarrow> ('p \<times> 'w) turn" where
  "pipe_client_turn api =
     then_turn (send_turn api client_text (\<lambda>i. ''send failed: '') (\<lambda>i. ''Client sent: '' @ client_text i))
       (recv_turn api (\<lambda>i. ''recv failed: '') (\<lambda>s. ''Client received: '' @ s))"

definition pipe_test_main :: "('l, 'p, 'w) duct_api \<Rightarrow> string \<Rightarrow> string list \<Rightarrow> 'w \<Rightarrow> (line list \<times> nat \<times> 'w) option" where
  "pipe_test_main api prog args w =
     (case args of
        [mode, pipe_name] \<Rightarrow>
          if mode = ''server'' then
            server_program api (''pipe://'' @ pipe_name) [''Starting Windows named pipe server: '' @ pipe_name]
              [''Waiting for client connection...''] [''Client connected!''] [''Server done.'']
              (for_break (pipe_serve_turn api) 0 10) w
          else if mode = ''client'' then
            client_program api (''pipe://'' @ pipe_name) DialOptions_default
              [''Starting Windows named pipe client to: '' @ pipe_name] [''Connected to server!''] [''Client done.'']
              (for_break (pipe_client_turn api) 0 10) w
          else Some ([Err (''unknown mode: '' @ mode)], 2, w)
      | _ \<Rightarrow> Some ([Err (''usage: '' @ prog @ '' <mode> <pipe_name>''), Err ''modes: server, client''], 2, w))"

section \<open>Channels of messages\<close>

text \<open>
  What the programs rely on. A pipe has accepted the payloads \<open>ms\<close> and will yet read the payloads \<open>ar\<close>:
  \<open>chan\<close> while every send succeeded, \<open>half\<close> also after one failed. Calls return, receives take the next
  payload or fail, a failing call accepts nothing, and what has reached the peer when the pipe is closed
  is a front part of what was accepted. \<open>fits\<close> says which accepted payloads the sender has room for.
\<close>

locale message_channel =
  fixes api :: "('l, 'p, 'w) duct_api"
    and chan half :: "byte_seq list \<Rightarrow> byte_seq list \<Rightarrow> 'p \<times> 'w \<Rightarrow> bool"
    and delivered :: "'w \<Rightarrow> byte_seq list"
    and fits :: "byte_seq list \<Rightarrow> bool"
    and lis :: "'l \<Rightarrow> bool"
  assumes chan_half: "chan ms ar pw \<Longrightarrow> half ms ar pw"
    and send_law: "chan ms ar pw \<Longrightarrow> wf_Message m \<Longrightarrow> fits (ms @ [view m]) \<Longrightarrow>
      \<exists>st pw'. api_send api m opt pw = Some (st, pw')
        \<and> (if status_ok st then chan (ms @ [view m]) ar pw' else half ms ar pw')"
    and recv_law: "half ms ar pw \<Longrightarrow>
      \<exists>r pw'. api_recv api ropt pw = Some (r, pw')
        \<and> (case r of
             ResVal m \<Rightarrow> wf_Message m \<and> (\<exists>ar'. ar = view m # ar' \<and> half ms ar' pw' \<and> (chan ms ar pw \<longrightarrow> chan ms ar' pw'))
           | ResErr st \<Rightarrow> \<exists>ar'. half ms ar' pw')"
    and close_law: "half ms ar pw \<Longrightarrow> \<exists>p' w'. api_close api pw = Some (p', w') \<and> prefix (delivered w') ms"
    and unlisten_law: "lis l \<Longrightarrow> delivered (api_unlisten api l w) = delivered w"

text \<open>How a loop of \<open>n\<close> rounds ends after \<open>k\<close> complete ones: at its bound or with a diagnostic.\<close>

definition loop_tail :: "(nat \<Rightarrow> string) \<Rightarrow> nat \<Rightarrow> nat \<Rightarrow> line list \<Rightarrow> bool" where
  "loop_tail failed k n t \<longleftrightarrow> (if k = n then t = [] else k < n \<and> (\<exists>st :: Status. t = [Err (failed k @ message st)]))"

text \<open>The same for rounds that send and receive: a receive may fail after its send was reported.\<close>

definition pair_tail ::
  "(nat \<Rightarrow> string) \<Rightarrow> (nat \<Rightarrow> string) \<Rightarrow> (nat \<Rightarrow> string) \<Rightarrow> nat \<Rightarrow> nat \<Rightarrow> line list \<Rightarrow> bool" where
  "pair_tail said sfailed rfailed k n t \<longleftrightarrow>
     (if k = n then t = []
      else k < n \<and> (\<exists>st :: Status. t = [Err (sfailed k @ message st)] \<or> t = [Out (said k), Err (rfailed k @ message st)]))"

lemma prefix_upt: "j \<le> n \<Longrightarrow> prefix [0..<j] [0..<n]"
  by (metis prefixI upt_add_eq_append le0 le_add_diff_inverse)

lemma upt_step: "[i..<i + Suc j] = i # [Suc i..<Suc i + j]"
  by (simp add: upt_conv_Cons del: upt_Suc)

context message_channel
begin

lemma send_loop_run:
  assumes "chan ms ar pw" "\<forall>j\<le>n. fits (ms @ map (bytes_of_string \<circ> wording) [i..<i + j])"
  shows "\<exists>k t pw'. for_break (send_turn api wording failed said) i n pw = Some (map (Out \<circ> said) [i..<i + k] @ t, pw')
     \<and> loop_tail failed (i + k) (i + n) t \<and> half (ms @ map (bytes_of_string \<circ> wording) [i..<i + k]) ar pw'"
  using assms
proof (induction n arbitrary: i ms pw)
  case 0
  then show ?case using chan_half [OF 0(1)] by (intro exI [of _ 0]) (simp add: loop_tail_def)
next
  case (Suc n)
  let ?m = "from_string (wording i)"
  have v: "view ?m = bytes_of_string (wording i)" by (simp add: from_string_def)
  obtain st pw1 where s: "api_send api ?m SendOptions_default pw = Some (st, pw1)"
    "if status_ok st then chan (ms @ [view ?m]) ar pw1 else half ms ar pw1"
    using send_law [OF Suc.prems(1), of ?m SendOptions_default] Suc.prems(2) [rule_format, of 1] by (auto simp: v)
  show ?case
  proof (cases "status_ok st")
    case False
    with s show ?thesis by (intro exI [of _ 0]) (auto simp: send_turn_def loop_tail_def)
  next
    case True
    have "fits ((ms @ [view ?m]) @ map (bytes_of_string \<circ> wording) [Suc i..<Suc i + j])" if "j \<le> n" for j
      using Suc.prems(2) [rule_format, of "Suc j"] that v unfolding upt_step by simp
    then have f: "\<forall>j\<le>n. fits ((ms @ [view ?m]) @ map (bytes_of_string \<circ> wording) [Suc i..<Suc i + j])" by blast
    have "chan (ms @ [view ?m]) ar pw1" using s True by simp
    from Suc.IH [OF this f] obtain k t pw' where
      "for_break (send_turn api wording failed said) (Suc i) n pw1 = Some (map (Out \<circ> said) [Suc i..<Suc i + k] @ t, pw')"
      "loop_tail failed (Suc i + k) (Suc i + n) t" "half ((ms @ [view ?m]) @ map (bytes_of_string \<circ> wording) [Suc i..<Suc i + k]) ar pw'"
      by blast
    moreover have "send_turn api wording failed said i pw = Some ([Out (said i)], True, pw1)"
      using s(1) True by (simp add: send_turn_def)
    ultimately show ?thesis using v
      by (intro exI [of _ "Suc k"] exI [of _ t] exI [of _ pw'], unfold upt_step) (simp add: comp_def del: upt_Suc)
  qed
qed

lemma recv_loop_run:
  assumes "half ms ar pw"
  shows "\<exists>k t pw' ar'. for_break (recv_turn api failed got) i n pw = Some (map (\<lambda>x. Out (got (string_of_bytes x))) (take k ar) @ t, pw')
     \<and> k \<le> length ar \<and> loop_tail failed (i + k) (i + n) t \<and> half ms ar' pw'"
  using assms
proof (induction n arbitrary: i ar pw)
  case 0
  then show ?case by (intro exI [of _ 0]) (auto simp: loop_tail_def)
next
  case (Suc n)
  obtain r pw1 where r: "api_recv api RecvOptions_default pw = Some (r, pw1)"
    "case r of ResVal m \<Rightarrow> wf_Message m \<and> (\<exists>ar'. ar = view m # ar' \<and> half ms ar' pw1 \<and> (chan ms ar pw \<longrightarrow> chan ms ar' pw1))
      | ResErr st \<Rightarrow> \<exists>ar'. half ms ar' pw1"
    using recv_law [OF Suc.prems] by blast
  show ?case
  proof (cases r)
    case (ResErr st)
    with r show ?thesis by (intro exI [of _ 0]) (auto simp: recv_turn_def loop_tail_def)
  next
    case (ResVal m)
    with r obtain ar1 where a: "ar = view m # ar1" "half ms ar1 pw1" by auto
    from Suc.IH [OF a(2), of "Suc i"] obtain k t pw' ar' where
      "for_break (recv_turn api failed got) (Suc i) n pw1 = Some (map (\<lambda>x. Out (got (string_of_bytes x))) (take k ar1) @ t, pw')"
      "k \<le> length ar1" "loop_tail failed (Suc i + k) (Suc i + n) t" "half ms ar' pw'" by blast
    moreover have "recv_turn api failed got i pw = Some ([Out (got (string_of_bytes (view m)))], True, pw1)"
      using r(1) ResVal by (simp add: recv_turn_def)
    ultimately show ?thesis using a(1) by (intro exI [of _ "Suc k"]) auto
  qed
qed

lemma serve_loop_run:
  assumes "chan ms ar pw" "\<And>ms. fits ms"
    and "\<And>m. wf_Message m \<Longrightarrow> wf_Message (answer m) \<and> view (answer m) = rep (view m)"
  shows "\<exists>k ls pw' ar'. for_break (serve_turn api heard answer said) i n pw = Some (ls, pw') \<and> k \<le> n
     \<and> half (ms @ map rep (take k ar)) ar' pw'"
  using assms(1)
proof (induction n arbitrary: i ms ar pw)
  case 0
  then show ?case using chan_half [OF 0] by auto
next
  case (Suc n)
  obtain r pw1 where r: "api_recv api RecvOptions_default pw = Some (r, pw1)"
    "case r of ResVal m \<Rightarrow> wf_Message m \<and> (\<exists>ar'. ar = view m # ar' \<and> half ms ar' pw1 \<and> (chan ms ar pw \<longrightarrow> chan ms ar' pw1))
      | ResErr st \<Rightarrow> \<exists>ar'. half ms ar' pw1"
    using recv_law [OF chan_half [OF Suc.prems]] by blast
  show ?case
  proof (cases r)
    case (ResErr st)
    with r show ?thesis by (intro exI [of _ 0]) (auto simp: serve_turn_def)
  next
    case (ResVal m)
    with r Suc.prems obtain ar1 where a: "wf_Message m" "ar = view m # ar1" "chan ms ar1 pw1" by auto
    note ans = assms(3) [OF a(1)]
    obtain st pw2 where s: "api_send api (answer m) SendOptions_default pw1 = Some (st, pw2)"
      "if status_ok st then chan (ms @ [rep (view m)]) ar1 pw2 else half ms ar1 pw2"
      using send_law [OF a(3), of "answer m" SendOptions_default] ans assms(2) by metis
    show ?thesis
    proof (cases "status_ok st")
      case False
      with r(1) ResVal s show ?thesis by (intro exI [of _ 0]) (auto simp: serve_turn_def)
    next
      case True
      with Suc.IH [of "ms @ [rep (view m)]" ar1 pw2 "Suc i"] s(2) obtain k ls pw' ar' where
        "for_break (serve_turn api heard answer said) (Suc i) n pw2 = Some (ls, pw')" "k \<le> n"
        "half (ms @ rep (view m) # map rep (take k ar1)) ar' pw'" by auto
      moreover have "serve_turn api heard answer said i pw = Some (heard i m @ said m, True, pw2)"
        using r(1) ResVal s(1) True by (simp add: serve_turn_def)
      ultimately show ?thesis using a(2) by (intro exI [of _ "Suc k"]) auto
    qed
  qed
qed

text \<open>The programs built from these loops.\<close>

lemma server_program_run:
  assumes "api_listen api address w = (ResVal l, w1)" "lis l" "api_accept api l w1 = Some (ResVal p, w2)"
    and "chan [] ar (p, w2)" "\<And>ms. fits ms"
    and "\<And>m. wf_Message m \<Longrightarrow> wf_Message (answer m) \<and> view (answer m) = rep (view m)"
  shows "\<exists>out w'. server_program api address intro waiting joined finished (for_break (serve_turn api heard answer said) 0 n) w
       = Some (out, 0, w') \<and> prefix (delivered w') (map rep ar)"
proof -
  obtain k ls pw3 ar' where r: "for_break (serve_turn api heard answer said) 0 n (p, w2) = Some (ls, pw3)"
    "half ([] @ map rep (take k ar)) ar' pw3"
    using serve_loop_run [where rep = rep and answer = answer, OF assms(4-6)] by blast
  obtain p' w4 where c: "api_close api pw3 = Some (p', w4)" "prefix (delivered w4) (map rep (take k ar))"
    using close_law [OF r(2)] by auto
  have "prefix (map rep (take k ar)) (map rep ar)" by (simp add: take_is_prefix map_mono_prefix)
  with c(2) have "prefix (delivered w4) (map rep ar)" by (rule prefix_order.trans)
  with assms(1-3) r(1) c(1) show ?thesis by (simp add: server_program_def unlisten_law)
qed

lemma both_loops_client:
  assumes "api_dial api address opt w = Some (ResVal p, w1)" "chan [] ar (p, w1)"
    and "\<forall>j\<le>n. fits (map (bytes_of_string \<circ> wording) [0..<j])"
  shows "\<exists>j k t t' w'. client_program api address opt intro joined finished
         (both_loops (send_turn api wording sfailed said) (recv_turn api rfailed got) n) w
       = Some (map Out (intro @ joined) @ map (Out \<circ> said) [0..<j] @ t @ map (\<lambda>x. Out (got (string_of_bytes x))) (take k ar) @ t'
            @ map Out finished, 0, w')
     \<and> loop_tail sfailed j n t \<and> loop_tail rfailed k n t' \<and> k \<le> length ar
     \<and> prefix (delivered w') (map (bytes_of_string \<circ> wording) [0..<n])"
proof -
  obtain j t pw2 where s: "for_break (send_turn api wording sfailed said) 0 n (p, w1) = Some (map (Out \<circ> said) [0..<j] @ t, pw2)"
    "loop_tail sfailed j n t" "half (map (bytes_of_string \<circ> wording) [0..<j]) ar pw2"
    using send_loop_run [OF assms(2), of n wording 0 sfailed said] assms(3) by auto
  obtain k t' pw3 ar' where r: "for_break (recv_turn api rfailed got) 0 n pw2
      = Some (map (\<lambda>x. Out (got (string_of_bytes x))) (take k ar) @ t', pw3)"
    "k \<le> length ar" "loop_tail rfailed k n t'" "half (map (bytes_of_string \<circ> wording) [0..<j]) ar' pw3"
    using recv_loop_run [OF s(3), of rfailed got 0 n] by auto
  obtain p' w' where c: "api_close api pw3 = Some (p', w')" "prefix (delivered w') (map (bytes_of_string \<circ> wording) [0..<j])"
    using close_law [OF r(4)] by blast
  have "j \<le> n" using s(2) by (auto simp: loop_tail_def split: if_splits)
  from c(2) map_mono_prefix [OF prefix_upt [OF this]]
  have "prefix (delivered w') (map (bytes_of_string \<circ> wording) [0..<n])" by (rule prefix_order.trans)
  with assms(1) s(1,2) r(1-3) c(1) show ?thesis
    by (intro exI [of _ j] exI [of _ k] exI [of _ t] exI [of _ t'] exI [of _ w']) (simp add: client_program_def both_loops_def)
qed

lemma pair_loop_run:
  assumes "chan ms ar pw" "\<forall>j\<le>n. fits (ms @ map (bytes_of_string \<circ> wording) [i..<i + j])"
  shows "\<exists>k j t pw' ar'. for_break (then_turn (send_turn api wording sfailed said) (recv_turn api rfailed got)) i n pw
       = Some (concat (map2 (\<lambda>r x. [Out (said r), Out (got (string_of_bytes x))]) [i..<i + k] (take k ar)) @ t, pw')
     \<and> k \<le> length ar \<and> pair_tail said sfailed rfailed (i + k) (i + n) t
     \<and> j \<le> n \<and> half (ms @ map (bytes_of_string \<circ> wording) [i..<i + j]) ar' pw'"
  using assms
proof (induction n arbitrary: i ms ar pw)
  case 0
  then show ?case using chan_half [OF 0(1)] by (intro exI [of _ 0]) (auto simp: pair_tail_def)
next
  case (Suc n)
  let ?m = "from_string (wording i)"
  have v: "view ?m = bytes_of_string (wording i)" by (simp add: from_string_def)
  obtain st pw1 where s: "api_send api ?m SendOptions_default pw = Some (st, pw1)"
    "if status_ok st then chan (ms @ [view ?m]) ar pw1 else half ms ar pw1"
    using send_law [OF Suc.prems(1), of ?m SendOptions_default] Suc.prems(2) [rule_format, of 1] by (auto simp: v)
  show ?case
  proof (cases "status_ok st")
    case False
    with s show ?thesis by (intro exI [of _ 0]) (auto simp: then_turn_def send_turn_def pair_tail_def)
  next
    case True
    then have ch: "chan (ms @ [view ?m]) ar pw1" using s by simp
    have sent1: "send_turn api wording sfailed said i pw = Some ([Out (said i)], True, pw1)"
      using s(1) True by (simp add: send_turn_def)
    obtain r pw2 where r: "api_recv api RecvOptions_default pw1 = Some (r, pw2)"
      "case r of ResVal m \<Rightarrow> wf_Message m \<and> (\<exists>ar'. ar = view m # ar' \<and> half (ms @ [view ?m]) ar' pw2
          \<and> (chan (ms @ [view ?m]) ar pw1 \<longrightarrow> chan (ms @ [view ?m]) ar' pw2))
        | ResErr st \<Rightarrow> \<exists>ar'. half (ms @ [view ?m]) ar' pw2"
      using recv_law [OF chan_half [OF ch]] by blast
    show ?thesis
    proof (cases r)
      case (ResErr st')
      with r sent1 v show ?thesis
        by (intro exI [of _ 0] exI [of _ 1]) (auto simp: then_turn_def recv_turn_def pair_tail_def)
    next
      case (ResVal m)
      with r ch obtain ar1 where a: "ar = view m # ar1" "chan (ms @ [view ?m]) ar1 pw2" by auto
      have "fits ((ms @ [view ?m]) @ map (bytes_of_string \<circ> wording) [Suc i..<Suc i + j])" if "j \<le> n" for j
        using Suc.prems(2) [rule_format, of "Suc j"] that v unfolding upt_step by simp
      then have "\<forall>j\<le>n. fits ((ms @ [view ?m]) @ map (bytes_of_string \<circ> wording) [Suc i..<Suc i + j])" by blast
      from Suc.IH [OF a(2) this] obtain k j t pw' ar' where
        "for_break (then_turn (send_turn api wording sfailed said) (recv_turn api rfailed got)) (Suc i) n pw2
          = Some (concat (map2 (\<lambda>r x. [Out (said r), Out (got (string_of_bytes x))]) [Suc i..<Suc i + k] (take k ar1)) @ t, pw')"
        "k \<le> length ar1" "pair_tail said sfailed rfailed (Suc i + k) (Suc i + n) t" "j \<le> n"
        "half ((ms @ [view ?m]) @ map (bytes_of_string \<circ> wording) [Suc i..<Suc i + j]) ar' pw'" by blast
      moreover have "then_turn (send_turn api wording sfailed said) (recv_turn api rfailed got) i pw
          = Some ([Out (said i), Out (got (string_of_bytes (view m)))], True, pw2)"
        using sent1 r(1) ResVal by (simp add: then_turn_def recv_turn_def)
      ultimately show ?thesis using a(1) v
        by (intro exI [of _ "Suc k"] exI [of _ "Suc j"] exI [of _ t] exI [of _ pw'] exI [of _ ar'], unfold upt_step)
          (simp add: comp_def del: upt_Suc)
    qed
  qed
qed

lemma pair_client:
  assumes "api_dial api address opt w = Some (ResVal p, w1)" "chan [] ar (p, w1)"
    and "\<forall>j\<le>n. fits (map (bytes_of_string \<circ> wording) [0..<j])"
  shows "\<exists>k t w'. client_program api address opt intro joined finished
         (for_break (then_turn (send_turn api wording sfailed said) (recv_turn api rfailed got)) 0 n) w
       = Some (map Out (intro @ joined) @ concat (map2 (\<lambda>r x. [Out (said r), Out (got (string_of_bytes x))]) [0..<k] (take k ar))
            @ t @ map Out finished, 0, w')
     \<and> pair_tail said sfailed rfailed k n t \<and> k \<le> length ar
     \<and> prefix (delivered w') (map (bytes_of_string \<circ> wording) [0..<n])"
proof -
  obtain k j t pw2 ar' where r: "for_break (then_turn (send_turn api wording sfailed said) (recv_turn api rfailed got)) 0 n (p, w1)
      = Some (concat (map2 (\<lambda>r x. [Out (said r), Out (got (string_of_bytes x))]) [0..<k] (take k ar)) @ t, pw2)"
    "k \<le> length ar" "pair_tail said sfailed rfailed k n t" "j \<le> n" "half (map (bytes_of_string \<circ> wording) [0..<j]) ar' pw2"
    using pair_loop_run [OF assms(2), of n wording 0 sfailed said rfailed got] assms(3) by auto
  obtain p' w' where c: "api_close api pw2 = Some (p', w')" "prefix (delivered w') (map (bytes_of_string \<circ> wording) [0..<j])"
    using close_law [OF r(5)] by blast
  have "prefix (delivered w') (map (bytes_of_string \<circ> wording) [0..<n])"
    using c(2) map_mono_prefix [OF prefix_upt [OF r(4)]] by (rule prefix_order.trans)
  with assms(1) r(1-3) c(1) show ?thesis by (intro exI [of _ k] exI [of _ t] exI [of _ w']) (simp add: client_program_def)
qed

end

end
