(* ===== verification/Duct_Test_Runs.thy ===== *)
theory Duct_Test_Runs
  imports Duct_Test_Programs
begin

text \<open>
  The test programs on the model's transports: the accepted and the dialled TCP pipe are channels of
  messages in the sense of \<open>message_channel\<close>, so the quality-of-service test delivers its echoes end
  to end; and its three client modes cannot be told apart.
\<close>

section \<open>TCP connections as channels\<close>

lemma decode_append:
  "\<forall>bs\<in>set bss. length bs \<le> kMaxFramePayload \<Longrightarrow>
   decode_frames e (concat (map tcp_record bss) @ p) = bss @ decode_frames e p"
proof (induction bss)
  case (Cons bs bss)
  then show ?case by (subst decode_frames.simps) (simp add: frame_of_record)
qed simp

lemma decode_partial: "frame_of e p = None \<Longrightarrow> decode_frames e p = []"
  by (subst decode_frames.simps) simp

lemma frame_of_nothing [simp]: "frame_of e [] = None"
  by (simp add: frame_of_def kHeaderLen_def)

lemma decode_nothing [simp]: "decode_frames e [] = []"
  by (simp add: decode_partial)

lemma decode_prefix:
  "\<forall>bs\<in>set bss. length bs \<le> kMaxFramePayload \<Longrightarrow> prefix out (concat (map tcp_record bss)) \<Longrightarrow> prefix (decode_frames e out) bss"
proof (induction bss arbitrary: out)
  case Nil
  then show ?case by simp
next
  case (Cons b bss)
  then have "length b \<le> kMaxFramePayload" by simp
  note fr = frame_of_record [OF this]
  from Cons.prems(2) consider "strict_prefix out (tcp_record b)" | us where "out = tcp_record b @ us" "prefix us (concat (map tcp_record bss))"
    by (cases "out = tcp_record b") (auto simp: prefix_append strict_prefix_def)
  then show ?case
  proof cases
    case 1
    then show ?thesis using fr(2) decode_partial by simp
  next
    case 2
    with Cons.IH [OF _ 2(2)] Cons.prems(1) fr(1) show ?thesis
      by (simp add: decode_frames.simps [of e "tcp_record b @ us"])
  qed
qed

context runtime_contract
begin

lemma write_frame_any:
  assumes "wf_Message m"
  shows "\<exists>st w' k. write_frame e (rt_send rt) fd m 0 w = Some (st, w') \<and> pending fd w' = pending fd w
     \<and> sent fd w' = sent fd w @ take k (tcp_record (view m))
     \<and> (if status_ok st then msg_size m \<le> kMaxFramePayload \<and> k = length (tcp_record (view m))
        else k < length (tcp_record (view m)) \<and> (msg_size m \<le> kMaxFramePayload \<or> k = 0))"
proof (cases "msg_size m \<le> kMaxFramePayload")
  case True
  obtain st w' k where s: "write_frame e (rt_send rt) fd m 0 w = Some (st, w')" "sent fd w' = sent fd w @ take k (tcp_record (view m))"
    "status_ok st \<longleftrightarrow> k = length (tcp_record (view m))" "k \<le> length (tcp_record (view m))"
    using write_frame_returns [OF assms True, of e fd 0 w] by (auto simp: frame_bytes_record [OF assms])
  with True write_frame_keeps [OF send_pending s(1)] show ?thesis by auto
next
  case False
  then have "write_frame e (rt_send rt) fd m 0 w = Some (invalid_argument ''message too large; enable fragmentation (todo)'', w)"
    by (simp add: write_frame_def)
  then show ?thesis by (intro exI [of _ "invalid_argument _"] exI [of _ w] exI [of _ 0]) (simp add: tcp_record_def frame_bytes_def)
qed

text \<open>An accepted connection: no queue, every send is written at once.\<close>

definition plain_half :: "endian \<Rightarrow> TcpPipe \<Rightarrow> byte_seq \<Rightarrow> byte_seq list \<Rightarrow> byte_seq list \<Rightarrow> any_pipe \<times> 'w \<Rightarrow> bool" where
  "plain_half e t s0 ms ar pw \<longleftrightarrow>
     fst pw = Plain (ATcpPipe t) \<and> tcp_fd t \<noteq> kInvalidSocket
     \<and> ar = decode_frames (rt_endian rt) (pending (tcp_fd t) (snd pw))
     \<and> (\<exists>out. sent (tcp_fd t) (snd pw) = s0 @ out \<and> prefix (decode_frames e out) ms)"

definition plain_chan :: "endian \<Rightarrow> TcpPipe \<Rightarrow> byte_seq \<Rightarrow> byte_seq list \<Rightarrow> byte_seq list \<Rightarrow> any_pipe \<times> 'w \<Rightarrow> bool" where
  "plain_chan e t s0 ms ar pw \<longleftrightarrow>
     plain_half e t s0 ms ar pw \<and> sent (tcp_fd t) (snd pw) = s0 @ concat (map tcp_record ms)
     \<and> (\<forall>x\<in>set ms. length x \<le> kMaxFramePayload)"

lemma plain_send:
  assumes "plain_chan e t s0 ms ar pw" "wf_Message m"
  shows "\<exists>st pw'. pipe_send rt m opt pw = Some (st, pw')
     \<and> (if status_ok st then plain_chan e t s0 (ms @ [view m]) ar pw' else plain_half e t s0 ms ar pw')"
proof -
  obtain w where w: "pw = (Plain (ATcpPipe t), w)" "tcp_fd t \<noteq> kInvalidSocket"
    using assms(1) by (cases pw) (auto simp: plain_chan_def plain_half_def)
  obtain st w' k where s: "write_frame (rt_endian rt) (rt_send rt) (tcp_fd t) m 0 w = Some (st, w')"
    "pending (tcp_fd t) w' = pending (tcp_fd t) w" "sent (tcp_fd t) w' = sent (tcp_fd t) w @ take k (tcp_record (view m))"
    "if status_ok st then msg_size m \<le> kMaxFramePayload \<and> k = length (tcp_record (view m))
     else k < length (tcp_record (view m)) \<and> (msg_size m \<le> kMaxFramePayload \<or> k = 0)"
    using write_frame_any [OF assms(2)] by blast
  have c: "sent (tcp_fd t) w = s0 @ concat (map tcp_record ms)" "\<forall>x\<in>set ms. length x \<le> kMaxFramePayload"
    "ar = decode_frames (rt_endian rt) (pending (tcp_fd t) w)"
    using assms(1) w by (simp_all add: plain_chan_def plain_half_def)
  have "decode_frames e (take k (tcp_record (view m))) = (if status_ok st then [view m] else [])"
  proof (cases "status_ok st")
    case True
    then show ?thesis using s(4) decode_append [of "[view m]" e "[]"] assms(2) by simp
  next
    case False
    then have "strict_prefix (take k (tcp_record (view m))) (tcp_record (view m))" using s(4)
      by (metis length_take min.absorb4 nless_le strict_prefix_def take_is_prefix)
    then have "frame_of e (take k (tcp_record (view m))) = None"
      using frame_of_record(2) [of "view m"] s(4) False assms(2) by auto
    with False show ?thesis by (simp add: decode_partial)
  qed
  then have "decode_frames e (concat (map tcp_record ms) @ take k (tcp_record (view m))) = ms @ (if status_ok st then [view m] else [])"
    using decode_append [OF c(2)] by simp
  moreover have "pipe_send rt m opt pw = Some (st, Plain (ATcpPipe t), w')" using s(1) w by (simp add: pipe_send_tcp)
  ultimately show ?thesis using w(2) s(2-4) c assms(2) by (auto simp: plain_chan_def plain_half_def)
qed

lemma plain_recv:
  assumes "plain_half e t s0 ms ar pw"
  shows "\<exists>r pw'. pipe_recv rt ropt pw = Some (r, pw')
     \<and> (case r of
          ResVal m \<Rightarrow> wf_Message m \<and> (\<exists>ar'. ar = view m # ar' \<and> plain_half e t s0 ms ar' pw'
            \<and> (plain_chan e t s0 ms ar pw \<longrightarrow> plain_chan e t s0 ms ar' pw'))
        | ResErr st \<Rightarrow> \<exists>ar'. plain_half e t s0 ms ar' pw')"
proof -
  obtain w where w: "pw = (Plain (ATcpPipe t), w)" "tcp_fd t \<noteq> kInvalidSocket"
    using assms(1) by (cases pw) (auto simp: plain_half_def)
  obtain r w1 where r: "read_frame (rt_endian rt) (rt_recv rt) (tcp_fd t) w = Some (r, w1)"
    "case r of ResVal m \<Rightarrow> wf_Message m \<and> msg_size m \<le> kMaxFramePayload
       \<and> frame_of (rt_endian rt) (pending (tcp_fd t) w) = Some (view m, pending (tcp_fd t) w1)
     | ResErr s \<Rightarrow> code s = kIoError \<or> (code s \<noteq> kOk \<and> frame_of (rt_endian rt) (pending (tcp_fd t) w) = None)"
    using read_frame_decodes [of "rt_endian rt" "tcp_fd t" w] by blast
  note keep = read_frame_keeps [OF recv_sent r(1)]
  have "pipe_recv rt ropt pw = Some (r, Plain (ATcpPipe t), w1)" using r(1) w by (simp add: pipe_recv_tcp)
  then show ?thesis using r(2) w keep assms
    by (cases r) (auto simp: plain_half_def plain_chan_def decode_frames.simps [of "rt_endian rt" "pending (tcp_fd t) w"])
qed

lemma plain_close:
  assumes "plain_half e t s0 ms ar pw"
  shows "\<exists>p' w'. pipe_close rt pw = Some (p', w') \<and> prefix (decode_frames e (drop (length s0) (sent (tcp_fd t) w'))) ms"
  using assms by (cases pw) (auto simp: plain_half_def pipe_close_plain base_close_sent)

definition tcp_lis :: "any_listener \<Rightarrow> bool" where
  "tcp_lis l \<longleftrightarrow> (\<exists>t. l = ATcpListener t)"

lemma posix_api_simps:
  "api_listen (posix_api rt) a = lib_listen rt a ListenOptions_default" "api_dial (posix_api rt) = lib_dial rt"
  "api_accept (posix_api rt) = listener_accept rt" "api_send (posix_api rt) = pipe_send rt" "api_recv (posix_api rt) = pipe_recv rt"
  "api_close (posix_api rt) = pipe_close rt" "api_unlisten (posix_api rt) l w = snd (listener_close rt (l, w))"
  by (simp_all add: posix_api_def)

lemma plain_channel:
  "message_channel (posix_api rt) (plain_chan e t s0) (plain_half e t s0)
     (\<lambda>w. decode_frames e (drop (length s0) (sent (tcp_fd t) w))) (\<lambda>_. True) tcp_lis"
  using plain_send plain_recv plain_close
  by unfold_locales (auto simp: posix_api_simps plain_chan_def tcp_lis_def listener_close_sent)

text \<open>A dialled connection with a send queue, as long as what was accepted stays below its limit.\<close>

definition queued_chan :: "TcpPipe \<Rightarrow> QosOptions \<Rightarrow> byte_seq \<Rightarrow> byte_seq list \<Rightarrow> byte_seq list \<Rightarrow> any_pipe \<times> 'w \<Rightarrow> bool" where
  "queued_chan t opts s0 ms ar pw \<longleftrightarrow>
     (\<exists>q w xs. pw = (WithQos q, w) \<and> conn t opts s0 xs q w \<and> ms = map view xs
        \<and> (\<forall>x\<in>set ms. length x \<le> kMaxFramePayload) \<and> ar = decode_frames (rt_endian rt) (pending (tcp_fd t) w))"

definition has_room :: "QosOptions \<Rightarrow> byte_seq list \<Rightarrow> bool" where
  "has_room opts ms \<longleftrightarrow> sum_list (map length ms) < unat (snd_hwm_bytes opts) \<and> (\<forall>x\<in>set ms. length x \<le> kMaxFramePayload)"

lemma conn_bytes: "conn t opts s0 xs q w \<Longrightarrow> sum_list (map length (map view xs)) = msg_bytes xs"
  unfolding conn_def msg_bytes_def by (auto intro: arg_cong [where f = sum_list])

lemma queued_send:
  assumes "queued_chan t opts s0 ms ar pw" "wf_Message m" "has_room opts (ms @ [view m])"
  shows "\<exists>st pw'. pipe_send rt m opt pw = Some (st, pw')
     \<and> (if status_ok st then queued_chan t opts s0 (ms @ [view m]) ar pw' else queued_chan t opts s0 ms ar pw')"
proof -
  obtain q w xs where c: "pw = (WithQos q, w)" "conn t opts s0 xs q w" "ms = map view xs" "\<forall>x\<in>set ms. length x \<le> kMaxFramePayload"
    "ar = decode_frames (rt_endian rt) (pending (tcp_fd t) w)" using assms(1) by (auto simp: queued_chan_def)
  have "msg_bytes xs + msg_size m < unat (snd_hwm_bytes opts)"
    using assms(2,3) conn_bytes [OF c(2)] c(3) by (simp add: has_room_def)
  from conn_send [OF c(2) assms(2) this, of opt] obtain st q' w' where
    "pipe_send rt m opt (WithQos q, w) = Some (st, WithQos q', w')" "pending (tcp_fd t) w' = pending (tcp_fd t) w"
    "if status_ok st then conn t opts s0 (xs @ [m]) q' w' else conn t opts s0 xs q' w'" by (auto split: if_splits)
  with c assms(3) show ?thesis by (force simp: queued_chan_def has_room_def)
qed

lemma queued_recv:
  assumes "queued_chan t opts s0 ms ar pw"
  shows "\<exists>r pw'. pipe_recv rt ropt pw = Some (r, pw')
     \<and> (case r of ResVal m \<Rightarrow> wf_Message m \<and> (\<exists>ar'. ar = view m # ar' \<and> queued_chan t opts s0 ms ar' pw')
        | ResErr st \<Rightarrow> \<exists>ar'. queued_chan t opts s0 ms ar' pw')"
proof -
  obtain q w xs where c: "pw = (WithQos q, w)" "conn t opts s0 xs q w" "ms = map view xs" "\<forall>x\<in>set ms. length x \<le> kMaxFramePayload"
    "ar = decode_frames (rt_endian rt) (pending (tcp_fd t) w)" using assms(1) by (auto simp: queued_chan_def)
  obtain r q' w' where r: "pipe_recv rt ropt (WithQos q, w) = Some (r, WithQos q', w')" "conn t opts s0 xs q' w'"
    "case r of ResVal m \<Rightarrow> wf_Message m \<and> frame_of (rt_endian rt) (pending (tcp_fd t) w) = Some (view m, pending (tcp_fd t) w')
      | ResErr s \<Rightarrow> \<not> status_ok s \<and> (code s = kIoError \<or> frame_of (rt_endian rt) (pending (tcp_fd t) w) = None)"
    using conn_recv [OF c(2)] by blast
  then have "queued_chan t opts s0 ms (decode_frames (rt_endian rt) (pending (tcp_fd t) w')) (WithQos q', w')"
    using c by (auto simp: queued_chan_def)
  with r c show ?thesis
    by (cases r) (auto simp: decode_frames.simps [of "rt_endian rt" "pending (tcp_fd t) w"])
qed

lemma queued_close:
  assumes "queued_chan t opts s0 ms ar pw"
  shows "\<exists>p' w'. pipe_close rt pw = Some (p', w') \<and> prefix (decode_frames e (drop (length s0) (sent (tcp_fd t) w'))) ms"
proof -
  obtain q w xs where c: "pw = (WithQos q, w)" "conn t opts s0 xs q w" "ms = map view xs" "\<forall>x\<in>set ms. length x \<le> kMaxFramePayload"
    using assms(1) by (auto simp: queued_chan_def)
  obtain pp w' out where o: "pipe_close rt (WithQos q, w) = Some (pp, w')" "sent (tcp_fd t) w' = s0 @ out" "prefix out (records xs)"
    using conn_close [OF c(2)] by blast
  have "prefix (decode_frames e out) ms" using decode_prefix [OF c(4), of out e] o(3) c(3) by (simp add: records_def)
  with o c(1) show ?thesis by auto
qed

lemma queued_channel:
  "message_channel (posix_api rt) (queued_chan t opts s0) (queued_chan t opts s0)
     (\<lambda>w. decode_frames e (drop (length s0) (sent (tcp_fd t) w))) (has_room opts) tcp_lis"
proof unfold_locales
  fix ms ar pw ropt
  assume "queued_chan t opts s0 ms ar pw"
  from queued_recv [OF this, of ropt] obtain r pw' where r: "pipe_recv rt ropt pw = Some (r, pw')"
    "case r of ResVal m \<Rightarrow> wf_Message m \<and> (\<exists>ar'. ar = view m # ar' \<and> queued_chan t opts s0 ms ar' pw')
        | ResErr st \<Rightarrow> \<exists>ar'. queued_chan t opts s0 ms ar' pw'" by blast
  then show "\<exists>r pw'. api_recv (posix_api rt) ropt pw = Some (r, pw')
     \<and> (case r of ResVal m \<Rightarrow> wf_Message m \<and> (\<exists>ar'. ar = view m # ar' \<and> queued_chan t opts s0 ms ar' pw'
            \<and> (queued_chan t opts s0 ms ar pw \<longrightarrow> queued_chan t opts s0 ms ar' pw'))
        | ResErr st \<Rightarrow> \<exists>ar'. queued_chan t opts s0 ms ar' pw')"
    by (cases r) (auto simp: posix_api_simps)
qed (use queued_send queued_close in \<open>auto simp: posix_api_simps tcp_lis_def listener_close_sent\<close>)

end

interpretation script_plain: message_channel "posix_api script_runtime" "script_api.plain_chan e t s0" "script_api.plain_half e t s0"
    "\<lambda>w. decode_frames e (drop (length s0) (outgoing w))" "\<lambda>_. True" script_api.tcp_lis for e t s0
  by (rule script_api.plain_channel)

interpretation script_queued: message_channel "posix_api script_runtime" "script_api.queued_chan t opts s0" "script_api.queued_chan t opts s0"
    "\<lambda>w. decode_frames e (drop (length s0) (outgoing w))" "script_api.has_room opts" script_api.tcp_lis for e t opts s0
  by (rule script_api.queued_channel)

section \<open>The numbered messages\<close>

lemma to_string_two: "n < 100 \<Longrightarrow> length (to_string_nat n) \<le> 2"
  by (simp add: to_string_nat.simps [of n] to_string_nat.simps [of "n div 10"])

lemma qos_text_length: "n < 100 \<Longrightarrow> length (bytes_of_string (qos_text n)) \<le> 10"
  using to_string_two [of n] by (simp add: qos_text_def)

lemma qos_text_sum: "j \<le> 100 \<Longrightarrow> sum_list (map length (map (bytes_of_string \<circ> qos_text) [0..<j])) \<le> 10 * j"
proof (induction j)
  case (Suc j)
  then show ?case using qos_text_length [of j] by simp
qed simp

lemma qos_address_text: "qos_address = ''tcp://'' @ ''127.0.0.1'' @ '':'' @ to_string_nat (unat (9001 :: u16))"
  by (simp add: qos_address_def to_string_nat.simps char_of_def bit_0)

lemma qos_options:
  "snd_hwm_bytes (dial_qos (qos_dial_options pol)) = 1024" "backpressure (dial_qos (qos_dial_options pol)) = pol"
  "pol \<noteq> kDropOld \<Longrightarrow> keeps_all (dial_qos (qos_dial_options pol))"
  by (simp_all add: qos_dial_options_def QosOptions_default_def keeps_all_def)

lemma qos_mode_policy: "qos_mode mode = Some (pol, banner) \<Longrightarrow> pol \<noteq> kDropOld \<and> mode \<noteq> ''server''"
  by (auto simp: qos_mode_def split: if_splits)

context runtime_contract
begin

lemma qos_room: "j \<le> 50 \<Longrightarrow> has_room (dial_qos (qos_dial_options pol)) (map (bytes_of_string \<circ> qos_text) [0..<j])"
proof -
  assume j: "j \<le> 50"
  have "length (bytes_of_string (qos_text i)) \<le> kMaxFramePayload" if "i < j" for i
    using qos_text_length [of i] that j by (simp add: kMaxFramePayload_def)
  with qos_text_sum [of j] j show ?thesis by (auto simp: has_room_def qos_options)
qed

lemma qos_dials:
  assumes "connect_tcp (rt_sock rt) ''127.0.0.1'' 9001 w = (ResVal fd, w1)" "pol \<noteq> kDropOld"
  obtains q where "lib_dial rt qos_address (qos_dial_options pol) w = Some (ResVal (WithQos q), w1)"
    "conn \<lparr>tcp_fd = fd\<rparr> (dial_qos (qos_dial_options pol)) (sent fd w1) [] q w1" "running q" "send_queue q = []"
proof -
  have "connect_tcp (rt_sock rt) (if ''127.0.0.1'' = [] then ''127.0.0.1'' else ''127.0.0.1'') 9001 w = (ResVal fd, w1)"
    using assms(1) by simp
  moreover have "snd_hwm_bytes (dial_qos (qos_dial_options pol)) \<noteq> 0" by (simp add: qos_options)
  ultimately obtain q where "lib_dial rt qos_address (qos_dial_options pol) w = Some (ResVal (WithQos q), w1)"
    "conn \<lparr>tcp_fd = fd\<rparr> (dial_qos (qos_dial_options pol)) (sent fd w1) [] q w1" "running q" "send_queue q = []"
    unfolding qos_address_text by (rule conn_dial [OF _ qos_options(3) [OF assms(2)]])
  then show ?thesis by (rule that)
qed

lemma qos_client_run:
  assumes "connect_tcp (rt_sock rt) ''127.0.0.1'' 9001 w = (ResVal fd, w1)" "qos_mode mode = Some (pol, banner)"
  shows "\<exists>j k t t' w'. qos_test_main (posix_api rt) prog [mode] w
       = Some (Out banner # map (\<lambda>i. Out (''Sent message '' @ to_string_nat i)) [0..<j] @ t
            @ map (\<lambda>x. Out (''Received echo: '' @ string_of_bytes x)) (take k (decode_frames (rt_endian rt) (pending fd w1))) @ t', 0, w')
     \<and> loop_tail (\<lambda>i. ''send '' @ to_string_nat i @ '' failed: '') j 50 t
     \<and> loop_tail (\<lambda>i. ''recv '' @ to_string_nat i @ '' failed: '') k 50 t'
     \<and> k \<le> length (decode_frames (rt_endian rt) (pending fd w1))
     \<and> prefix (decode_frames e (drop (length (sent fd w1)) (sent fd w'))) (map (bytes_of_string \<circ> qos_text) [0..<50])"
proof -
  let ?o = "dial_qos (qos_dial_options pol)" and ?ar = "decode_frames (rt_endian rt) (pending fd w1)"
  obtain q where d: "lib_dial rt qos_address (qos_dial_options pol) w = Some (ResVal (WithQos q), w1)"
    "conn \<lparr>tcp_fd = fd\<rparr> ?o (sent fd w1) [] q w1"
    using qos_dials [OF assms(1)] qos_mode_policy [OF assms(2)] by metis
  have "queued_chan \<lparr>tcp_fd = fd\<rparr> ?o (sent fd w1) [] ?ar (WithQos q, w1)" using d(2) by (auto simp: queued_chan_def)
  from message_channel.both_loops_client [OF queued_channel [of "\<lparr>tcp_fd = fd\<rparr>" ?o "sent fd w1" e], of qos_address "qos_dial_options pol" w
      "WithQos q" w1 ?ar 50 qos_text "[banner]" "[]" "[]"
      "\<lambda>i. ''send '' @ to_string_nat i @ '' failed: ''" "\<lambda>i. ''Sent message '' @ to_string_nat i"
      "\<lambda>i. ''recv '' @ to_string_nat i @ '' failed: ''" "\<lambda>s. ''Received echo: '' @ s"] this d(1) qos_room
  obtain j k t t' w' where "client_program (posix_api rt) qos_address (qos_dial_options pol) [banner] [] []
      (both_loops (qos_send_turn (posix_api rt)) (qos_recv_turn (posix_api rt)) 50) w
    = Some (map Out ([banner] @ []) @ map (Out \<circ> (\<lambda>i. ''Sent message '' @ to_string_nat i)) [0..<j] @ t
        @ map (\<lambda>x. Out (''Received echo: '' @ string_of_bytes x)) (take k ?ar) @ t' @ map Out [], 0, w')"
    "loop_tail (\<lambda>i. ''send '' @ to_string_nat i @ '' failed: '') j 50 t"
    "loop_tail (\<lambda>i. ''recv '' @ to_string_nat i @ '' failed: '') k 50 t'" "k \<le> length ?ar"
    "prefix (decode_frames e (drop (length (sent fd w1)) (sent fd w'))) (map (bytes_of_string \<circ> qos_text) [0..<50])"
    unfolding posix_api_simps qos_send_turn_def qos_recv_turn_def TcpPipe.simps by blast
  with assms(2) qos_mode_policy [OF assms(2)] show ?thesis by (auto simp: qos_test_main_def qos_client_def comp_def)
qed

lemma qos_server_run:
  assumes "lib_listen rt qos_address ListenOptions_default w = (ResVal (ATcpListener l), w1)"
    and "tcp_accept (rt_sock rt) l w1 = (ResVal p, w2)"
  shows "\<exists>out w'. qos_test_main (posix_api rt) prog [''server''] w = Some (out, 0, w')
     \<and> prefix (decode_frames e (drop (length (sent (tcp_fd p) w2)) (sent (tcp_fd p) w')))
         (decode_frames (rt_endian rt) (pending (tcp_fd p) w2))"
proof -
  let ?ar = "decode_frames (rt_endian rt) (pending (tcp_fd p) w2)"
  have "tcp_fd p \<noteq> kInvalidSocket"
    using assms(2) by (auto simp: tcp_accept_def split: if_splits prod.splits)
  then have "plain_chan e p (sent (tcp_fd p) w2) [] ?ar (Plain (ATcpPipe p), w2)" by (simp add: plain_chan_def plain_half_def)
  moreover have "listener_accept rt (ATcpListener l) w1 = Some (ResVal (Plain (ATcpPipe p)), w2)"
    using assms(2) by (simp add: listener_accept_def)
  ultimately show ?thesis
    using message_channel.server_program_run [OF plain_channel [of e p "sent (tcp_fd p) w2"], of qos_address w "ATcpListener l" w1
        "Plain (ATcpPipe p)" w2 ?ar "\<lambda>m. m" "\<lambda>x. x"] assms(1)
    by (simp add: posix_api_simps tcp_lis_def qos_test_main_def qos_server_def qos_serve_turn_def)
qed

end

section \<open>End to end\<close>

text \<open>What the client reads are the answers to the first of its own messages, as many as it reads.\<close>

lemma echoes_match:
  assumes "prefix back (map rep there)" "prefix there (map f [0..<n])" "k \<le> length back" "k \<le> n"
  shows "take k back = map (rep \<circ> f) [0..<k]"
proof -
  have "prefix back (map (rep \<circ> f) [0..<n])"
    using assms(1) map_mono_prefix [OF assms(2), of rep] by (simp add: prefix_order.trans)
  then obtain rest where "map (rep \<circ> f) [0..<n] = back @ rest" by (auto elim: prefixE)
  then have "take k (map (rep \<circ> f) [0..<n]) = take k back" using assms(3) by simp
  with assms(4) show ?thesis by (simp add: take_map)
qed

lemma loop_tail_le: "loop_tail f k n t \<Longrightarrow> k \<le> n"
  by (auto simp: loop_tail_def split: if_splits)

lemma pair_tail_le: "pair_tail f g h k n t \<Longrightarrow> k \<le> n"
  by (auto simp: pair_tail_def split: if_splits)


lemma pipe_test_modes:
  "pipe_test_main api prog [''client'', nm] w =
     client_program api (''pipe://'' @ nm) DialOptions_default [''Starting Windows named pipe client to: '' @ nm]
       [''Connected to server!''] [''Client done.''] (for_break (pipe_client_turn api) 0 10) w"
  "pipe_test_main api prog [''server'', nm] w =
     server_program api (''pipe://'' @ nm) [''Starting Windows named pipe server: '' @ nm]
       [''Waiting for client connection...''] [''Client connected!''] [''Server done.''] (for_break (pipe_serve_turn api) 0 10) w"
  by (simp_all add: pipe_test_main_def)

text \<open>
  The named-pipe test end to end over any two channels of messages, such as those of the Windows build:
  if the connection is made and each side reads what the other delivered, both programs end with exit
  code 0, and every round the client completes prints the message it sent followed by exactly this
  message with \<open>Echo: \<close> before it; a round that fails ends the loop with a diagnostic.
\<close>

theorem pipe_test_end_to_end:
  assumes client: "message_channel capi cchan chalf cdelivered cfits clis"
      "api_dial capi (''pipe://'' @ nm) DialOptions_default cw = Some (ResVal cp, cw1)" "cchan [] (sdelivered sw') (cp, cw1)"
      "\<forall>j\<le>10. cfits (map (bytes_of_string \<circ> client_text) [0..<j])"
    and server: "message_channel sapi schan shalf sdelivered (\<lambda>_. True) slis"
      "api_listen sapi (''pipe://'' @ nm) sw = (ResVal l, sw1)" "slis l" "api_accept sapi l sw1 = Some (ResVal sp, sw2)"
      "schan [] (cdelivered cw') (sp, sw2)"
    and runs: "pipe_test_main capi cprog [''client'', nm] cw = Some (cout, cc, cw')"
      "pipe_test_main sapi sprog [''server'', nm] sw = Some (sout, sc, sw')"
  shows "sc = 0 \<and> cc = 0 \<and> (\<exists>k t.
       cout = [Out (''Starting Windows named pipe client to: '' @ nm), Out ''Connected to server!'']
         @ concat (map (\<lambda>i. [Out (''Client sent: '' @ client_text i), Out (''Client received: '' @ ''Echo: '' @ client_text i)]) [0..<k])
         @ t @ [Out ''Client done.'']
     \<and> pair_tail (\<lambda>i. ''Client sent: '' @ client_text i) (\<lambda>i. ''send failed: '') (\<lambda>i. ''recv failed: '') k 10 t)"
proof -
  let ?rep = "\<lambda>x. bytes_of_string (''Echo: '' @ string_of_bytes x)" and ?ar = "sdelivered sw'"
  have ans: "wf_Message (echo_answer m) \<and> view (echo_answer m) = ?rep (view m)" for m
    by (simp add: echo_answer_def) (simp add: from_string_def)
  obtain k t w where r: "pipe_test_main capi cprog [''client'', nm] cw
     = Some (map Out ([''Starting Windows named pipe client to: '' @ nm] @ [''Connected to server!''])
       @ concat (map2 (\<lambda>r x. [Out (''Client sent: '' @ client_text r), Out (''Client received: '' @ string_of_bytes x)]) [0..<k] (take k ?ar))
       @ t @ map Out [''Client done.''], 0, w)"
    "pair_tail (\<lambda>i. ''Client sent: '' @ client_text i) (\<lambda>i. ''send failed: '') (\<lambda>i. ''recv failed: '') k 10 t"
    "k \<le> length ?ar" "prefix (cdelivered w) (map (bytes_of_string \<circ> client_text) [0..<10])"
    using message_channel.pair_client [OF client] unfolding pipe_test_modes pipe_client_turn_def by blast
  have c: "cc = 0" "w = cw'" "cout = map Out ([''Starting Windows named pipe client to: '' @ nm] @ [''Connected to server!''])
       @ concat (map2 (\<lambda>r x. [Out (''Client sent: '' @ client_text r), Out (''Client received: '' @ string_of_bytes x)]) [0..<k] (take k ?ar))
       @ t @ map Out [''Client done.'']"
    using runs(1) unfolding r(1) by (simp_all only: option.inject prod.inject)
  obtain out w' where "pipe_test_main sapi sprog [''server'', nm] sw = Some (out, 0, w')" "prefix (sdelivered w') (map ?rep (cdelivered cw'))"
    using message_channel.server_program_run [where rep = ?rep and answer = echo_answer, OF server TrueI ans]
    unfolding pipe_test_modes pipe_serve_turn_def by blast
  with runs(2) have s: "sc = 0" "prefix ?ar (map ?rep (cdelivered cw'))" by auto
  have "take k ?ar = map (?rep \<circ> (bytes_of_string \<circ> client_text)) [0..<k]"
    by (rule echoes_match [OF s(2) r(4) [unfolded c(2)] r(3) pair_tail_le [OF r(2)]])
  then have "concat (map2 (\<lambda>r x. [Out (''Client sent: '' @ client_text r), Out (''Client received: '' @ string_of_bytes x)]) [0..<k] (take k ?ar))
      = concat (map (\<lambda>i. [Out (''Client sent: '' @ client_text i), Out (''Client received: '' @ ''Echo: '' @ client_text i)]) [0..<k])"
    by (simp add: zip_map2 zip_same_conv_map comp_def)
  with c(1,3) r(2) s(1) show ?thesis by auto
qed

lemma shm_test_modes:
  "shm_test_main api prog [''client'', nm] w =
     client_program api (''shm://'' @ nm) DialOptions_default [''Starting Windows shared memory client to bus: '' @ nm]
       [''Connected to server!''] [''Client done.''] (both_loops (shm_send_turn api) (shm_recv_turn api) 5) w"
  "shm_test_main api prog [''server'', nm] w =
     server_program api (''shm://'' @ nm) [''Starting Windows shared memory server on bus: '' @ nm]
       [''Waiting for client connection...''] [''Client connected!''] [''Server done.''] (for_break (shm_serve_turn api) 0 5) w"
  by (simp_all add: shm_test_main_def)

text \<open>
  The shared-memory test in the same way: five messages, all sent before the first echo is read.
\<close>

theorem shm_test_end_to_end:
  assumes client: "message_channel capi cchan chalf cdelivered cfits clis"
      "api_dial capi (''shm://'' @ nm) DialOptions_default cw = Some (ResVal cp, cw1)" "cchan [] (sdelivered sw') (cp, cw1)"
      "\<forall>j\<le>5. cfits (map (bytes_of_string \<circ> client_text) [0..<j])"
    and server: "message_channel sapi schan shalf sdelivered (\<lambda>_. True) slis"
      "api_listen sapi (''shm://'' @ nm) sw = (ResVal l, sw1)" "slis l" "api_accept sapi l sw1 = Some (ResVal sp, sw2)"
      "schan [] (cdelivered cw') (sp, sw2)"
    and runs: "shm_test_main capi cprog [''client'', nm] cw = Some (cout, cc, cw')"
      "shm_test_main sapi sprog [''server'', nm] sw = Some (sout, sc, sw')"
  shows "sc = 0 \<and> cc = 0 \<and> (\<exists>j k t t'.
       cout = [Out (''Starting Windows shared memory client to bus: '' @ nm), Out ''Connected to server!'']
         @ map (\<lambda>i. Out (''Client sent: '' @ client_text i)) [0..<j] @ t
         @ map (\<lambda>i. Out (''Client received echo: '' @ client_text i)) [0..<k] @ t' @ [Out ''Client done.'']
     \<and> loop_tail (\<lambda>i. ''send failed: '') j 5 t \<and> loop_tail (\<lambda>i. ''recv failed: '') k 5 t')"
proof -
  let ?ar = "sdelivered sw'"
  obtain j k t t' w where r: "shm_test_main capi cprog [''client'', nm] cw
     = Some (map Out ([''Starting Windows shared memory client to bus: '' @ nm] @ [''Connected to server!''])
       @ map (Out \<circ> (\<lambda>i. ''Client sent: '' @ client_text i)) [0..<j] @ t
       @ map (\<lambda>x. Out (''Client received echo: '' @ string_of_bytes x)) (take k ?ar) @ t' @ map Out [''Client done.''], 0, w)"
    "loop_tail (\<lambda>i. ''send failed: '') j 5 t" "loop_tail (\<lambda>i. ''recv failed: '') k 5 t'"
    "k \<le> length ?ar" "prefix (cdelivered w) (map (bytes_of_string \<circ> client_text) [0..<5])"
    using message_channel.both_loops_client [OF client] unfolding shm_test_modes shm_send_turn_def shm_recv_turn_def by blast
  have c: "cc = 0" "w = cw'" "cout = map Out ([''Starting Windows shared memory client to bus: '' @ nm] @ [''Connected to server!''])
       @ map (Out \<circ> (\<lambda>i. ''Client sent: '' @ client_text i)) [0..<j] @ t
       @ map (\<lambda>x. Out (''Client received echo: '' @ string_of_bytes x)) (take k ?ar) @ t' @ map Out [''Client done.'']"
    using runs(1) unfolding r(1) by (simp_all only: option.inject prod.inject)
  obtain out w' where "shm_test_main sapi sprog [''server'', nm] sw = Some (out, 0, w')" "prefix (sdelivered w') (map (\<lambda>x. x) (cdelivered cw'))"
    using message_channel.server_program_run [where rep = "\<lambda>x. x" and answer = "\<lambda>m. m", OF server TrueI]
    unfolding shm_test_modes shm_serve_turn_def by blast
  with runs(2) have s: "sc = 0" "prefix ?ar (map (\<lambda>x. x) (cdelivered cw'))" by auto
  have "take k ?ar = map ((\<lambda>x. x) \<circ> (bytes_of_string \<circ> client_text)) [0..<k]"
    by (rule echoes_match [OF s(2) r(5) [unfolded c(2)] r(4) loop_tail_le [OF r(3)]])
  with c(1,3) r(2,3) s(1) show ?thesis by (auto simp: comp_def)
qed

text \<open>
  In the POSIX build, which also builds the named-pipe test, both modes of it end at once with exit code
  1: the scheme is not dispatched.
\<close>

theorem pipe_test_posix:
  assumes "nm \<noteq> []"
  shows "pipe_test_main (posix_api rt) prog [''server'', nm] w
       = Some ([Out (''Starting Windows named pipe server: '' @ nm), Err ''listen failed: listen scheme not supported yet: pipe''], 1, w)
     \<and> pipe_test_main (posix_api rt) prog [''client'', nm] w
       = Some ([Out (''Starting Windows named pipe client to: '' @ nm), Err ''dial failed: dial scheme not supported yet: pipe''], 1, w)"
  using parse_named_text [of "''pipe''" nm] assms
  by (simp add: pipe_test_main_def server_program_def client_program_def posix_api_def lib_listen_def listen_def lib_dial_def dial_def
      scheme_of_text_def not_supported_def)

section \<open>The three client modes\<close>

text \<open>The same queue under another policy: the policy matters only to a send that finds the queue full.\<close>

definition with_policy :: "BackpressurePolicy \<Rightarrow> 'u QosPipe \<Rightarrow> 'u QosPipe" where
  "with_policy b q = q\<lparr>qos := (qos q)\<lparr>backpressure := b\<rparr>\<rparr>"

definition policy_pipe :: "BackpressurePolicy \<Rightarrow> any_pipe \<times> 'w \<Rightarrow> any_pipe \<times> 'w" where
  "policy_pipe b pw = (case fst pw of Plain p \<Rightarrow> Plain p | WithQos q \<Rightarrow> WithQos (with_policy b q), snd pw)"

lemma snd_policy_pipe [simp]: "snd (policy_pipe b pw) = snd pw"
  by (simp add: policy_pipe_def)

lemma with_policy_simps [simp]:
  "underlying (with_policy b q) = underlying q" "send_queue (with_policy b q) = send_queue q" "running (with_policy b q) = running q"
  "send_bytes (with_policy b q) = send_bytes q" "send_count (with_policy b q) = send_count q"
  "snd_hwm_bytes (qos (with_policy b q)) = snd_hwm_bytes (qos q)" "qos_ttl (qos (with_policy b q)) = qos_ttl (qos q)"
  "at_limit (with_policy b q) = at_limit q" "too_old now (qos (with_policy b q)) = too_old now (qos q)"
  "can_send_message now (with_policy b q) = can_send_message now q" "attach w (with_policy b q) = with_policy b (attach w q)"
  by (auto simp: with_policy_def at_limit_def too_old_def can_send_message_def attach_def fun_eq_iff)

lemma with_policy_updates:
  "with_policy b (q\<lparr>underlying := u\<rparr>) = (with_policy b q)\<lparr>underlying := u\<rparr>"
  "with_policy b (q\<lparr>running := r\<rparr>) = (with_policy b q)\<lparr>running := r\<rparr>"
  "with_policy b (q\<lparr>send_queue := qs\<rparr>) = (with_policy b q)\<lparr>send_queue := qs\<rparr>"
  "with_policy b (q\<lparr>send_bytes := x\<rparr>) = (with_policy b q)\<lparr>send_bytes := x\<rparr>"
  "with_policy b (q\<lparr>send_count := x\<rparr>) = (with_policy b q)\<lparr>send_count := x\<rparr>"
  by (simp_all add: with_policy_def)

lemma remove_expired_policy: "remove_expired now (qos (with_policy b q)) qs x y = remove_expired now (qos q) qs x y"
  by (induction qs arbitrary: x y) simp_all

lemma process_expired_policy: "process_expired now (with_policy b q) = with_policy b (process_expired now q)"
  by (simp add: process_expired_def remove_expired_policy with_policy_updates split: prod.splits)

lemma drop_front_policy: "drop_front (with_policy b q) = with_policy b (drop_front q)"
  by (simp add: drop_front_def with_policy_updates split: list.splits)

lemma worker_turn_policy:
  "worker_turn usend now1 now2 (with_policy b q) = (case worker_turn usend now1 now2 q of (out, q', ph) \<Rightarrow> (out, with_policy b q', ph))"
  by (auto simp: worker_turn_def process_expired_policy Let_def drop_front_policy with_policy_updates
      simp flip: with_policy_updates split: list.splits prod.splits)

lemma qos_turns_policy: "qos_turns rt ts (with_policy b q) = with_policy b (qos_turns rt ts q)"
proof (induction ts arbitrary: q)
  case (Cons n ts)
  then show ?case by (cases n) (simp add: worker_turn_policy split: prod.splits)
qed simp

lemma detach_policy: "detach (with_policy b q) = map_option (\<lambda>(q', w). (with_policy b q', w)) (detach q)"
  by (cases "underlying q") (auto simp: detach_def with_policy_def)

lemma send_enqueue_policy:
  "send_enqueue now m (with_policy b q) = (case send_enqueue now m q of (st, acc, q') \<Rightarrow> (st, acc, with_policy b q'))"
  by (simp add: send_enqueue_def with_policy_updates)

text \<open>Calls on the pipe under the other policy do the same, a send as long as it finds room.\<close>

lemma qos_elapse_policy:
  "qos_elapse rt (with_policy b q, w) = map_option (\<lambda>(q', w'). (with_policy b q', w')) (qos_elapse rt (q, w))"
  by (simp add: qos_elapse_def qos_turns_policy detach_policy split: prod.splits)

lemma pipe_recv_policy:
  "pipe_recv rt ropt (policy_pipe b pw) = map_option (\<lambda>(r, pw'). (r, policy_pipe b pw')) (pipe_recv rt ropt pw)"
proof (cases "fst pw")
  case (Plain p)
  then show ?thesis by (cases pw) (auto simp: policy_pipe_def pipe_recv_def option.map_comp comp_def case_prod_unfold)
next
  case (WithQos q)
  then show ?thesis
    by (cases pw) (auto simp: policy_pipe_def pipe_recv_def qos_elapse_policy with_policy_updates option.map_comp comp_def
        case_prod_unfold map_option_bind bind_map_option intro!: Option.bind_cong)
qed

lemma pipe_close_policy:
  "pipe_close rt (policy_pipe b pw) = map_option (policy_pipe b) (pipe_close rt pw)"
proof (cases "fst pw")
  case (Plain p)
  then show ?thesis by (cases pw) (auto simp: policy_pipe_def pipe_close_def case_prod_beta)
next
  case (WithQos q)
  then show ?thesis
    by (cases pw) (auto simp: policy_pipe_def pipe_close_def qos_elapse_policy qos_close_def with_policy_updates option.map_comp comp_def
        case_prod_beta intro!: option.map_cong)
qed

context runtime_contract
begin

lemma pipe_send_policy:
  assumes "conn t opts s0 ms q w" "msg_bytes ms + msg_size m < unat (snd_hwm_bytes opts)"
  shows "pipe_send rt m opt (policy_pipe b (WithQos q, w)) = map_option (\<lambda>(st, pw'). (st, policy_pipe b pw')) (pipe_send rt m opt (WithQos q, w))"
proof (cases "running q")
  case False
  then show ?thesis by (simp add: policy_pipe_def pipe_send_def)
next
  case True
  obtain sch w1 where sch: "rt_sched rt w = (sch, w1)" by force
  obtain Q w2 where Q: "qos_turns rt (sched_turns sch) (attach w1 q) = Q" "underlying Q = Some (ATcpPipe t, w2)"
    "turns_effect t w q Q w2" using conn_scheduled [OF assms(1) sch] by blast
  obtain q2 where d: "detach Q = Some (q2, w2)" using Q(2) by (simp add: detach_def)
  note e = turns_effect_detach [OF d Q(3)]
  have "conn t opts s0 ms q2 w2" using conn_turns [OF assms(1) True e(1)] e(2) Q(2) by simp
  from conn_room [OF this assms(2)] have "\<not> at_limit Q" "\<not> size_u64 m > snd_hwm_bytes (qos Q)"
    using d by (auto simp: at_limit_def detach_def)
  then have "qos_send now m Q = (if running Q then send_enqueue now m Q else (Some (closed_status ''pipe closed''), [], Q))"
    "qos_send now m (with_policy b Q) =
       (if running Q then send_enqueue now m (with_policy b Q) else (Some (closed_status ''pipe closed''), [], with_policy b Q))" for now
    by (simp_all add: qos_send_def send_check_def send_locked_def)
  then show ?thesis
    using True sch Q(1,2)
    by (cases "running Q")
      (simp_all add: policy_pipe_def pipe_send_def qos_turns_policy send_enqueue_def detach_def, simp_all add: with_policy_def)
qed

end

text \<open>A loop whose body commutes with a change of the state, as long as an invariant holds, does so itself.\<close>

lemma for_break_commutes:
  assumes "\<And>i s. i < m \<Longrightarrow> R i s \<Longrightarrow> body i (f s) = map_option (\<lambda>(ls, go, s'). (ls, go, f s')) (body i s)"
    and "\<And>i s ls s'. i < m \<Longrightarrow> R i s \<Longrightarrow> body i s = Some (ls, True, s') \<Longrightarrow> R (Suc i) s'"
    and "R i s" "i + n \<le> m"
  shows "for_break body i n (f s) = map_option (\<lambda>(ls, s'). (ls, f s')) (for_break body i n s)"
  using assms(3,4)
proof (induction n arbitrary: i s)
  case (Suc n)
  note b = assms(1) [of i s]
  show ?case
  proof (cases "body i s")
    case (Some x)
    then obtain ls go s1 where x: "body i s = Some (ls, go, s1)" by (cases x) auto
    then show ?thesis using Suc b assms(2) [of i s ls s1]
      by (cases go) (auto simp: option.map_comp comp_def case_prod_beta)
  qed (use Suc b in simp)
qed simp

context runtime_contract
begin

lemma qos_turn_send:
  assumes "conn t opts s0 xs q w" "snd_hwm_bytes opts = 1024" "msg_bytes xs \<le> 10 * i" "i < 50"
  shows "qos_send_turn (posix_api rt) i (policy_pipe b (WithQos q, w))
       = map_option (\<lambda>(ls, go, s'). (ls, go, policy_pipe b s')) (qos_send_turn (posix_api rt) i (WithQos q, w))"
    and "qos_send_turn (posix_api rt) i (WithQos q, w) = Some (ls, True, s') \<Longrightarrow>
      \<exists>q' w' ys. s' = (WithQos q', w') \<and> conn t opts s0 ys q' w' \<and> msg_bytes ys \<le> 10 * Suc i"
proof -
  let ?m = "from_string (qos_text i)"
  have sz: "msg_size ?m \<le> 10" using qos_text_length [of i] assms(4) by (simp add: from_string_def)
  then have room: "msg_bytes xs + msg_size ?m < unat (snd_hwm_bytes opts)" using assms(2-4) by simp
  show "qos_send_turn (posix_api rt) i (policy_pipe b (WithQos q, w))
       = map_option (\<lambda>(ls, go, s'). (ls, go, policy_pipe b s')) (qos_send_turn (posix_api rt) i (WithQos q, w))"
    by (simp add: qos_send_turn_def send_turn_def posix_api_simps pipe_send_policy [OF assms(1) room] split: option.split prod.split)
  assume run: "qos_send_turn (posix_api rt) i (WithQos q, w) = Some (ls, True, s')"
  obtain st q' w' where s: "pipe_send rt ?m SendOptions_default (WithQos q, w) = Some (st, WithQos q', w')"
    "if status_ok st then conn t opts s0 (xs @ [?m]) q' w' else True"
    using conn_send [OF assms(1) wf_from_string room, of SendOptions_default] by (auto split: if_splits)
  with run have "s' = (WithQos q', w')" "conn t opts s0 (xs @ [?m]) q' w'"
    by (auto simp: qos_send_turn_def send_turn_def posix_api_simps split: if_splits)
  with sz assms(3) show "\<exists>q' w' ys. s' = (WithQos q', w') \<and> conn t opts s0 ys q' w' \<and> msg_bytes ys \<le> 10 * Suc i"
    by (intro exI [of _ q'] exI [of _ w'] exI [of _ "xs @ [?m]"]) simp
qed

lemma qos_loops_policy:
  assumes "conn t opts s0 [] q w" "snd_hwm_bytes opts = 1024"
  shows "both_loops (qos_send_turn (posix_api rt)) (qos_recv_turn (posix_api rt)) 50 (policy_pipe b (WithQos q, w))
    = map_option (\<lambda>(ls, pw). (ls, policy_pipe b pw)) (both_loops (qos_send_turn (posix_api rt)) (qos_recv_turn (posix_api rt)) 50 (WithQos q, w))"
proof -
  let ?R = "\<lambda>i s. \<exists>q w xs. s = (WithQos q, w) \<and> conn t opts s0 xs q w \<and> msg_bytes xs \<le> 10 * i"
  have "for_break (qos_send_turn (posix_api rt)) 0 50 (policy_pipe b (WithQos q, w))
      = map_option (\<lambda>(ls, s'). (ls, policy_pipe b s')) (for_break (qos_send_turn (posix_api rt)) 0 50 (WithQos q, w))"
  proof (rule for_break_commutes [where m = 50 and R = ?R])
    fix i s
    assume i: "i < 50" "?R i s"
    then show "qos_send_turn (posix_api rt) i (policy_pipe b s)
        = map_option (\<lambda>(ls, go, s'). (ls, go, policy_pipe b s')) (qos_send_turn (posix_api rt) i s)"
      using qos_turn_send(1) [OF _ assms(2)] by blast
    show "?R (Suc i) s'" if "qos_send_turn (posix_api rt) i s = Some (ls, True, s')" for ls s'
      using i that qos_turn_send(2) [OF _ assms(2)] by blast
  qed (use assms(1) in auto)
  moreover have "for_break (qos_recv_turn (posix_api rt)) 0 50 (policy_pipe b s)
      = map_option (\<lambda>(ls, s'). (ls, policy_pipe b s')) (for_break (qos_recv_turn (posix_api rt)) 0 50 s)" for s
    by (rule for_break_commutes [where m = 50 and R = "\<lambda>_ _. True"])
      (simp_all add: qos_recv_turn_def recv_turn_def posix_api_simps pipe_recv_policy split: option.split prod.split Result.split)
  ultimately show ?thesis
    by (auto simp: both_loops_def option.map_comp comp_def case_prod_unfold split: option.split)
qed

lemma qos_dial_text:
  "lib_dial rt qos_address opt w =
     Some (as_tcp (dial_qos opt) (tcp_dial (rt_sock rt) \<lparr>host = ''127.0.0.1'', port = 9001\<rparr> opt w))"
  unfolding lib_dial_def qos_address_text
  using dial_tcp_text [of "rt_sock rt" "rt_shm rt" "rt_send rt" "fst (rt_random rt)" "snd (rt_random rt)" "''127.0.0.1''" 9001 opt w]
  by simp

text \<open>A client mode, up to its first line, is the same computation as the blocking one.\<close>

lemma qos_client_policy:
  assumes "pol \<noteq> kDropOld"
  shows "qos_client (posix_api rt) pol banner w
     = map_option (\<lambda>(ls, c, w'). (Out banner # tl ls, c, w')) (qos_client (posix_api rt) kBlock any w)"
proof -
  obtain r w1 where c: "connect_tcp (rt_sock rt) ''127.0.0.1'' 9001 w = (r, w1)" by force
  note dial = qos_dial_text
  show ?thesis
  proof (cases r)
    case (ResErr st)
    with c show ?thesis by (simp add: qos_client_def client_program_def posix_api_simps dial as_tcp_def tcp_dial_def)
  next
    case (ResVal fd)
    then obtain q where q: "lib_dial rt qos_address (qos_dial_options kBlock) w = Some (ResVal (WithQos q), w1)"
      "conn \<lparr>tcp_fd = fd\<rparr> (dial_qos (qos_dial_options kBlock)) (sent fd w1) [] q w1"
      using qos_dials [of w fd w1 kBlock] c by auto
    have "q = mk_QosPipe (ATcpPipe \<lparr>tcp_fd = fd\<rparr>) (dial_qos (qos_dial_options kBlock))"
      using q(1) c ResVal unfolding dial by (simp add: as_tcp_def tcp_dial_def wrap_qos_def qos_options)
    then have "lib_dial rt qos_address (qos_dial_options pol) w = Some (ResVal (fst (policy_pipe pol (WithQos q, w1))), w1)"
      using c ResVal unfolding dial
      by (simp add: as_tcp_def tcp_dial_def wrap_qos_def qos_options policy_pipe_def with_policy_def mk_QosPipe_def qos_dial_options_def)
    moreover have "(fst (policy_pipe pol (WithQos q, w1)), w1) = policy_pipe pol (WithQos q, w1)" by (simp add: policy_pipe_def)
    ultimately show ?thesis
      using q(1) qos_loops_policy [OF q(2), of pol] qos_options(1)
      by (auto simp: qos_client_def client_program_def posix_api_simps pipe_close_policy option.map_comp comp_def
          case_prod_unfold split: option.split intro!: option.map_cong)
  qed
qed

lemma qos_client_returns: "\<exists>ls c w'. qos_client (posix_api rt) kBlock ''Client with BLOCK backpressure'' w = Some (Out ''Client with BLOCK backpressure'' # ls, c, w')"
proof -
  obtain r w1 where c: "connect_tcp (rt_sock rt) ''127.0.0.1'' 9001 w = (r, w1)" by force
  show ?thesis
  proof (cases r)
    case (ResErr st)
    with c show ?thesis by (simp add: qos_client_def client_program_def posix_api_simps qos_dial_text as_tcp_def tcp_dial_def)
  next
    case (ResVal fd)
    have mode: "qos_mode ''client-block'' = Some (kBlock, ''Client with BLOCK backpressure'')" by (simp add: qos_mode_def)
    have "qos_test_main (posix_api rt) [] [''client-block''] w = qos_client (posix_api rt) kBlock ''Client with BLOCK backpressure'' w"
      using mode by (simp add: qos_test_main_def)
    with qos_client_run [OF c [unfolded ResVal] mode, of "[]" Little] show ?thesis by metis
  qed
qed

end

text \<open>
  C21: The three client modes of the quality-of-service test are indistinguishable: whatever the network and
  the schedule do, they end alike, with the same exit code, the same world and, after the line that
  names the mode, the same output. The fifty messages come to 490 bytes, so the queue never reaches the
  limit of 1024 bytes the modes set, and no policy is ever consulted.
\<close>

theorem qos_test_modes_alike:
  assumes "runtime_contract rt sent signals pending"
  shows "\<exists>out c w'. qos_test_main (posix_api rt) prog [''client-block''] w = Some (Out ''Client with BLOCK backpressure'' # out, c, w')
     \<and> qos_test_main (posix_api rt) prog [''client-drop''] w = Some (Out ''Client with DROP_NEW backpressure'' # out, c, w')
     \<and> qos_test_main (posix_api rt) prog [''client-failfast''] w = Some (Out ''Client with FAIL_FAST backpressure'' # out, c, w')"
proof -
  obtain ls c w' where b: "qos_client (posix_api rt) kBlock ''Client with BLOCK backpressure'' w
      = Some (Out ''Client with BLOCK backpressure'' # ls, c, w')"
    using runtime_contract.qos_client_returns [OF assms] by blast
  note p = runtime_contract.qos_client_policy [OF assms, where any = "''Client with BLOCK backpressure''", unfolded b]
  show ?thesis using b p [of kDropNew] p [of kFailFast] by (simp add: qos_test_main_def qos_mode_def)
qed

section \<open>Runs over the scripted runtime\<close>

lemma qos_test_modes_alike_witness:
  "\<exists>out c w'. qos_test_main (posix_api script_runtime) ''qos_test'' [''client-drop''] \<lparr>outgoing = [], incoming = [], script = [Chunk 3]\<rparr>
     = Some (Out ''Client with DROP_NEW backpressure'' # out, c, w')"
  using qos_test_modes_alike [OF script_api.runtime_contract_axioms, of "''qos_test''" "\<lparr>outgoing = [], incoming = [], script = [Chunk 3]\<rparr>"]
  by blast

lemma script_connects_qos: "connect_tcp (rt_sock script_runtime) ''127.0.0.1'' 9001 w = (ResVal 3, w)"
  by (simp add: connect_tcp_def script_runtime_def script_net_def kInvalidSocket_def)

lemma script_listens_qos:
  "lib_listen script_runtime qos_address ListenOptions_default w
     = (ResVal (ATcpListener \<lparr>tl_fd = 3, tl_host = ''127.0.0.1'', tl_port = 9001\<rparr>), w)"
  using parse_tcp_port [of "''127.0.0.1''" 9001]
  by (simp add: qos_address_text lib_listen_def listen_def tcp_listen_def listen_tcp_def script_runtime_def script_net_def
      kInvalidSocket_def)

lemma script_accepts_qos:
  "tcp_accept (rt_sock script_runtime) \<lparr>tl_fd = 3, tl_host = ''127.0.0.1'', tl_port = 9001\<rparr> w = (ResVal \<lparr>tcp_fd = 4\<rparr>, w)"
  by (simp add: tcp_accept_def script_runtime_def script_net_def kInvalidSocket_def)

lemma script_qos_server:
  "qos_test_main (posix_api script_runtime) prog [''server''] \<lparr>outgoing = [], incoming = [], script = []\<rparr>
     = Some ([Out ''Server listening on tcp://127.0.0.1:9001'', Out ''Client connected'', Err ''recv failed: peer closed''], 0,
         \<lparr>outgoing = [], incoming = [], script = []\<rparr>)"
proof -
  have fd: "tcp_fd \<lparr>tcp_fd = 4\<rparr> \<noteq> kInvalidSocket" by (simp add: kInvalidSocket_def)
  show ?thesis
    by (simp add: qos_test_main_def qos_server_def server_program_def script_api.posix_api_simps script_listens_qos listener_accept_def
        script_accepts_qos [unfolded script_rt] script_rt numeral_eq_Suc qos_serve_turn_def serve_turn_def script_api.pipe_recv_tcp [OF fd]
        script_read_end closed_status_def script_api.pipe_close_plain base_close_def tcp_close_def listener_close_def tcp_listener_close_def)
qed

lemma net_header_nonempty: "net_header h \<noteq> []"
  by (metis length_net_header list.size(3) zero_neq_numeral)

lemma script_broken:
  "msg_size m \<le> kMaxFramePayload \<Longrightarrow> write_frame e script_send fd m fl \<lparr>outgoing = x, incoming = y, script = [Fault (EOTHER n)]\<rparr>
     = Some (io_error ''send() failed'', \<lparr>outgoing = x, incoming = y, script = []\<rparr>)"
  by (simp add: write_frame_def encode_header_net kHeaderLen_def write_all.simps [of script_send fd _ "\<lparr>outgoing = x, incoming = y, script = [Fault (EOTHER n)]\<rparr>"]
      script_send_def Let_def net_header_nonempty io_error_def status_ok_def)

text \<open>A connection that breaks under the first frame: the second send reports it, and nothing is read.\<close>

lemma script_qos_client:
  "\<exists>w'. qos_test_main (posix_api script_runtime) prog [''client-failfast''] \<lparr>outgoing = [], incoming = [], script = [Fault (EOTHER 32)]\<rparr>
     = Some ([Out ''Client with FAIL_FAST backpressure'', Out ''Sent message 0'', Err ''send 1 failed: pipe closed'',
         Err ''recv 0 failed: peer closed''], 0, w') \<and> outgoing w' = []"
proof -
  let ?w = "\<lparr>outgoing = [], incoming = [], script = [Fault (EOTHER 32)]\<rparr>" and ?w1 = "\<lparr>outgoing = [], incoming = [], script = []\<rparr>"
  let ?t = "\<lparr>tcp_fd = 3\<rparr>" and ?o = "dial_qos (qos_dial_options kFailFast)" and ?m = "\<lambda>i. from_string (qos_text i)"
  let ?q = "mk_QosPipe (ATcpPipe ?t) ?o"
  let ?q1 = "?q\<lparr>send_queue := [\<lparr>qmessage = ?m 0, timestamp = 0\<rparr>], send_bytes := size_u64 (?m 0), send_count := 1\<rparr>"
  have fd: "tcp_fd ?t \<noteq> kInvalidSocket" by (simp add: kInvalidSocket_def)
  have num: "to_string_nat 0 = ''0''" "to_string_nat 1 = ''1''" by (simp_all add: to_string_nat.simps char_of_def bit_0)
  have sz: "size_u64 (?m 0) = 9" by (simp add: size_u64_def qos_text_def num from_string_def)
  have wf: "wf_Message (?m 0)" "msg_size (?m 0) \<le> kMaxFramePayload" by (simp_all add: qos_text_def num from_string_def kMaxFramePayload_def)
  have o: "snd_hwm_bytes ?o = 1024" "qos_ttl ?o = 0" by (simp_all add: qos_dial_options_def QosOptions_default_def)
  have dial: "lib_dial script_runtime qos_address (qos_dial_options kFailFast) ?w = Some (ResVal (WithQos ?q), ?w)"
    using script_connects_qos [of ?w] by (simp add: script_api.qos_dial_text as_tcp_def tcp_dial_def wrap_qos_def o)
  have empty: "qos_turns script_runtime ts (attach w ?q) = attach w ?q" for ts w
    by (rule script_api.qos_turns_empty) (simp_all add: mk_QosPipe_def o attach_def)
  have send0: "pipe_send script_runtime (?m 0) SendOptions_default (WithQos ?q, ?w) = Some (Status_Ok, WithQos ?q1, ?w)"
    unfolding pipe_send_def script_rt prod.case any_pipe.case sched.simps empty
    by (simp add: qos_send_def send_check_def send_locked_def at_limit_def send_enqueue_def detach_def attach_def mk_QosPipe_def o sz)
  have frame: "write_frame Little script_send 3 (?m 0) 0 ?w = Some (io_error ''send() failed'', ?w1)"
    using wf by (simp add: script_broken)
  have send1: "pipe_send script_runtime (?m 1) SendOptions_default (WithQos ?q1, ?w)
      = Some (closed_status ''pipe closed'', WithQos (?q1\<lparr>running := False\<rparr>), ?w1)"
    using fd frame
    by (simp add: pipe_send_def script_rt worker_turn_def process_expired_def can_send_message_def worker_send_def base_send_def
        tcp_send_def qos_send_def send_check_def detach_def attach_def mk_QosPipe_def o sz io_error_def status_ok_def)
  have recv: "pipe_recv script_runtime RecvOptions_default (WithQos (?q1\<lparr>running := False\<rparr>), ?w1)
      = Some (ResErr (closed_status ''peer closed''), WithQos (?q1\<lparr>running := False\<rparr>), ?w1)"
    using fd script_read_end [of ?w1 Little 3]
    by (simp add: pipe_recv_def qos_elapse_def base_recv_def tcp_recv_def script_rt mk_QosPipe_def)
  have "\<exists>pp w'. pipe_close script_runtime (WithQos (?q1\<lparr>running := False\<rparr>), ?w1) = Some (pp, w') \<and> outgoing w' = []"
    by (simp add: pipe_close_def qos_elapse_def base_close_def tcp_close_def script_rt mk_QosPipe_def)
  then obtain pp w' where close: "pipe_close script_runtime (WithQos (?q1\<lparr>running := False\<rparr>), ?w1) = Some (pp, w')" "outgoing w' = []" by blast
  have sends: "for_break (qos_send_turn (posix_api script_runtime)) 0 50 (WithQos ?q, ?w)
      = Some ([Out ''Sent message 0'', Err ''send 1 failed: pipe closed''], WithQos (?q1\<lparr>running := False\<rparr>), ?w1)"
    using send0 send1
    by (simp add: numeral_eq_Suc qos_send_turn_def send_turn_def script_api.posix_api_simps num num(2) [simplified] closed_status_def
        status_ok_def Status_Ok_def)
  have recvs: "for_break (qos_recv_turn (posix_api script_runtime)) 0 50 (WithQos (?q1\<lparr>running := False\<rparr>), ?w1)
      = Some ([Err ''recv 0 failed: peer closed''], WithQos (?q1\<lparr>running := False\<rparr>), ?w1)"
    using recv by (simp add: numeral_eq_Suc qos_recv_turn_def recv_turn_def script_api.posix_api_simps num closed_status_def)
  show ?thesis
    using close
    by (simp add: qos_test_main_def qos_mode_def qos_client_def client_program_def script_api.posix_api_simps dial both_loops_def sends recvs)
qed


text \<open>Two scripted connections behind the addresses of the named-pipe test; the client's breaks at once.\<close>

definition named_api :: "(any_listener, any_pipe, sock_world) duct_api" where
  "named_api = (posix_api script_runtime)\<lparr>
     api_listen := (\<lambda>a w. (ResVal (ATcpListener \<lparr>tl_fd = 3, tl_host = ''127.0.0.1'', tl_port = 9001\<rparr>), w)),
     api_accept := (\<lambda>l w. Some (ResVal (Plain (ATcpPipe \<lparr>tcp_fd = 4\<rparr>)), w)),
     api_dial := (\<lambda>a opt w. Some (ResVal (Plain (ATcpPipe \<lparr>tcp_fd = 3\<rparr>)), w))\<rparr>"

lemma named_api_simps:
  "api_send named_api = pipe_send script_runtime" "api_recv named_api = pipe_recv script_runtime" "api_close named_api = pipe_close script_runtime"
  "api_unlisten named_api l w = snd (listener_close script_runtime (l, w))"
  "api_listen named_api a w = (ResVal (ATcpListener \<lparr>tl_fd = 3, tl_host = ''127.0.0.1'', tl_port = 9001\<rparr>), w)"
  "api_accept named_api l w = Some (ResVal (Plain (ATcpPipe \<lparr>tcp_fd = 4\<rparr>)), w)"
  "api_dial named_api a opt w = Some (ResVal (Plain (ATcpPipe \<lparr>tcp_fd = 3\<rparr>)), w)"
  by (simp_all add: named_api_def posix_api_def)

lemma named_channel:
  "message_channel named_api (script_api.plain_chan e t s0) (script_api.plain_half e t s0)
     (\<lambda>w. decode_frames e (drop (length s0) (outgoing w))) (\<lambda>_. True) script_api.tcp_lis"
  using script_plain.message_channel_axioms [of e t s0]
  by (simp add: message_channel_def named_api_simps script_api.posix_api_simps)

lemma pipe_test_end_to_end_witness:
  "\<exists>cout cc cw' sout sc sw'. pipe_test_main named_api ''c'' [''client'', ''x''] \<lparr>outgoing = [], incoming = [], script = [Fault (EOTHER 32)]\<rparr> = Some (cout, cc, cw')
     \<and> pipe_test_main named_api ''s'' [''server'', ''x''] \<lparr>outgoing = [], incoming = [], script = []\<rparr> = Some (sout, sc, sw')
     \<and> sc = 0 \<and> cc = 0 \<and> (\<exists>k t. cout = [Out (''Starting Windows named pipe client to: '' @ ''x''), Out ''Connected to server!'']
         @ concat (map (\<lambda>i. [Out (''Client sent: '' @ client_text i), Out (''Client received: '' @ ''Echo: '' @ client_text i)]) [0..<k])
         @ t @ [Out ''Client done.''])"
proof -
  let ?cw = "\<lparr>outgoing = [], incoming = [], script = [Fault (EOTHER 32)]\<rparr>" and ?sw = "\<lparr>outgoing = [], incoming = [], script = []\<rparr>"
  have fd: "tcp_fd \<lparr>tcp_fd = 3\<rparr> \<noteq> kInvalidSocket" "tcp_fd \<lparr>tcp_fd = 4\<rparr> \<noteq> kInvalidSocket" by (simp_all add: kInvalidSocket_def)
  have num: "to_string_nat 0 = ''0''" by (simp add: to_string_nat.simps char_of_def bit_0)
  have sz: "msg_size (from_string (client_text 0)) \<le> kMaxFramePayload" by (simp add: client_text_def num from_string_def kMaxFramePayload_def)
  have c: "pipe_test_main named_api ''c'' [''client'', ''x''] ?cw
      = Some ([Out ''Starting Windows named pipe client to: x'', Out ''Connected to server!'', Err ''send failed: send() failed'', Out ''Client done.''], 0, ?sw)"
    using sz fd
    by (simp add: pipe_test_modes client_program_def named_api_simps numeral_eq_Suc pipe_client_turn_def then_turn_def send_turn_def
        script_api.pipe_send_tcp [OF fd(1)] script_broken script_rt io_error_def status_ok_def script_api.pipe_close_plain base_close_def tcp_close_def)
  have s: "pipe_test_main named_api ''s'' [''server'', ''x''] ?sw
      = Some ([Out ''Starting Windows named pipe server: x'', Out ''Waiting for client connection...'', Out ''Client connected!'',
          Err ''recv failed: peer closed'', Out ''Server done.''], 0, ?sw)"
    using fd
    by (simp add: pipe_test_modes server_program_def named_api_simps numeral_eq_Suc pipe_serve_turn_def serve_turn_def
        script_api.pipe_recv_tcp [OF fd(2)] script_read_end script_rt closed_status_def script_api.pipe_close_plain base_close_def tcp_close_def
        listener_close_def tcp_listener_close_def)
  have chans: "script_api.plain_chan Little \<lparr>tcp_fd = 3\<rparr> [] [] (decode_frames Little (drop (length []) (outgoing ?sw))) (Plain (ATcpPipe \<lparr>tcp_fd = 3\<rparr>), ?cw)"
    "script_api.plain_chan Little \<lparr>tcp_fd = 4\<rparr> [] [] (decode_frames Little (drop (length []) (outgoing ?sw))) (Plain (ATcpPipe \<lparr>tcp_fd = 4\<rparr>), ?sw)"
    using fd by (simp_all add: script_api.plain_chan_def script_api.plain_half_def script_rt)
  have l: "script_api.tcp_lis (ATcpListener \<lparr>tl_fd = 3, tl_host = ''127.0.0.1'', tl_port = 9001\<rparr>)" by (simp add: script_api.tcp_lis_def)
  note run = pipe_test_end_to_end [OF named_channel [of Little "\<lparr>tcp_fd = 3\<rparr>" "[]"] named_api_simps(7) chans(1) _
      named_channel [of Little "\<lparr>tcp_fd = 4\<rparr>" "[]"] named_api_simps(5) l named_api_simps(6) chans(2) c s]
  show ?thesis by (rule exI, rule exI, rule exI, rule exI, rule exI, rule exI, rule conjI, rule c, rule conjI, rule s) (use run in blast)
qed

end
