(* ===== verification/Duct_Delivery.thy ===== *)
theory Duct_Delivery
  imports Duct_Conn
begin

text \<open>
  What a dialled TCP pipe delivers when the network holds: over a connection whose \<open>send\<close> calls do not
  fail, and with a worker that gets enough turns, everything accepted reaches the wire before the
  connection is closed. (\<^verbatim>\<open>Duct_Conn\<close> says what is left of this without these assumptions: a front part.)
\<close>

section \<open>A connection that holds\<close>

locale holding_send =
  fixes osend :: "'w sys_send"
  assumes send_progress: "p \<noteq> [] \<Longrightarrow> osend fd p w = (r, w') \<Longrightarrow> r = SendFail EINTR \<or> (\<exists>k>0. r = SendOk k)"
begin

lemma write_all_ok:
  assumes "write_all osend fd p w = Some r"
  shows "status_ok (fst r)"
proof -
  have "osend = osend \<longrightarrow> status_ok (fst r)"
  proof (rule write_all.raw_induct [where P = "\<lambda>os fd p w r. os = osend \<longrightarrow> status_ok (fst r)", OF _ assms])
    fix wr os fd p w r
    assume IH: "\<And>os fd p w r. wr os fd p w = Some r \<Longrightarrow> os = osend \<longrightarrow> status_ok (fst r)"
      and call: "(if p = [] then Some (Status_Ok, w) else case os fd p w of (r, w') \<Rightarrow>
        (case r of SendFail e \<Rightarrow> if e = EINTR then wr os fd p w' else Some (io_error ''send() failed'', w')
         | SendOk k \<Rightarrow> if k = 0 then Some (closed_status ''peer closed'', w') else wr os fd (drop k p) w')) = Some r"
    obtain x w1 where x: "os fd p w = (x, w1)" by force
    show "os = osend \<longrightarrow> status_ok (fst r)"
      using call x send_progress [of p fd w x w1] IH [of os fd p w1 r] IH [of os fd _ w1 r]
      by (cases x) (auto split: if_splits)
  qed
  then show ?thesis by simp
qed

lemma write_frame_ok:
  assumes "write_frame e osend fd m fl w = Some (st, w')" "msg_size m \<le> kMaxFramePayload"
  shows "status_ok st"
  using assms by (auto simp: write_frame_def Let_def split: option.splits if_splits dest!: write_all_ok)

end

locale holding_recv =
  fixes orecv :: "'w sys_recv"
  assumes recv_progress: "orecv fd n w = (RecvFail er, w') \<Longrightarrow> er = EINTR"
begin

lemma read_exact_holds:
  assumes "read_exact orecv fd n buf w = Some r"
  shows "code (fst r) \<noteq> kIoError"
proof -
  have "orecv = orecv \<longrightarrow> code (fst r) \<noteq> kIoError"
  proof (rule read_exact.raw_induct [where P = "\<lambda>os fd n buf w r. os = orecv \<longrightarrow> code (fst r) \<noteq> kIoError", OF _ assms])
    fix rd os fd n buf w r
    assume IH: "\<And>os fd n buf w r. rd os fd n buf w = Some r \<Longrightarrow> os = orecv \<longrightarrow> code (fst r) \<noteq> kIoError"
      and call: "(if n = 0 then Some (Status_Ok, buf, w) else case os fd n w of (r, w') \<Rightarrow>
        (case r of RecvFail e \<Rightarrow> if e = EINTR then rd os fd n buf w' else Some (io_error ''recv() failed'', buf, w')
         | RecvOk bs \<Rightarrow> if bs = [] then Some (closed_status ''peer closed'', buf, w') else rd os fd (n - length bs) (buf @ bs) w')) = Some r"
    obtain x w1 where x: "os fd n w = (x, w1)" by force
    show "os = orecv \<longrightarrow> code (fst r) \<noteq> kIoError"
      using call x recv_progress [of fd n w _ w1] IH [of os fd n buf w1 r] IH [of os fd _ _ w1 r]
      by (cases x) (auto split: if_splits simp: Status_Ok_def closed_status_def)
  qed
  then show ?thesis by simp
qed

lemma decode_header_no_io: "decode_header e hdr = ResErr s \<Longrightarrow> code s \<noteq> kIoError"
  by (auto simp: decode_header_def Let_def protocol_error_def split: if_splits)

lemma read_frame_holds: "read_frame e orecv fd w = Some (ResErr s, w') \<Longrightarrow> code s \<noteq> kIoError"
  by (auto simp: read_frame_def split: option.splits if_splits Result.splits dest!: read_exact_holds dest: decode_header_no_io)

end

locale healthy_runtime = runtime_contract rt sent signals pending + holding_send "rt_send rt"
  for rt :: "'w runtime" and sent :: "int \<Rightarrow> 'w \<Rightarrow> byte_seq" and signals :: "'w \<Rightarrow> nat"
    and pending :: "int \<Rightarrow> 'w \<Rightarrow> byte_seq"
begin

section \<open>The worker's turns\<close>

text \<open>A queue the worker can empty: below the limit, and every message small enough for a frame.\<close>

definition sendable :: "TcpPipe \<Rightarrow> (base_pipe \<times> 'w) option QosPipe \<Rightarrow> bool" where
  "sendable t q \<longleftrightarrow>
     running q \<and> (\<exists>w. underlying q = Some (ATcpPipe t, w)) \<and> tcp_fd t \<noteq> kInvalidSocket \<and> qos_ttl (qos q) \<le> 0 \<and> qos_inv q
     \<and> msg_bytes (queued_now q) < unat (snd_hwm_bytes (qos q)) \<and> (\<forall>m\<in>set (queued_now q). msg_size m \<le> kMaxFramePayload)"

lemma sendable_below: "sendable t q \<Longrightarrow> \<not> at_limit q"
proof -
  assume "sendable t q"
  moreover have "unat (snd_hwm_bytes (qos q)) < 2 ^ 64" using unsigned_less [of "snd_hwm_bytes (qos q)"] by simp
  ultimately show ?thesis by (simp add: sendable_def at_limit_def qos_inv_def word_le_nat_alt unat_of_nat_small)
qed

lemma worker_turn_sends:
  assumes "sendable t q" "worker_turn (worker_send rt) now1 now2 q = (out, q', ph)"
  shows "sendable t q' \<and> send_queue q' = tl (send_queue q)"
proof -
  have same: "process_expired now1 q = q" using assms(1) by (simp add: sendable_def process_expired_def)
  show ?thesis
  proof (cases "send_queue q")
    case Nil
    with assms same show ?thesis by (auto simp: worker_turn_def sendable_def)
  next
    case (Cons qm rest)
    obtain w where u: "underlying q = Some (ATcpPipe t, w)" "tcp_fd t \<noteq> kInvalidSocket" using assms(1) by (auto simp: sendable_def)
    let ?m = "qmessage qm"
    have sz: "msg_size ?m \<le> kMaxFramePayload" using assms(1) Cons by (simp add: sendable_def queued_now_def)
    obtain st w' where s: "write_frame (rt_endian rt) (rt_send rt) (tcp_fd t) ?m 0 w = Some (st, w')"
      using write_frame_some by blast
    have call: "worker_send rt ?m SendOptions_default (underlying q) = (st, Some (ATcpPipe t, w'))"
      using s u by (simp add: worker_send_def base_send_def tcp_send_def)
    have "can_send_message now2 q qm"
      using assms(1) sendable_below [OF assms(1)] by (simp add: sendable_def can_send_message_def at_limit_def)
    then have q': "q' = drop_front (q\<lparr>underlying := Some (ATcpPipe t, w')\<rparr>)"
      using assms same Cons call write_frame_ok [OF s sz] by (auto simp: worker_turn_def sendable_def)
    then show ?thesis
      using assms(1) Cons drop_front_inv [of "q\<lparr>underlying := Some (ATcpPipe t, w')\<rparr>"]
      by (auto simp: sendable_def queued_now_def)
  qed
qed

lemma qos_turns_sends:
  "sendable t q \<Longrightarrow> sendable t (qos_turns rt ts q) \<and> send_queue (qos_turns rt ts q) = drop (length ts) (send_queue q)"
proof (induction ts arbitrary: q)
  case (Cons n ts)
  obtain now1 now2 out q1 ph where "n = (now1, now2)" "worker_turn (worker_send rt) now1 now2 q = (out, q1, ph)"
    by (metis prod_cases3 surj_pair)
  with worker_turn_sends [OF Cons.prems] Cons.IH [of q1] show ?case by (simp add: drop_Suc)
qed simp

section \<open>Calls on the pipe\<close>

text \<open>A connection below its limit, all of whose messages fit into frames, with a running worker.\<close>

definition alive :: "TcpPipe \<Rightarrow> QosOptions \<Rightarrow> Message list \<Rightarrow> base_pipe QosPipe \<Rightarrow> bool" where
  "alive t opts ms q \<longleftrightarrow>
     running q \<and> msg_bytes ms < unat (snd_hwm_bytes opts) \<and> (\<forall>m\<in>set ms. msg_size m \<le> kMaxFramePayload)"

lemma conn_sendable:
  assumes "conn t opts s0 ms q w" "alive t opts ms q"
  shows "sendable t (attach w' q)"
proof -
  have "subseq (queued_now q) ms" using assms(1) by (simp add: conn_def)
  then have "msg_bytes (queued_now q) \<le> msg_bytes ms" "set (queued_now q) \<subseteq> set ms"
    using msg_bytes_subseq by (auto elim: list_emb_set)
  with assms show ?thesis by (auto simp: sendable_def alive_def conn_def keeps_all_def)
qed

lemma healthy_send:
  assumes "conn t opts s0 ms q w" "alive t opts (ms @ [m]) q" "wf_Message m"
  shows "\<exists>st q' w'. pipe_send rt m sopt (WithQos q, w) = Some (st, WithQos q', w') \<and> status_ok st
     \<and> conn t opts s0 (ms @ [m]) q' w' \<and> alive t opts (ms @ [m]) q' \<and> length (send_queue q') \<le> Suc (length (send_queue q))"
proof -
  have run: "running q" and lt: "msg_bytes ms + msg_size m < unat (snd_hwm_bytes opts)" using assms(2) by (auto simp: alive_def)
  obtain sch w1 where sch: "rt_sched rt w = (sch, w1)" by force
  let ?Q = "qos_turns rt (sched_turns sch) (attach w1 q)"
  have "alive t opts ms q" using assms(2) by (auto simp: alive_def)
  then have sd: "sendable t ?Q" "send_queue ?Q = drop (length (sched_turns sch)) (send_queue q)"
    using qos_turns_sends [OF conn_sendable [OF assms(1), of w1], of "sched_turns sch"] by simp_all
  have Q: "running ?Q" "\<not> at_limit ?Q" using sd(1) sendable_below [OF sd(1)] by (simp_all add: sendable_def)
  obtain st q' w' where s: "pipe_send rt m sopt (WithQos q, w) = Some (st, WithQos q', w')"
    "if status_ok st then conn t opts s0 (ms @ [m]) q' w' else code st = kClosed \<and> \<not> running q' \<and> conn t opts s0 ms q' w'"
    using conn_send [OF assms(1,3) lt, of sopt] by blast
  have grown: "running q' \<and> length (send_queue q') \<le> Suc (length (send_queue q))"
    using s(1) run sch Q sd(2)
    by (auto simp: pipe_send_def qos_send_def send_check_def send_locked_def send_after_wait_def send_enqueue_def detach_def
        split: if_splits BackpressurePolicy.splits prod.splits option.splits)
  then have "status_ok st" "conn t opts s0 (ms @ [m]) q' w'" using s(2) by (auto split: if_splits)
  with s(1) grown assms(2) show ?thesis by (auto simp: alive_def)
qed

lemma healthy_batch:
  assumes "conn t opts s0 ms q w" "alive t opts (ms @ xs) q" "\<forall>m\<in>set xs. wf_Message m"
  shows "\<exists>q' w'. send_loop (pipe_send rt) xs k (WithQos q, w) = Some (ResVal (k + length xs), WithQos q', w')
     \<and> conn t opts s0 (ms @ xs) q' w' \<and> alive t opts (ms @ xs) q' \<and> length (send_queue q') \<le> length (send_queue q) + length xs"
  using assms
proof (induction xs arbitrary: ms q w k)
  case (Cons x xs)
  have "alive t opts (ms @ [x]) q" using Cons.prems(2) by (auto simp: alive_def)
  then obtain st q1 w1 where s: "pipe_send rt x SendOptions_default (WithQos q, w) = Some (st, WithQos q1, w1)" "status_ok st"
    "conn t opts s0 (ms @ [x]) q1 w1" "alive t opts (ms @ [x]) q1" "length (send_queue q1) \<le> Suc (length (send_queue q))"
    using healthy_send [OF Cons.prems(1), of x SendOptions_default] Cons.prems(3) by auto
  have "alive t opts ((ms @ [x]) @ xs) q1" using Cons.prems(2) s(4) by (auto simp: alive_def)
  from Cons.IH [OF s(3) this, of "Suc k"] Cons.prems(3) s(1,2,5) show ?case by auto
qed simp

lemma healthy_close:
  assumes "conn t opts s0 ms q w" "alive t opts ms q"
    and "length (send_queue q) \<le> length (sched_turns (fst (rt_sched rt w)))"
  shows "\<exists>pp w'. pipe_close rt (WithQos q, w) = Some (pp, w') \<and> sent (tcp_fd t) w' = s0 @ records ms"
proof -
  obtain sch w1 where sch: "rt_sched rt w = (sch, w1)" by force
  let ?Q = "qos_turns rt (sched_turns sch) (attach w1 q)"
  have Q: "sendable t ?Q" "send_queue ?Q = []"
    using qos_turns_sends [OF conn_sendable [OF assms(1,2), of w1], of "sched_turns sch"] assms(3) sch by simp_all
  obtain q1 w2 where el: "qos_elapse rt (q, w) = Some (q1, w2)" "conn t opts s0 ms q1 w2" using conn_elapse [OF assms(1)] by blast
  have "detach ?Q = Some (q1, w2)" using el(1) sch assms(2) by (simp add: qos_elapse_def alive_def)
  then have "running q1" "queued_now q1 = []"
    using Q by (auto simp: detach_def sendable_def queued_now_def)
  with el(2) have "sent (tcp_fd t) w2 = s0 @ records ms" "underlying q1 = ATcpPipe t" by (auto simp: conn_def)
  with el(1) base_close_sent [of "tcp_fd t" t w2] show ?thesis by (simp add: pipe_close_def case_prod_beta)
qed

lemma delivery_run:
  assumes "connect_tcp (rt_sock rt) (if h = [] then ''127.0.0.1'' else h) p w = (ResVal fd, w1)"
    and "keeps_all (dial_qos opt)" "msg_bytes ms < unat (snd_hwm_bytes (dial_qos opt))"
    and "\<forall>m\<in>set ms. wf_Message m \<and> msg_size m \<le> kMaxFramePayload"
    and "\<forall>w. length ms \<le> length (sched_turns (fst (rt_sched rt w)))"
  shows "\<exists>pp pp2 w2 pp3 w3 out. lib_dial rt (''tcp://'' @ h @ '':'' @ to_string_nat (unat p)) opt w = Some (ResVal pp, w1)
     \<and> send_batch (pipe_send rt) ms (pp, w1) = Some (ResVal (length ms), pp2, w2)
     \<and> pipe_close rt (pp2, w2) = Some (pp3, w3)
     \<and> sent fd w3 = sent fd w1 @ out \<and> decode_frames e out = map view ms"
proof -
  let ?t = "\<lparr>tcp_fd = fd\<rparr>" and ?o = "dial_qos opt"
  have "snd_hwm_bytes ?o \<noteq> 0" using assms(3) by auto
  with assms(1,2) obtain q where d: "lib_dial rt (''tcp://'' @ h @ '':'' @ to_string_nat (unat p)) opt w = Some (ResVal (WithQos q), w1)"
    "conn ?t ?o (sent fd w1) [] q w1" "running q" "send_queue q = []"
    by (rule conn_dial)
  have "alive ?t ?o ([] @ ms) q" using d(3) assms(3,4) by (simp add: alive_def)
  from healthy_batch [OF d(2) this, of 0] assms(4) obtain q2 w2 where b:
    "send_loop (pipe_send rt) ms 0 (WithQos q, w1) = Some (ResVal (length ms), WithQos q2, w2)"
    "conn ?t ?o (sent fd w1) ms q2 w2" "alive ?t ?o ms q2" "length (send_queue q2) \<le> length ms"
    using d(4) by auto
  obtain pp w3 where c: "pipe_close rt (WithQos q2, w2) = Some (pp, w3)" "sent fd w3 = sent fd w1 @ records ms"
    using healthy_close [OF b(2,3)] b(4) assms(5) by (metis TcpPipe.select_convs(1) order_trans)
  have "decode_frames e (concat (map tcp_record (map view ms))) = map view ms" using assms(4) by (intro decode_records) auto
  then have "decode_frames e (records ms) = map view ms" by (simp add: records_def)
  with d(1) b(1) c show ?thesis by (auto simp: send_batch_def)
qed

end

section \<open>Delivery\<close>


section \<open>A runtime that holds\<close>

text \<open>The scripted socket with every fault a signal, and a worker that gets three turns between two calls.\<close>

definition steady_send :: "sock_world sys_send" where
  "steady_send fd p w =
     (case script w of Fault e # es \<Rightarrow> (SendFail EINTR, w\<lparr>script := es\<rparr>) | _ \<Rightarrow> script_send fd p w)"

definition steady_runtime :: "sock_world runtime" where
  "steady_runtime = script_runtime\<lparr>rt_send := steady_send,
     rt_sched := (\<lambda>w. (\<lparr>sched_turns = replicate 3 (0, 0), sched_now = 0, sched_wait = []\<rparr>, w))\<rparr>"

lemmas steady_defs = steady_send_def script_send_def script_recv_def script_signals_def Let_def

lemma steady_socket: "stream_socket steady_send (\<lambda>fd. outgoing) script_signals script_recv (\<lambda>fd. incoming)"
  using script_in.stream_recv_axioms
  by (auto simp: stream_socket_def stream_socket_axioms_def stream_send_def send_keeps_def recv_keeps_def steady_defs
      split: list.splits io_event.splits if_splits)

interpretation steady_api: healthy_runtime steady_runtime "\<lambda>fd. outgoing" script_signals "\<lambda>fd. incoming"
  using steady_socket
  by (auto simp: healthy_runtime_def holding_send_def runtime_contract_def runtime_contract_axioms_def
      steady_runtime_def script_runtime_def script_net_def steady_defs split: list.splits io_event.splits)


end
