(* ===== verification/Duct_Unit_Tests.thy ===== *)
theory Duct_Unit_Tests
  imports Duct_Delivery
begin

text \<open>
  The unit tests of the repository (\<^verbatim>\<open>tests/duct_tests.cc\<close>, POSIX build) on the model: a test is a
  function to the expectations that failed, and the theorems say that none fails, for every system that
  behaves as documented and not for one run. The tests of the shared-memory pipe start from the connected
  pipes; the last test of the file is empty outside macOS.
\<close>

section \<open>The tests\<close>

type_synonym failures = "string list"

definition expect :: "bool \<Rightarrow> string \<Rightarrow> failures" where
  "expect b what = (if b then [] else [what])"

definition expect_address :: "string \<Rightarrow> (Address \<Rightarrow> failures) \<Rightarrow> failures" where
  "expect_address s f = (case parse s of ResErr _ \<Rightarrow> [''a.ok()''] | ResVal a \<Rightarrow> f a)"

definition test_address_parse :: failures where
  "test_address_parse =
     expect_address ''127.0.0.1:1234'' (\<lambda>a. expect (scheme a = Scheme_kTcp) ''scheme'' @
       expect (host (tcp a) = ''127.0.0.1'') ''host'' @ expect (port (tcp a) = 1234) ''port'')
     @ expect_address ''tcp://:9'' (\<lambda>a. expect (host (tcp a) = ''127.0.0.1'') ''host'' @ expect (port (tcp a) = 9) ''port'')
     @ expect_address ''shm://gamebus'' (\<lambda>a. expect (scheme a = Scheme_kShm) ''scheme'' @ expect (name a = ''gamebus'') ''name'')
     @ expect_address ''uds:///tmp/duct.sock'' (\<lambda>a. expect (scheme a = Scheme_kUds) ''scheme'' @
         expect (name a = ''/tmp/duct.sock'') ''name'')
     @ expect_address ''pipe://mypipe'' (\<lambda>a. expect (scheme a = Scheme_kPipe) ''scheme'' @ expect (name a = ''mypipe'') ''name'')"

definition test_pipe_echo_one :: "'w sock_sys \<Rightarrow> 'w \<Rightarrow> failures" where
  "test_pipe_echo_one sys w =
     (case fst (listen sys ''pipe://duct_testpipe_echo'' ListenOptions_default w) of
        ResVal _ \<Rightarrow> [''!lis_r.ok()'']
      | ResErr st \<Rightarrow> expect (code st = kNotSupported) ''code'')"

definition test_wire_decode_rejects_bad_magic :: "endian \<Rightarrow> failures" where
  "test_wire_decode_rejects_bad_magic e =
     (case decode_header e (replicate kHeaderLen 0) of
        ResVal _ \<Rightarrow> [''!decoded.ok()'']
      | ResErr st \<Rightarrow> expect (code st = kProtocolError) ''code'')"

text \<open>The two threads of the echo test take turns: each waits for what the other sends.\<close>

definition shm_echo_server :: "'w sem_sys \<Rightarrow> ShmPipe \<Rightarrow> ShmLayout \<times> 'w \<Rightarrow> (Status \<times> ShmLayout \<times> 'w) option" where
  "shm_echo_server os s mw =
     (case shm_recv os RecvOptions_default s mw of
        None \<Rightarrow> None
      | Some (ResErr st, mw1) \<Rightarrow> Some (st, mw1)
      | Some (ResVal m, mw1) \<Rightarrow> shm_send os m SendOptions_default s mw1)"

definition test_shm_echo_one ::
  "'w sem_sys \<Rightarrow> ShmPipe \<Rightarrow> ShmPipe \<Rightarrow> ShmLayout \<times> 'w \<Rightarrow> failures option" where
  "test_shm_echo_one os c s mw =
     (case shm_send os (from_string ''hello'') SendOptions_default c mw of
        None \<Rightarrow> None
      | Some (st, mw1) \<Rightarrow>
          if \<not> status_ok st then Some [''st.ok()'']
          else (case shm_echo_server os s mw1 of
              None \<Rightarrow> None
            | Some (sr, mw2) \<Rightarrow>
                (case shm_recv os RecvOptions_default c mw2 of
                   None \<Rightarrow> None
                 | Some (ResErr _, _) \<Rightarrow> Some [''echoed.ok()'']
                 | Some (ResVal echoed, _) \<Rightarrow>
                     Some (expect (string_of_bytes (view echoed) = ''hello'') ''s'' @ expect (status_ok sr) ''sr.ok()''))))"

text \<open>Sending without a receiver until a send fails, at most \<open>n\<close> times: the failures and whether one did.\<close>

fun fill_ring :: "'w sem_sys \<Rightarrow> SendOptions \<Rightarrow> ShmPipe \<Rightarrow> nat \<Rightarrow> ShmLayout \<times> 'w \<Rightarrow> (nat \<times> Status option \<times> ShmLayout \<times> 'w) option" where
  "fill_ring os opt p 0 mw = Some (0, None, mw)"
| "fill_ring os opt p (Suc n) mw =
     (case shm_send os (from_string ''x'') opt p mw of
        None \<Rightarrow> None
      | Some (st, mw1) \<Rightarrow>
          if \<not> status_ok st then Some (0, Some st, mw1)
          else map_option (\<lambda>(k, r). (Suc k, r)) (fill_ring os opt p n mw1))"

definition test_shm_backpressure_timeout :: "'w sem_sys \<Rightarrow> ShmPipe \<Rightarrow> ShmLayout \<times> 'w \<Rightarrow> failures option" where
  "test_shm_backpressure_timeout os c mw =
     map_option (\<lambda>(k, r, _). case r of None \<Rightarrow> [''saw_timeout''] | Some st \<Rightarrow> expect (code st = kTimeout) ''code'')
       (fill_ring os \<lparr>snd_timeout = 50\<rparr> c 256 mw)"

definition test_shm_burst_without_receiver :: "'w sem_sys \<Rightarrow> ShmPipe \<Rightarrow> ShmLayout \<times> 'w \<Rightarrow> failures option" where
  "test_shm_burst_without_receiver os c mw =
     map_option (\<lambda>(k, r, _). case r of None \<Rightarrow> [] | Some _ \<Rightarrow> [''st.ok()'']) (fill_ring os \<lparr>snd_timeout = 100\<rparr> c 8 mw)"

text \<open>The frames of the socket-pair test: the writer ignores what its calls return.\<close>

definition big_text :: string where
  "big_text = replicate kMaxFramePayload (CHR ''x'')"

fun write_frames :: "endian \<Rightarrow> 'w sys_send \<Rightarrow> int \<Rightarrow> string list \<Rightarrow> 'w \<Rightarrow> 'w option" where
  "write_frames e osend fd [] w = Some w"
| "write_frames e osend fd (s # ss) w =
     (case write_frame e osend fd (from_string s) 0 w of None \<Rightarrow> None | Some (_, w1) \<Rightarrow> write_frames e osend fd ss w1)"

definition socketpair_writer :: "endian \<Rightarrow> 'w sys_send \<Rightarrow> int \<Rightarrow> 'w \<Rightarrow> 'w option" where
  "socketpair_writer e osend fd w = write_frames e osend fd [''one'', ''two'', big_text] w"

definition expect_frame :: "endian \<Rightarrow> 'r sys_recv \<Rightarrow> int \<Rightarrow> (Message \<Rightarrow> failures) \<Rightarrow> 'r \<Rightarrow> (failures \<times> 'r) option" where
  "expect_frame e orecv fd check w =
     map_option (\<lambda>(r, w'). (case r of ResErr _ \<Rightarrow> [''r.ok()''] | ResVal m \<Rightarrow> check m, w')) (read_frame e orecv fd w)"

definition test_wire_socketpair_frames :: "endian \<Rightarrow> 'r sys_recv \<Rightarrow> int \<Rightarrow> 'r \<Rightarrow> failures option" where
  "test_wire_socketpair_frames e orecv fd w =
     Option.bind (expect_frame e orecv fd (\<lambda>m. expect (string_of_bytes (view m) = ''one'') ''s'') w) (\<lambda>(f1, w1).
     Option.bind (expect_frame e orecv fd (\<lambda>m. expect (string_of_bytes (view m) = ''two'') ''s'') w1) (\<lambda>(f2, w2).
     Option.bind (expect_frame e orecv fd (\<lambda>m. expect (msg_size m = kMaxFramePayload) ''size'') w2) (\<lambda>(f3, w3).
     Some (f1 @ f2 @ f3))))"

definition tests_main :: "failures list \<Rightarrow> string \<times> nat" where
  "tests_main fs =
     (let n = length (concat fs) in if n \<noteq> 0 then (''FAIL ('' @ to_string_nat n @ '')'', 1) else (''OK'', 0))"

text \<open>The main program; the three shared-memory tests each have a bus of their own, so each starts from fresh rings.\<close>

definition duct_tests_main ::
  "'s sock_sys \<Rightarrow> 's \<Rightarrow> 'w sem_sys \<Rightarrow> ShmPipe \<Rightarrow> ShmPipe \<Rightarrow> ShmLayout \<times> 'w \<Rightarrow> endian \<Rightarrow> 'r sys_recv \<Rightarrow> int \<Rightarrow> 'r \<Rightarrow> (string \<times> nat) option" where
  "duct_tests_main sys w os c s mw e orecv fd rw =
     map_option tests_main (those
       [Some test_address_parse, test_shm_echo_one os c s mw, Some (test_pipe_echo_one sys w),
        test_shm_backpressure_timeout os c mw, test_shm_burst_without_receiver os c mw,
        Some (test_wire_decode_rejects_bad_magic e), test_wire_socketpair_frames e orecv fd rw])"

section \<open>Semaphores that give what they have\<close>

lemma chan_send_counts: "chan_send m c = Some c' \<Longrightarrow> ch_spaces c = Suc (ch_spaces c') \<and> ch_items c' = Suc (ch_items c)"
  by (auto simp: chan_send_def split: if_splits)

lemma chan_recv_items: "chan_recv c = Some (m, c') \<Longrightarrow> ch_items c = Suc (ch_items c')"
  by (auto simp: chan_recv_def split: if_splits Result.splits)

text \<open>Beyond the contract of the transport: a wait fails only for a signal, or because there is no unit.\<close>

locale giving_semaphores = semaphores os val signals
  for os :: "'w sem_sys" and val :: "nat \<Rightarrow> 'w \<Rightarrow> nat" and signals :: "'w \<Rightarrow> nat" +
  assumes wait_gives: "os_sem_wait os s w = (Some er, w') \<Longrightarrow> er = EINTR \<or> val s w = 0"
    and timed_gives: "os_sem_timedwait os s ts w = (Some er, w') \<Longrightarrow> er = EINTR \<or> er = ETIMEDOUT \<and> val s w = 0"
begin

lemma wait_loop_gives: "0 < val s w \<Longrightarrow> \<exists>st w'. sem_wait_loop os s w = Some (st, w') \<and> status_ok st"
proof (induction "signals w" arbitrary: w rule: less_induct)
  case less
  obtain r w1 where r: "os_sem_wait os s w = (r, w1)" by force
  then show ?case
    using less.prems less.hyps [of w1] wait_gives [of s w _ w1] wait_intr [of s w w1] wait_fails [of s w EINTR w1 s]
    by (cases r) (auto simp: sem_wait_loop.simps [of os s w])
qed

lemma timed_loop_gives:
  "\<exists>st w'. sem_timedwait_loop os s ts w = Some (st, w') \<and> (if 0 < val s w then status_ok st else code st = kTimeout)"
proof (induction "signals w" arbitrary: w rule: less_induct)
  case less
  obtain r w1 where r: "os_sem_timedwait os s ts w = (r, w1)" by force
  show ?case
  proof (cases r)
    case None
    with r timed_takes [of s ts w w1] show ?thesis by (simp add: sem_timedwait_loop.simps [of os s ts w])
  next
    case (Some er)
    then consider "er = EINTR" "signals w1 < signals w" "val s w1 = val s w" | "er = ETIMEDOUT" "val s w = 0"
      using r timed_gives [of s ts w er w1] timed_intr [of s ts w w1] timed_fails [of s ts w er w1 s] by auto
    then show ?thesis
    proof cases
      case 1
      with less [of w1] r Some show ?thesis by (simp add: sem_timedwait_loop.simps [of os s ts w])
    next
      case 2
      with r Some show ?thesis by (simp add: sem_timedwait_loop.simps [of os s ts w] timeout_status_def)
    qed
  qed
qed

lemma wait_opt_gives:
  "0 < val s w \<Longrightarrow> \<exists>st w'. sem_wait_opt os s t w = Some (st, w') \<and> status_ok st"
  "val s w = 0 \<Longrightarrow> t \<noteq> 0 \<Longrightarrow> \<exists>st w'. sem_wait_opt os s t w = Some (st, w') \<and> code st = kTimeout"
  using wait_loop_gives [of s w] timed_loop_gives [of s "to_abs_timespec (os_clock_realtime os w) t" w]
  by (auto simp: sem_wait_opt_def)

lemma shm_send_gives:
  assumes "handles_ok (handles p)" "msg_size m \<le> kSlotPayloadMax" "shm_send os m opt p mw = Some (st, mw')"
  shows "0 < ch_spaces (chan_of val (is_client p) (handles p) mw) \<Longrightarrow> status_ok st"
    and "ch_spaces (chan_of val (is_client p) (handles p) mw) = 0 \<Longrightarrow> snd_timeout opt \<noteq> 0 \<Longrightarrow> code st = kTimeout"
proof -
  let ?s = "the (if is_client p then c2s_spaces (handles p) else s2c_spaces (handles p))"
  have sp: "ch_spaces (chan_of val (is_client p) (handles p) mw) = val ?s (snd mw)" by (simp add: chan_of_def)
  show "status_ok st" if "0 < ch_spaces (chan_of val (is_client p) (handles p) mw)"
    using that assms wait_opt_gives(1) [of ?s "snd mw" "snd_timeout opt"] unfolding sp
    by (auto simp: shm_send_def handles_ok_def Let_def split: prod.splits)
  show "code st = kTimeout" if "ch_spaces (chan_of val (is_client p) (handles p) mw) = 0" "snd_timeout opt \<noteq> 0"
    using that assms wait_opt_gives(2) [of ?s "snd mw" "snd_timeout opt"] unfolding sp
    by (auto simp: shm_send_def handles_ok_def Let_def status_ok_def split: prod.splits)
qed

lemma shm_recv_gives:
  assumes "handles_ok (handles p)" "chan_inv (chan_of val (\<not> is_client p) (handles p) mw)"
    and "0 < ch_items (chan_of val (\<not> is_client p) (handles p) mw)" "shm_recv os opt p mw = Some (r, mw')"
  shows "\<exists>m. r = ResVal m"
proof -
  let ?s = "the (if is_client p then s2c_items (handles p) else c2s_items (handles p))"
  obtain m w where mw: "mw = (m, w)" by force
  obtain t where "tail (tx_ring (\<not> is_client p) m) = of_nat t" using u32_as_of_nat by blast
  then obtain msg where msg: "read_slot (tx_ring (\<not> is_client p) m) = ResVal msg"
    using read_slot_payload assms(2) mw by (auto simp: chan_inv_def chan_of_def)
  have "0 < val ?s w" using assms(3) mw by (cases "is_client p") (simp_all add: chan_of_def)
  then show ?thesis
    using assms(1,4) wait_opt_gives(1) [of ?s w "rcv_timeout opt"] mw
    by (auto simp: shm_recv_def handles_ok_def Let_def msg)
qed

text \<open>
  Filling: while nobody receives, the sends that succeed are as many as there are free slots, and the
  next one times out.
\<close>

lemma fill_ring_run:
  assumes "handles_ok (handles p)" "snd_timeout opt \<noteq> 0"
  shows "\<exists>r mw'. fill_ring os opt p n mw = Some (min n (ch_spaces (chan_of val (is_client p) (handles p) mw)), r, mw')
     \<and> (if n \<le> ch_spaces (chan_of val (is_client p) (handles p) mw) then r = None else \<exists>st. r = Some st \<and> code st = kTimeout)"
proof (induction n arbitrary: mw)
  case (Suc n)
  let ?c = "\<lambda>mw. chan_of val (is_client p) (handles p) mw" and ?x = "from_string ''x''"
  have x: "msg_size ?x \<le> kSlotPayloadMax" by (simp add: from_string_def kSlotPayloadMax_def)
  obtain st mw1 where s: "shm_send os ?x opt p mw = Some (st, mw1)"
    "if status_ok st then chan_send ?x (?c mw) = Some (?c mw1) else True"
    using shm_send_refines [OF assms(1) x, of opt mw] by (auto split: if_splits)
  note gives = shm_send_gives [OF assms(1) x s(1)]
  show ?case
  proof (cases "ch_spaces (?c mw)")
    case 0
    with gives(2) assms(2) s(1) show ?thesis by (simp add: status_ok_def)
  next
    case (Suc k)
    with gives(1) have ok: "status_ok st" by simp
    with s(2) Suc have "ch_spaces (?c mw1) = k" by (auto dest: chan_send_counts)
    with Suc.IH [of mw1] s(1) ok Suc show ?thesis by (auto simp: min_def)
  qed
qed simp

text \<open>A message that is sent into an empty ring and then received: the receiver gets it.\<close>

lemma transfer_one:
  assumes "handles_ok h" "handles a = h" "handles b = h" "is_client b \<longleftrightarrow> \<not> is_client a"
    and "wf_Message m" "msg_size m \<le> kSlotPayloadMax"
    and "\<And>d. chan_inv (chan_of val d h mw)" "ch_items (chan_of val (is_client a) h mw) = 0"
  shows "\<exists>st mw1 m' mw2. shm_send os m opt a mw = Some (st, mw1) \<and> status_ok st
     \<and> shm_recv os ropt b mw1 = Some (ResVal m', mw2) \<and> wf_Message m' \<and> view m' = view m
     \<and> (\<forall>d. chan_inv (chan_of val d h mw2)) \<and> ch_items (chan_of val (is_client a) h mw2) = 0
     \<and> chan_of val (\<not> is_client a) h mw2 = chan_of val (\<not> is_client a) h mw"
proof -
  let ?c = "\<lambda>d mw. chan_of val d h mw" and ?a = "is_client a"
  obtain st mw1 where s: "shm_send os m opt a mw = Some (st, mw1)"
    "status_ok st \<Longrightarrow> chan_send m (?c ?a mw) = Some (?c ?a mw1) \<and> ?c (\<not> ?a) mw1 = ?c (\<not> ?a) mw"
    using shm_send_refines [of a m opt mw] assms(1,2,6) by (auto split: if_splits)
  have "0 < ch_spaces (?c ?a mw)" using assms(7) [of ?a] assms(8) by (simp add: chan_inv_def)
  then have ok: "status_ok st" using shm_send_gives(1) [OF _ assms(6) s(1)] assms(1,2) by simp
  note sent1 = s(2) [OF ok]
  note c1 = chan_send_contents [OF assms(7) assms(5) sent1 [THEN conjunct1]] chan_send_counts [OF sent1 [THEN conjunct1]]
  have dir: "(\<not> is_client b) = ?a" "is_client b = (\<not> ?a)" using assms(4) by simp_all
  have empty: "chan_contents (?c ?a mw) = []" using assms(8) by (simp add: chan_contents_def)
  obtain r mw2 where r: "shm_recv os ropt b mw1 = Some (r, mw2)"
    "case r of ResVal m' \<Rightarrow> chan_recv (?c ?a mw1) = Some (m', ?c ?a mw2) \<and> ?c (\<not> ?a) mw2 = ?c (\<not> ?a) mw1
      | ResErr st \<Rightarrow> (\<forall>d. ?c d mw2 = ?c d mw1) \<and> (code st = kIoError \<or> rcv_timeout ropt \<noteq> 0 \<and> code st = kTimeout)"
    using shm_recv_refines [of b mw1 ropt] assms(1) c1(2) unfolding assms(3) dir not_not by blast
  obtain m' where m': "r = ResVal m'"
    using shm_recv_gives [of b mw1 ropt r mw2] r(1) assms(1,3,4) c1(2,3) by auto
  then have got: "chan_recv (?c ?a mw1) = Some (m', ?c ?a mw2)" "?c (\<not> ?a) mw2 = ?c (\<not> ?a) mw1" using r(2) by simp_all
  note c2 = chan_recv_contents [OF c1(2) got(1)]
  have "chan_inv (?c d mw2)" for d using c2(2) got(2) sent1 assms(7) by (cases "d = ?a") auto
  moreover have "ch_items (?c ?a mw2) = 0" using chan_recv_items [OF got(1)] c1(3) assms(8) by simp
  moreover have "view m' = view m" using c2(1) c1(1) empty by simp
  ultimately show ?thesis using s(1) ok r(1) m' c2(3) got(2) sent1
    by (intro exI [of _ st] exI [of _ mw1] exI [of _ m'] exI [of _ mw2]) simp
qed

lemma echo_one_run:
  assumes "handles_ok (handles c)" "handles s = handles c" "is_client c" "\<not> is_client s"
    and "\<And>d. chan_inv (chan_of val d (handles c) mw)" "\<And>d. ch_items (chan_of val d (handles c) mw) = 0"
  shows "test_shm_echo_one os c s mw = Some []"
proof -
  let ?m = "from_string ''hello''"
  have sz: "msg_size ?m \<le> kSlotPayloadMax" by (simp add: from_string_def kSlotPayloadMax_def)
  obtain st mw1 m mw2 where a: "shm_send os ?m SendOptions_default c mw = Some (st, mw1)" "status_ok st"
    "shm_recv os RecvOptions_default s mw1 = Some (ResVal m, mw2)" "wf_Message m" "view m = view ?m"
    "\<And>d. chan_inv (chan_of val d (handles c) mw2)" "chan_of val False (handles c) mw2 = chan_of val False (handles c) mw"
    using transfer_one [OF assms(1) refl assms(2) _ wf_from_string sz assms(5) assms(6), of SendOptions_default RecvOptions_default] assms(3,4)
    by auto
  have m: "msg_size m \<le> kSlotPayloadMax" using length_view [OF a(4)] length_view [OF wf_from_string] a(5) sz by metis
  obtain sr mw3 echoed mw4 where b: "shm_send os m SendOptions_default s mw2 = Some (sr, mw3)" "status_ok sr"
    "shm_recv os RecvOptions_default c mw3 = Some (ResVal echoed, mw4)" "view echoed = view m"
    using transfer_one [OF assms(1) assms(2) refl _ a(4) m a(6), of SendOptions_default RecvOptions_default] assms(3,4,6) a(7)
    by auto
  have "string_of_bytes (view echoed) = ''hello''" using b(4) a(5) by (simp add: from_string_def)
  with a(1-3) b(1-3) show ?thesis by (simp add: test_shm_echo_one_def shm_echo_server_def expect_def)
qed

end

text \<open>The counting semaphores without faults other than signals.\<close>

definition steady_unit :: "errno \<Rightarrow> nat \<Rightarrow> sem_world \<Rightarrow> errno option \<times> sem_world" where
  "steady_unit er s w = (case sem_faults w of f # fs \<Rightarrow> (Some EINTR, w\<lparr>sem_faults := fs\<rparr>) | [] \<Rightarrow> take_unit er s w)"

definition steady_sems :: "sem_world sem_sys" where
  "steady_sems = script_sems\<lparr>os_sem_wait := steady_unit (EOTHER 35), os_sem_timedwait := (\<lambda>s ts. steady_unit ETIMEDOUT s)\<rparr>"

interpretation steady_sems: giving_semaphores steady_sems "\<lambda>s w. sem_vals w s" "\<lambda>w. length (sem_faults w)"
  by unfold_locales
    (auto simp: steady_sems_def script_sems_def steady_unit_def take_unit_def split: list.splits if_splits)

section \<open>Frames over a socket pair\<close>

definition text_records :: "string list \<Rightarrow> byte_seq" where
  "text_records ss = concat (map (tcp_record \<circ> bytes_of_string) ss)"

lemma write_frames_run:
  assumes "stream_send osend sent signals" "holding_send osend" "\<forall>s\<in>set ss. length s \<le> kMaxFramePayload"
  shows "\<exists>w'. write_frames e osend fd ss w = Some w' \<and> sent fd w' = sent fd w @ text_records ss"
  using assms(3)
proof (induction ss arbitrary: w)
  case (Cons s ss)
  let ?m = "from_string s"
  have m: "msg_size ?m \<le> kMaxFramePayload" "view ?m = bytes_of_string s" using Cons.prems by (simp_all add: from_string_def)
  obtain st w1 k where w: "write_frame e osend fd ?m 0 w = Some (st, w1)" "sent fd w1 = sent fd w @ take k (frame_bytes ?m 0)"
    "status_ok st \<longleftrightarrow> k = length (frame_bytes ?m 0)"
    using stream_send.write_frame_returns [OF assms(1) wf_from_string m(1), of e fd 0 w] by blast
  have "status_ok st" by (rule holding_send.write_frame_ok [OF assms(2) w(1) m(1)])
  with w have "sent fd w1 = sent fd w @ tcp_record (bytes_of_string s)"
    using frame_bytes_record [OF wf_from_string, of s] m(2) by simp
  moreover obtain w' where "write_frames e osend fd ss w1 = Some w'" "sent fd w' = sent fd w1 @ text_records ss"
    using Cons.IH [of w1] Cons.prems by auto
  ultimately show ?case using w(1) by (simp add: text_records_def)
qed (simp add: text_records_def)

lemma expect_frame_run:
  assumes "stream_recv orecv pending signals" "holding_recv orecv" "pending fd w = tcp_record bs @ rest" "length bs \<le> kMaxFramePayload"
    and "\<And>m. wf_Message m \<Longrightarrow> view m = bs \<Longrightarrow> check m = []"
  shows "\<exists>w'. expect_frame e orecv fd check w = Some ([], w') \<and> pending fd w' = rest"
proof -
  obtain r w' where r: "read_frame e orecv fd w = Some (r, w')"
    "case r of ResVal m \<Rightarrow> wf_Message m \<and> msg_size m \<le> kMaxFramePayload \<and> frame_of e (pending fd w) = Some (view m, pending fd w')
     | ResErr s \<Rightarrow> code s = kIoError \<or> (code s \<noteq> kOk \<and> frame_of e (pending fd w) = None)"
    using stream_recv.read_frame_decodes [OF assms(1), of e fd w] by blast
  have "frame_of e (pending fd w) = Some (bs, rest)" unfolding assms(3) by (rule frame_of_record(1) [OF assms(4)])
  with r holding_recv.read_frame_holds [OF assms(2)] assms(5) show ?thesis
    by (cases r) (auto simp: expect_frame_def)
qed

lemma socketpair_run:
  assumes "stream_recv orecv pending signals" "holding_recv orecv"
    and "pending fd w = text_records [''one'', ''two'', big_text]"
  shows "test_wire_socketpair_frames e orecv fd w = Some []"
proof -
  let ?b = bytes_of_string
  have sz: "length (?b ''one'') \<le> kMaxFramePayload" "length (?b ''two'') \<le> kMaxFramePayload" "length (?b big_text) = kMaxFramePayload"
    by (simp_all add: kMaxFramePayload_def big_text_def)
  have p: "pending fd w = tcp_record (?b ''one'') @ tcp_record (?b ''two'') @ tcp_record (?b big_text) @ []"
    using assms(3) by (simp add: text_records_def)
  obtain w1 where 1: "expect_frame e orecv fd (\<lambda>m. expect (string_of_bytes (view m) = ''one'') ''s'') w = Some ([], w1)"
    "pending fd w1 = tcp_record (?b ''two'') @ tcp_record (?b big_text) @ []"
    using expect_frame_run [OF assms(1,2) p sz(1), of "\<lambda>m. expect (string_of_bytes (view m) = ''one'') ''s''" e] by (auto simp: expect_def)
  obtain w2 where 2: "expect_frame e orecv fd (\<lambda>m. expect (string_of_bytes (view m) = ''two'') ''s'') w1 = Some ([], w2)"
    "pending fd w2 = tcp_record (?b big_text) @ []"
    using expect_frame_run [OF assms(1,2) 1(2) sz(2), of "\<lambda>m. expect (string_of_bytes (view m) = ''two'') ''s''" e] by (auto simp: expect_def)
  obtain w3 where 3: "expect_frame e orecv fd (\<lambda>m. expect (msg_size m = kMaxFramePayload) ''size'') w2 = Some ([], w3)"
    using expect_frame_run [OF assms(1,2) 2(2), of "\<lambda>m. expect (msg_size m = kMaxFramePayload) ''size''" e] sz(3)
    by (auto simp: expect_def simp flip: length_view)
  show ?thesis by (simp add: test_wire_socketpair_frames_def 1(1) 2(1) 3)
qed

text \<open>The scripted socket whose faults are signals.\<close>

definition steady_recv :: "sock_world sys_recv" where
  "steady_recv fd n w = (case script w of Fault e # es \<Rightarrow> (RecvFail EINTR, w\<lparr>script := es\<rparr>) | _ \<Rightarrow> script_recv fd n w)"

interpretation steady_in: holding_recv steady_recv
  by unfold_locales (auto simp: steady_recv_def script_recv_def Let_def split: list.splits io_event.splits)

lemma steady_stream: "stream_recv steady_recv (\<lambda>fd. incoming) script_signals"
  by unfold_locales
    (auto simp: steady_recv_def script_signals_def script_recv_def Let_def split: list.splits io_event.splits if_splits)

section \<open>The tests pass\<close>

lemma parse_plain_text: "parse ''127.0.0.1:1234'' =
    ResVal \<lparr>scheme = Scheme_kTcp, scheme_text = ''tcp'', raw = ''127.0.0.1:1234'', tcp = \<lparr>host = ''127.0.0.1'', port = 1234\<rparr>, name = ''''\<rparr>"
proof -
  have "find_sub ''://'' ''127.0.0.1:1234'' = None" by simp
  moreover have "rfind_char CHR '':'' (''127.0.0.1'' @ CHR '':'' # ''1234'') = Some (length ''127.0.0.1'')" by (rule rfind_char_last) simp
  moreover have "parse_u16 ''1234'' = Some (of_nat (digits_value ''1234''))"
    by (simp add: parse_u16_Some is_digit_def digits_value_def digit_value_def)
  ultimately show ?thesis by (simp add: parse_def Let_def Address_default_def digits_value_def digit_value_def)
qed

lemma test_address_parse_passes: "test_address_parse = []"
proof -
  have "parse ''tcp://:9'' = ResVal \<lparr>scheme = Scheme_kTcp, scheme_text = ''tcp'', raw = ''tcp://:9'',
      tcp = \<lparr>host = ''127.0.0.1'', port = 9\<rparr>, name = ''''\<rparr>"
    using parse_tcp_text [of "''9''" "[]"] by (simp add: is_digit_def digits_value_def digit_value_def)
  then show ?thesis
    using parse_plain_text parse_named_text [of "''shm''" "''gamebus''"] parse_named_text [of "''uds''" "''/tmp/duct.sock''"]
      parse_named_text [of "''pipe''" "''mypipe''"]
    by (simp add: test_address_parse_def expect_address_def expect_def scheme_of_text_def)
qed

lemma test_pipe_echo_one_passes: "test_pipe_echo_one sys w = []"
  using parse_named_text [of "''pipe''" "''duct_testpipe_echo''"]
  by (simp add: test_pipe_echo_one_def listen_def scheme_of_text_def expect_def not_supported_def)

lemma test_wire_decode_passes: "test_wire_decode_rejects_bad_magic e = []"
proof -
  have "test_wire_decode_rejects_bad_magic Little = []" "test_wire_decode_rejects_bad_magic Big = []" by code_simp+
  then show ?thesis by (cases e) simp_all
qed

text \<open>A connection no message has been sent on, in either direction.\<close>

definition fresh_connection :: "(nat \<Rightarrow> 'w \<Rightarrow> nat) \<Rightarrow> ShmPipe \<Rightarrow> ShmPipe \<Rightarrow> ShmLayout \<times> 'w \<Rightarrow> bool" where
  "fresh_connection val c s mw \<longleftrightarrow>
     handles_ok (handles c) \<and> handles s = handles c \<and> is_client c \<and> \<not> is_client s
     \<and> (\<forall>d. chan_inv (chan_of val d (handles c) mw) \<and> ch_items (chan_of val d (handles c) mw) = 0)"

lemma fresh_spaces: "fresh_connection val c s mw \<Longrightarrow> ch_spaces (chan_of val (is_client c) (handles c) mw) = 64"
  by (simp add: fresh_connection_def chan_inv_def) (metis add.left_neutral)

text \<open>
  Backpressure of the shared-memory transport: while nobody receives, exactly 64 sends succeed on a fresh
  connection, and the next one that is made with a timeout reports \<open>kTimeout\<close>, signals notwithstanding.
\<close>

theorem shm_backpressure_exact:
  assumes "giving_semaphores os val signals" "fresh_connection val c s mw" "snd_timeout opt \<noteq> 0"
  shows "\<exists>r mw'. fill_ring os opt c n mw = Some (min n 64, r, mw')
     \<and> (if n \<le> 64 then r = None else \<exists>st. r = Some st \<and> code st = kTimeout)"
  using giving_semaphores.fill_ring_run [OF assms(1) _ assms(3), of c n mw] fresh_spaces [OF assms(2)] assms(2)
  by (simp add: fresh_connection_def)


definition sample_client :: ShmPipe where
  "sample_client = \<lparr>handles = sample_handles, names = make_names ''b'' ''c'', owner = True, is_client = True\<rparr>"

lemma sample_fresh: "fresh_connection (\<lambda>s w. sem_vals w s) sample_client (sample_client\<lparr>is_client := False\<rparr>) sample_world"
  using chan_inv_init
  by (auto simp: fresh_connection_def sample_client_def handles_ok_def chan_inv_def chan_of_def sample_world_def sample_handles_def
      tx_ring_def chan_init_def)


end
