(* ===== verification/Spec2Isabelle.thy ===== *)
theory Spec2Isabelle
  imports Duct_Queue_Conc Duct_Qos_Conc Duct_Message_Store Duct_Reconnect Duct_Winsock Duct_Server Duct_Async_Example
    Duct_Utils_Example Duct_Test_Runs Duct_Unit_Tests
begin

text \<open>
  A verification library for duct, a C++ messaging library: pipes that move messages between
  processes over TCP, Unix-domain sockets, shared memory and (on Windows) named pipes.

  \<^bold>\<open>The program.\<close> An application calls \<open>listen\<close> and \<open>dial\<close> (\<^verbatim>\<open>src/duct.cc\<close>) with an address such as
  \<^verbatim>\<open>tcp://host:port\<close>, which \<^verbatim>\<open>src/address.cc\<close> parses; the scheme selects a transport, whose listener
  accepts, and whose dialler returns, objects with the interface \<open>Pipe\<close> (\<open>send\<close>, \<open>recv\<close>, \<open>close\<close>).
  Socket transports put a 16-byte header before each message (\<^verbatim>\<open>src/wire.cc\<close>); the shared-memory
  transport uses two rings of 64 slots guarded by counting semaphores. Other pipes wrap a pipe: for
  quality of service (a bounded send queue and a worker thread), for reconnection, and for reporting
  state changes. On top are builders, owning wrappers, helpers for requests and batches,
  asynchronous calls, a channel, an event loop, logging and metrics.

  \<^bold>\<open>How code is represented.\<close> A class is a record, an enumeration a datatype, a method a function from
  the old to the new state; \<open>Status\<close> and \<open>Result\<close> are values, so that every error path is a branch.
  Machine integers that are encoded, hashed or wrap around are words; \<open>std::chrono\<close> counts are
  integers; the \<open>double\<close> values of metrics and of the backoff factor are rationals. Operating-system
  calls are parameters: records of functions on an opaque world, with what is documented of them as
  locales, each interpreted on a scripted system. A loop that depends on the outside world is a
  \<^verbatim>\<open>partial_function (option)\<close>; that it returns is proved from those locales (a bound on signals,
  or on the attempts that fit before a deadline). Threads are step relations with one step per
  critical section, sleeping and woken threads, spurious wake-ups and expiring timeouts; theorems
  about them hold in every reachable state, for any number of threads.

  \<^bold>\<open>Theories\<close>, in the order of their dependencies:
  \<^item> \<^verbatim>\<open>Duct_Prelude\<close>: machine types, arrays, facts on lists and words.
  \<^item> \<^verbatim>\<open>Duct_Status\<close> (\<^verbatim>\<open>status.h\<close>), \<^verbatim>\<open>Duct_Message\<close> (\<^verbatim>\<open>message.h\<close>, \<^verbatim>\<open>message.cc\<close>), \<^verbatim>\<open>Duct_Address\<close>
    (\<^verbatim>\<open>protocol.h\<close>, \<^verbatim>\<open>address.cc\<close>: what is accepted is well formed), \<^verbatim>\<open>Duct_Options\<close> (\<^verbatim>\<open>duct.h\<close>).
    \<^verbatim>\<open>Duct_Message_Store\<close>: messages as references to shared vectors, and that treating them as values, as
    everywhere else, is right as long as no shared message is written.
  \<^item> \<^verbatim>\<open>Duct_Os\<close>: \<open>send\<close> and \<open>recv\<close> on stream sockets as contracts. \<^verbatim>\<open>Duct_Wire\<close> (\<^verbatim>\<open>wire.cc\<close>): the header
    codec is exact and byte-order independent; frames survive short transfers and signals.
  \<^item> \<^verbatim>\<open>Duct_Fifo\<close>: the contract of a queue, interpreted by the message queue, the ring and the channel.
    \<^verbatim>\<open>Duct_Queue\<close> and \<^verbatim>\<open>Duct_Queue_Conc\<close> (\<^verbatim>\<open>queue.cc\<close>): each method, then all threads: order,
    accounting, high water mark, lifetime, and which sleepers can be stranded.
  \<^item> \<^verbatim>\<open>Duct_Qos\<close> (\<^verbatim>\<open>qos_pipe.cc\<close>): send queue and worker, order, bounds, and the stall at the limit.
    \<^verbatim>\<open>Duct_Qos_Conc\<close>: the same with the condition variable: it refines \<^verbatim>\<open>Duct_Qos\<close>, the destructor returns,
    and which wake-ups are lost.
  \<^item> \<^verbatim>\<open>Duct_Sockets\<close> (\<^verbatim>\<open>socket_utils.cc\<close>): socket calls and the table of open descriptors.
    \<^verbatim>\<open>Duct_Pipe\<close> (\<^verbatim>\<open>convenience.h\<close>): the interface \<open>Pipe\<close> as a locale, and the helpers over any pipe.
    \<^verbatim>\<open>Duct_Tcp\<close> (\<^verbatim>\<open>tcp_transport.cc\<close>) and \<^verbatim>\<open>Duct_Uds\<close> (\<^verbatim>\<open>uds_transport.cc\<close>) interpret it and leak no
    descriptor.
  \<^item> \<^verbatim>\<open>Duct_Shm_Ring\<close> and \<^verbatim>\<open>Duct_Shm\<close> (\<^verbatim>\<open>shm_transport.cc\<close>): the rings with one sender and one receiver
    interleaved; names, semaphores, creation and removal of resources; the pipe refines the ring.
  \<^item> \<^verbatim>\<open>Duct_Dial\<close> (\<^verbatim>\<open>duct.cc\<close>, \<^verbatim>\<open>convenience.h\<close>, \<^verbatim>\<open>raii.h\<close>): dispatch, builders, owning wrappers.
  \<^item> \<^verbatim>\<open>Duct_State_Callback\<close> (\<^verbatim>\<open>state_callback_pipe.cc\<close>) and \<^verbatim>\<open>Duct_Reconnect\<close> (\<^verbatim>\<open>reconnect_pipe.cc\<close>): the
    first is transparent for every pipe and reports once; the second loses no wake-up and no
    connection, keeps its limits, and its worker ends after \<open>close\<close>.
  \<^item> \<^verbatim>\<open>Duct_Async\<close> (\<^verbatim>\<open>async.h\<close>), \<^verbatim>\<open>Duct_Server\<close> (the threads of its background server, and when stopping
    it returns), \<^verbatim>\<open>Duct_Utils\<close> (\<^verbatim>\<open>utils.h\<close>), \<^verbatim>\<open>Duct_Logging\<close> (\<^verbatim>\<open>logging.h\<close>, \<^verbatim>\<open>logging.cc\<close>).
  \<^item> \<^verbatim>\<open>Duct_Named_Pipe\<close> (\<^verbatim>\<open>pipe_transport.cc\<close>), \<^verbatim>\<open>Duct_Win_Shm\<close> (\<^verbatim>\<open>win_shm.cc\<close>) and \<^verbatim>\<open>Duct_Winsock\<close> (the
    Windows branches of the socket code and of \<^verbatim>\<open>duct.cc\<close>): the Windows build; its frames are those of
    the POSIX build, its shared-memory pipe refines the same ring, dialling returns and leaks no
    handle on any transport, and the address of a listener leads back to it.
  \<^item> \<^verbatim>\<open>Duct_Api\<close> (\<^verbatim>\<open>duct.h\<close>): the library as an application sees it. A \<open>runtime\<close> bundles the system calls
    and the schedule of the worker threads; \<open>pipe_send\<close>, \<open>pipe_recv\<close> and \<open>pipe_close\<close> act on whatever
    \<open>dial\<close> or \<open>accept\<close> returned, and before each call on a dialled pipe the worker takes the turns the
    schedule gives it. \<^verbatim>\<open>Duct_Conn\<close>: the invariant \<open>conn\<close> of a dialled TCP connection, kept by every call:
    what has been sent is a front part of the frames of the accepted messages. \<^verbatim>\<open>Duct_Delivery\<close>: over a
    connection that holds it is all of them.
  \<^item> \<^verbatim>\<open>Duct_Programs\<close> (\<^verbatim>\<open>duct_echo_server.cc\<close>, \<^verbatim>\<open>duct_echo_client.cc\<close>): the two programs, each against any
    peer and both together. \<^verbatim>\<open>Duct_Convenience_Example\<close>, \<^verbatim>\<open>Duct_Async_Example\<close> and
    \<^verbatim>\<open>Duct_Utils_Example\<close>: the three programs of examples, what they print and send, and that they end
    (or, for the event loop, that they do not). \<^verbatim>\<open>Duct_Test_Programs\<close> and \<^verbatim>\<open>Duct_Test_Runs\<close>
    (\<^verbatim>\<open>qos_test.cc\<close>, \<^verbatim>\<open>shm_test.cc\<close>, \<^verbatim>\<open>pipe_test.cc\<close>): the manual tests over any channel of messages (the
    locale \<open>message_channel\<close>, interpreted by accepted and dialled TCP pipes), end to end.
    \<^verbatim>\<open>Duct_Unit_Tests\<close> (\<^verbatim>\<open>duct_tests.cc\<close>): the expectations of the unit tests hold on every system.

  \<^bold>\<open>Behaviour worth knowing.\<close> Some theorems exhibit what the code should not do: a producer stranded
  by \<open>try_pop\<close>, a quality-of-service queue that stalls at its limit or exceeds it under \<open>kDropOld\<close>,
  a failed creation that removes foreign semaphores, data skipped at a hang-up, \<open>uds\<close> addresses that
  are never dispatched, a connection reported and installed after \<open>close\<close>, a wrapped pipe destroyed
  in use, an event loop that cannot be stopped (so that the example of it hangs), a named-pipe
  receiver out of step after an oversized message, a message the quality-of-service pipe accepts and the
  transport refuses, which blocks the queue behind it for ever, a \<open>close\<close> that discards the
  messages still queued whatever \<open>linger\<close> says, a wake-up for the worker that a blocked sender takes, a
  write that shows in a message already queued, a background server that cannot be stopped while it
  waits for a connection, and a test of three policies that never uses any.

  \<^bold>\<open>Composition.\<close> The contract of a pipe is interpreted by the pipes of all transports and by the
  reporting pipe around any of them; this theory states what follows for all of them together. The
  programs compose all layers: command line, dialling, the worker's queue, framing, sockets; the
  locale \<open>runtime_contract\<close> says what they rely on, and is interpreted on scripted runtimes.

  \<^bold>\<open>Not modelled.\<close> Build files and export macros; of the unit tests the Windows branches, the test for
  macOS only, and the setting up of the connections they use; the security attributes of Windows objects and the macOS socket
  option against \<open>SIGPIPE\<close>; weak memory orders (the two positions of a ring are read and written in
  program order; the semaphores order the rest); rounding, infinities and not-a-number of \<open>double\<close>;
  the threads of \<open>std::async\<close> (a future is its result); callbacks that call back into the object that
  runs them. In the programs the dialogue lines are given in English, sleeping has no effect, and the
  background server of \<^verbatim>\<open>async.h\<close> is a function that the example gets as an argument.
\<close>

section \<open>Composition: a reporting TCP pipe\<close>

context tcp_stream
begin

text \<open>A TCP pipe wrapped for state reports carries records like the TCP pipe itself.\<close>

lemmas tcp_reporting = framed_pipe.echo_server_stream [OF reporting_framed]

end

text \<open>
  Wrapping composes with the transports: an echo server on a TCP pipe that reports its state
  returns, and if it ends without an error it has sent back exactly the stream of frames it
  received, over the wrapped pipe's own socket.
\<close>

theorem reporting_tcp_echo:
  assumes "stream_socket osend sent signals orecv pending"
    and "tcp_fd p \<noteq> kInvalidSocket" "\<forall>bs\<in>set bss. length bs \<le> kMaxFramePayload"
    and "pending (tcp_fd p) w = concat (map tcp_record bss)"
  shows "\<exists>s q. echo_server (sc_send (tcp_send e osend)) (sc_recv (tcp_recv e orecv)) (mk_StateCallbackPipe (p, w) cb)
        = Some (s, q)
     \<and> (status_ok s \<longrightarrow>
          sent (tcp_fd (fst (sc_inner q))) (snd (sc_inner q)) = sent (tcp_fd p) w @ pending (tcp_fd p) w)"
proof -
  have ts: "tcp_stream osend sent signals orecv pending" using assms(1) by (simp add: tcp_stream_def)
  from tcp_stream.tcp_reporting [OF ts, where p = "mk_StateCallbackPipe (p, w) cb" and bss = bss and e = e] assms(2-4)
  show ?thesis by (simp add: mk_StateCallbackPipe_def sc_owns_def sc_inv_def sc_shut_def tcp_closed_def)
qed

lemma reporting_tcp_echo_witness:
  "\<exists>s q. echo_server (sc_send (tcp_send Little script_send)) (sc_recv (tcp_recv Little script_recv))
      (mk_StateCallbackPipe
        (\<lparr>tcp_fd = 3\<rparr>, \<lparr>outgoing = [], incoming = tcp_record [1, 2] @ tcp_record [], script = [Chunk 4]\<rparr>) True)
        = Some (s, q) \<and>
      (if status_ok s then outgoing (snd (sc_inner q)) = tcp_record [1, 2] @ tcp_record [] else True)"
  using reporting_tcp_echo [OF script_tcp.stream_socket_axioms, of "\<lparr>tcp_fd = 3\<rparr>" "[[1, 2], []]"
      "\<lparr>outgoing = [], incoming = tcp_record [1, 2] @ tcp_record [], script = [Chunk 4]\<rparr>" Little True]
  by (auto simp: kInvalidSocket_def kMaxFramePayload_def)

section \<open>Composition: closing is final on every pipe\<close>

definition closed_answers :: "call list \<Rightarrow> 'p \<Rightarrow> (StatusCode list \<times> 'p) option" where
  "closed_answers cs p = Some (replicate (length (filter ((\<noteq>) CallClose) cs)) kClosed, p)"

text \<open>
  C13: Closing is final, for the pipe of every transport and for the reporting pipe around any pipe:
  whatever calls follow, each \<open>send\<close> and \<open>recv\<close> returns \<open>kClosed\<close> at once, and neither the pipe nor the
  world changes any more, further calls of \<open>close\<close> included.
\<close>

theorem close_is_final:
  assumes "win_mapped wp" "sc_inv rep"
  shows "run_calls (tcp_send e osend) (tcp_recv e orecv) (tcp_close oclose) cs (tcp_close oclose tp)
        = closed_answers cs (tcp_close oclose tp)
     \<and> run_calls (uds_send e osend sys) (uds_recv e orecv sys) (uds_close uclose) cs (uds_close uclose up)
        = closed_answers cs (uds_close uclose up)
     \<and> run_calls (shm_psend sem) (shm_precv sem) (shm_pclose os) cs (shm_pclose os sp)
        = closed_answers cs (shm_pclose os sp)
     \<and> run_calls (\<lambda>m opt pw. Some (np_send e nsys m opt pw)) (\<lambda>opt pw. Some (np_recv e nsys opt pw)) (np_close nsys) cs
          (np_close nsys pp) = closed_answers cs (np_close nsys pp)
     \<and> run_calls (win_psend ws) (win_precv ws) (win_pclose ws) cs (win_pclose ws wp)
        = closed_answers cs (win_pclose ws wp)
     \<and> run_calls (sc_send psend) (sc_recv precv) (sc_close pclose) cs (sc_close pclose rep)
        = closed_answers cs (sc_close pclose rep)"
  using assms
  by (simp add: closed_answers_def tcp_pipe.run_after_close uds_pipe.run_after_close shm_pipe.run_after_close
      np_pipe.run_after_close win_pipe.run_after_close sc_pipe.run_after_close)

lemma close_is_final_witness:
  "run_calls (tcp_send Little script_send) (tcp_recv Little script_recv) (tcp_close (\<lambda>fd w. (0, w)))
      [CallSend (from_string ''x'') SendOptions_default, CallClose, CallRecv RecvOptions_default]
      (tcp_close (\<lambda>fd w. (0, w)) (\<lparr>tcp_fd = 3\<rparr>, \<lparr>outgoing = [], incoming = [1], script = []\<rparr>))
    = Some ([kClosed, kClosed], \<lparr>tcp_fd = -1\<rparr>, \<lparr>outgoing = [], incoming = [1], script = []\<rparr>)"
proof -
  let ?cs = "[CallSend (from_string ''x'') SendOptions_default, CallClose, CallRecv RecvOptions_default]"
  let ?win = "(\<lparr>wp_handles = sample_win_handles, wp_names = win_make_names ''b'' ''c'', wp_owner = True, wp_is_client = True\<rparr>,
    \<lparr>c2s = zero_Ring, s2c = zero_Ring\<rparr>, sample_win_world)"
  let ?p = "tcp_close (\<lambda>fd w. (0, w)) (\<lparr>tcp_fd = 3\<rparr>, \<lparr>outgoing = [], incoming = [1], script = []\<rparr>)"
  have "win_mapped ?win" by (simp add: win_mapped_def sample_win_handles_def INVALID_HANDLE_def)
  moreover have "sc_inv (mk_StateCallbackPipe () True)" by (simp add: sc_inv_def mk_StateCallbackPipe_def)
  ultimately have "run_calls (tcp_send Little script_send) (tcp_recv Little script_recv) (tcp_close (\<lambda>fd w. (0, w))) ?cs ?p
      = closed_answers ?cs ?p"
    by (rule close_is_final [THEN conjunct1])
  also have "\<dots> = Some ([kClosed, kClosed], \<lparr>tcp_fd = -1\<rparr>, \<lparr>outgoing = [], incoming = [1], script = []\<rparr>)"
    by (simp add: closed_answers_def tcp_close_def kInvalidSocket_def)
  finally show ?thesis .
qed

end
